(* ===== verification/Tunnel_Prelude.thy ===== *)
theory Tunnel_Prelude
  imports Main "HOL-Library.Word" "HOL-Library.Sublist" "HOL-Library.Char_ord"
    "HOL-Library.List_Lexorder" "HOL-Library.Option_ord"
begin

text \<open>
  Shared vocabulary of the development: machine integers, byte strings, Rust's
  \<^verbatim>\<open>Result\<close> with the \<^verbatim>\<open>?\<close> operator, the methods of \<^verbatim>\<open>str\<close> and of the integer types that
  the crates call, and a generic account of runs and invariants.

  A Rust \<^verbatim>\<open>String\<close> is the list of its UTF-8 bytes, as a HOL \<^typ>\<open>string\<close> (a HOL
  \<^typ>\<open>char\<close> is one byte): \<^verbatim>\<open>len\<close> is the byte length, and splitting at an ASCII character,
  ASCII lower-casing and ASCII character classes are byte-wise on UTF-8.
\<close>

named_theorems result_simps \<open>evaluation of the question-mark operator\<close>
named_theorems str_simps \<open>evaluation of the string methods\<close>
named_theorems word_nat_simps \<open>reading word operations over the naturals\<close>

section \<open>Integers, bytes and results\<close>

type_synonym u8 = "8 word"
type_synonym u16 = "16 word"
type_synonym u32 = "32 word"
type_synonym u64 = "64 word"
type_synonym usize = "64 word"
type_synonym bytes = "u8 list"

text \<open>\<^verbatim>\<open>Result<T, E>\<close>: \<open>Err e\<close> is \<open>Inl e\<close>, \<open>Ok x\<close> is \<open>Inr x\<close>.\<close>

type_synonym ('e, 'a) result = "'e + 'a"

abbreviation Ok :: "'a \<Rightarrow> ('e, 'a) result" where
  "Ok \<equiv> Inr"

abbreviation Err :: "'e \<Rightarrow> ('e, 'a) result" where
  "Err \<equiv> Inl"

text \<open>\<open>tryq r k\<close> is the code \<^verbatim>\<open>let x = r?; k(x)\<close>: an error returns early.\<close>

definition tryq :: "('e, 'a) result \<Rightarrow> ('a \<Rightarrow> ('e, 'b) result) \<Rightarrow> ('e, 'b) result" where
  "tryq r k = (case r of Inl e \<Rightarrow> Inl e | Inr x \<Rightarrow> k x)"

definition map_err :: "('e \<Rightarrow> 'f) \<Rightarrow> ('e, 'a) result \<Rightarrow> ('f, 'a) result" where
  "map_err f r = (case r of Inl e \<Rightarrow> Inl (f e) | Inr x \<Rightarrow> Inr x)"

text \<open>\<^verbatim>\<open>Result::ok\<close> and \<^verbatim>\<open>Result::is_ok\<close>.\<close>

definition ok_opt :: "('e, 'a) result \<Rightarrow> 'a option" where
  "ok_opt r = (case r of Inl e \<Rightarrow> None | Inr x \<Rightarrow> Some x)"

definition is_ok :: "('e, 'a) result \<Rightarrow> bool" where
  "is_ok r = (case r of Inl e \<Rightarrow> False | Inr x \<Rightarrow> True)"

text \<open>\<^verbatim>\<open>u64::abs_diff\<close> and \<^verbatim>\<open>u64::saturating_add\<close>.\<close>

definition abs_diff :: "u64 \<Rightarrow> u64 \<Rightarrow> u64" where
  "abs_diff a b = (if a < b then b - a else a - b)"

definition saturating_add :: "u64 \<Rightarrow> u64 \<Rightarrow> u64" where
  "saturating_add a b = (if unat a + unat b < 2 ^ 64 then a + b else - 1)"

section \<open>The methods of \<^verbatim>\<open>str\<close>\<close>

text \<open>\<^verbatim>\<open>str::as_bytes\<close>.\<close>

definition as_bytes :: "string \<Rightarrow> bytes" where
  "as_bytes s = map of_char s"

definition ascii_lower :: "char \<Rightarrow> char" where
  "ascii_lower c =
     (if 65 \<le> (of_char c :: nat) \<and> (of_char c :: nat) \<le> 90
      then char_of ((of_char c :: nat) + 32) else c)"

definition to_ascii_lowercase :: "string \<Rightarrow> string" where
  "to_ascii_lowercase s = map ascii_lower s"

text \<open>The UTF-8 encodings of the characters with Unicode property \<^verbatim>\<open>White_Space\<close>, the
  characters \<^verbatim>\<open>str::trim\<close> removes. No encoding is a proper prefix or suffix of another valid
  UTF-8 character, so stripping them byte-wise is stripping characters.\<close>

definition white_space :: "string list" where
  "white_space = map (map char_of)
     [[9], [10], [11], [12], [13], [32 :: nat], [0xC2, 0x85], [0xC2, 0xA0],
      [0xE1, 0x9A, 0x80],
      [0xE2, 0x80, 0x80], [0xE2, 0x80, 0x81], [0xE2, 0x80, 0x82], [0xE2, 0x80, 0x83],
      [0xE2, 0x80, 0x84], [0xE2, 0x80, 0x85], [0xE2, 0x80, 0x86], [0xE2, 0x80, 0x87],
      [0xE2, 0x80, 0x88], [0xE2, 0x80, 0x89], [0xE2, 0x80, 0x8A],
      [0xE2, 0x80, 0xA8], [0xE2, 0x80, 0xA9], [0xE2, 0x80, 0xAF],
      [0xE2, 0x81, 0x9F], [0xE3, 0x80, 0x80]]"

function strip_leading :: "string list \<Rightarrow> string \<Rightarrow> string" where
  "strip_leading ws s =
     (case find (\<lambda>w. w \<noteq> [] \<and> prefix w s) ws of
        None \<Rightarrow> s
      | Some w \<Rightarrow> strip_leading ws (drop (length w) s))"
  by pat_completeness auto
termination
  by (relation "measure (\<lambda>(ws, s). length s)")
    (auto simp: find_Some_iff prefix_def)

declare strip_leading.simps [simp del]

definition trim_start :: "string \<Rightarrow> string" where
  "trim_start s = strip_leading white_space s"

definition trim_end :: "string \<Rightarrow> string" where
  "trim_end s = rev (strip_leading (map rev white_space) (rev s))"

definition trim :: "string \<Rightarrow> string" where
  "trim s = trim_end (trim_start s)"

text \<open>\<^verbatim>\<open>s.split(c)\<close> for an ASCII character \<open>c\<close>: always at least one piece.\<close>

fun split_on :: "char \<Rightarrow> string \<Rightarrow> string list" where
  "split_on c [] = [[]]"
| "split_on c (x # xs) =
     (if x = c then [] # split_on c xs
      else (case split_on c xs of [] \<Rightarrow> [[x]] | p # ps \<Rightarrow> (x # p) # ps))"

text \<open>\<^verbatim>\<open>s.contains(pat)\<close>.\<close>

fun contains_str :: "string \<Rightarrow> string \<Rightarrow> bool" where
  "contains_str pat [] = (pat = [])"
| "contains_str pat (x # xs) = (prefix pat (x # xs) \<or> contains_str pat xs)"

section \<open>Runs of a transition function\<close>

text \<open>The state after a list of events, and all states on the way.\<close>

definition run :: "('s \<Rightarrow> 'e \<Rightarrow> 's) \<Rightarrow> 's \<Rightarrow> 'e list \<Rightarrow> 's" where
  "run step s es = fold (\<lambda>e s. step s e) es s"

section \<open>Lemmas on results and words\<close>

lemma tryq_simps [simp, result_simps]:
  "tryq (Err e) k = Err e"
  "tryq (Ok x) k = k x"
  by (simp_all add: tryq_def)

lemma tryq_eq_Ok_iff: "tryq r k = Ok y \<longleftrightarrow> (\<exists>x. r = Ok x \<and> k x = Ok y)"
  by (cases r) auto

lemma tryq_eq_Err_iff: "tryq r k = Err e \<longleftrightarrow> r = Err e \<or> (\<exists>x. r = Ok x \<and> k x = Err e)"
  by (cases r) auto

lemma map_err_simps [simp, result_simps]:
  "map_err f (Err e) = Err (f e)"
  "map_err f (Ok x) = Ok x"
  by (simp_all add: map_err_def)

lemma ok_opt_simps [simp, result_simps]:
  "ok_opt (Err e) = None"
  "ok_opt (Ok x) = Some x"
  "is_ok (Err e) \<longleftrightarrow> False"
  "is_ok (Ok x) \<longleftrightarrow> True"
  by (simp_all add: ok_opt_def is_ok_def)

lemma ok_opt_eq_Some_iff [simp]: "ok_opt r = Some x \<longleftrightarrow> r = Ok x"
  by (cases r) auto

lemma ok_opt_eq_None_iff: "ok_opt r = None \<longleftrightarrow> (\<exists>e. r = Err e)"
  by (cases r) auto

lemma unat_abs_diff [word_nat_simps]:
  "unat (abs_diff a b) = (if unat a < unat b then unat b - unat a else unat a - unat b)"
  by (auto simp: abs_diff_def word_less_nat_alt unat_sub word_le_nat_alt)

lemma uint_abs_diff [word_nat_simps]: "uint (abs_diff a b) = \<bar>uint a - uint b\<bar>"
proof -
  have "int (unat (abs_diff a b)) = \<bar>int (unat a) - int (unat b)\<bar>"
    unfolding unat_abs_diff by (simp add: of_nat_diff del: of_nat_unat)
  then show ?thesis by simp
qed

lemma abs_diff_commute: "abs_diff a b = abs_diff b a"
  by (auto simp: abs_diff_def)

lemma abs_diff_self [simp]: "abs_diff a a = 0"
  by (simp add: abs_diff_def)

lemma unat_saturating_add [word_nat_simps]:
  "unat (saturating_add a b) = min (unat a + unat b) (2 ^ 64 - 1)"
proof (cases "unat a + unat b < 2 ^ 64")
  case True
  then show ?thesis by (simp add: saturating_add_def unat_word_ariths)
next
  case False
  have "unat (- 1 :: u64) = 2 ^ 64 - 1" by (simp add: unsigned_minus_1_eq_mask mask_eq_exp_minus_1)
  with False show ?thesis by (simp add: saturating_add_def)
qed

lemma run_simps [simp]:
  "run step s [] = s"
  "run step s (e # es) = run step (step s e) es"
  by (simp_all add: run_def)

lemma run_append: "run step s (es @ fs) = run step (run step s es) fs"
  by (simp add: run_def)

lemma run_invariant:
  assumes "I s" and "\<And>s e. I s \<Longrightarrow> I (step s e)"
  shows "I (run step s es)"
  using assms(1) by (induction es arbitrary: s) (auto intro: assms(2))

text \<open>Runs of a labelled step relation, for the components whose tasks interleave: the labels
  are the scheduling, so a statement about all traces is one about all schedules.\<close>

inductive trace :: "('s \<Rightarrow> 'a \<Rightarrow> 's \<Rightarrow> bool) \<Rightarrow> 's \<Rightarrow> 'a list \<Rightarrow> 's \<Rightarrow> bool"
  for step :: "'s \<Rightarrow> 'a \<Rightarrow> 's \<Rightarrow> bool" where
  trace_Nil [intro]: "trace step s [] s"
| trace_Cons [intro]: "step s a s' \<Longrightarrow> trace step s' as s'' \<Longrightarrow> trace step s (a # as) s''"

inductive_simps trace_simps [simp]:
  "trace step s [] s'"
  "trace step s (a # as) s'"

lemma trace_invariant:
  assumes "trace step s as s'" and "I s" and "\<And>s a s'. I s \<Longrightarrow> step s a s' \<Longrightarrow> I s'"
  shows "I s'"
  using assms(1,2) by induction (auto intro: assms(3))

lemma trace_append:
  "trace step s (as @ bs) s' \<longleftrightarrow> (\<exists>t. trace step s as t \<and> trace step t bs s')"
  by (induction as arbitrary: s) auto

lemma trace_trans: "trace step s as t \<Longrightarrow> trace step t bs s' \<Longrightarrow> trace step s (as @ bs) s'"
  by (auto simp: trace_append)

text \<open>Induction on the length of a run from a fixed start, for properties of the labels so far.\<close>

lemma trace_rev_induct [consumes 1, case_names initial step]:
  assumes "trace step s as s'" and "P [] s"
    and "\<And>as t a t'. trace step s as t \<Longrightarrow> P as t \<Longrightarrow> step t a t' \<Longrightarrow> P (as @ [a]) t'"
  shows "P as s'"
  using assms(1)
proof (induction as arbitrary: s' rule: rev_induct)
  case Nil
  then show ?case using assms(2) by simp
next
  case (snoc a as)
  then obtain t where "trace step s as t" "step t a s'" by (auto simp: trace_append)
  with snoc.IH assms(3) show ?case by blast
qed

lemma trace_fun: "trace (\<lambda>s a s'. s' = f s a) s as s' \<longleftrightarrow> s' = run f s as"
  by (induction as arbitrary: s) auto

section \<open>The contract of a textual form\<close>

text \<open>
  A type with a printer and a parser: printing a valid value and parsing it gives the value
  back, and the parser yields valid values only. Components that persist or display a value
  as text (addresses, the stored key length) interpret this contract, and its users need
  nothing else about the two functions.
\<close>

locale text_form =
  fixes valid :: "'a \<Rightarrow> bool"
    and print :: "'a \<Rightarrow> string"
    and parse :: "string \<Rightarrow> ('e, 'a) result"
  assumes parse_print: "valid x \<Longrightarrow> parse (print x) = Ok x"
    and parse_valid: "parse s = Ok x \<Longrightarrow> valid x"
begin

lemma print_inject: "valid x \<Longrightarrow> valid y \<Longrightarrow> print x = print y \<longleftrightarrow> x = y"
  by (metis parse_print sum.inject(2))

lemma reparse: "parse s = Ok x \<Longrightarrow> parse (print x) = Ok x"
  by (rule parse_print [OF parse_valid])

lemma parse_range: "(\<exists>s. parse s = Ok x) \<longleftrightarrow> valid x"
  using parse_print parse_valid by blast

lemma same_canonical_text:
  "parse s = Ok x \<Longrightarrow> parse t = Ok y \<Longrightarrow> print x = print y \<longleftrightarrow> x = y"
  by (simp add: print_inject parse_valid)

end

section \<open>The contract of a newest-wins register\<close>

text \<open>
  Two places of the program keep the newest of what they see: the resolver, among the
  candidates of a lookup, and the storage node, among the records put under a key. Both have a
  state with a slot that holds a stamp or nothing; processing a message whose stamp is
  \<open>None\<close> (a rejected one) leaves the slot, any other message raises it to at least its stamp.
  \<open>None\<close> is below every stamp.
\<close>

locale newest_register =
  fixes step :: "'st \<Rightarrow> 'm \<Rightarrow> 'st \<Rightarrow> bool"
    and stamp :: "'m \<Rightarrow> 'k::linorder option"
    and slot :: "'st \<Rightarrow> 'k option"
  assumes slot_step: "step s m s' \<Longrightarrow> slot s' = max (slot s) (stamp m)"
begin

lemma slot_trace:
  assumes "trace step s ms s'"
  shows "slot s' = Max (insert (slot s) (stamp ` set ms))"
  using assms
proof induction
  case (trace_Cons s m s' ms s'')
  have "Max (insert (slot s') (stamp ` set ms)) =
      max (max (slot s) (stamp m)) (Max (insert (slot s') (stamp ` set ms)))"
    by (subst slot_step [OF trace_Cons.hyps(1), symmetric]) (simp add: max_absorb2)
  with trace_Cons show ?case
    by (cases "ms = []") (simp_all add: slot_step ac_simps max.left_commute)
qed simp

lemma order_irrelevant:
  "trace step s ms s' \<Longrightarrow> trace step t ms' t' \<Longrightarrow> slot s = slot t \<Longrightarrow> stamp ` set ms = stamp ` set ms' \<Longrightarrow>
   slot s' = slot t'"
  by (simp add: slot_trace)

end

section \<open>Lemmas on strings\<close>

lemma unat_of_char [word_nat_simps]: "unat (of_char c :: u8) = of_char c"
proof -
  have "(of_char c :: u8) = word_of_nat (of_char c)"
    by (simp add: of_nat_of_char)
  moreover have "(of_char c :: nat) < 256"
    by (rule nat_of_char_less_256)
  ultimately show ?thesis by (simp add: unat_of_nat)
qed

lemma as_bytes_inject [simp]: "as_bytes s = as_bytes t \<longleftrightarrow> s = t"
proof -
  have "inj (of_char :: char \<Rightarrow> u8)"
    by (rule injI) (metis unat_of_char of_char_eq_iff)
  then show ?thesis by (simp add: as_bytes_def)
qed

lemma split_on_not_Nil [simp]: "split_on c s \<noteq> []"
  by (induction s) (auto split: list.splits)

lemma split_on_no_sep [simp]: "c \<notin> set s \<Longrightarrow> split_on c s = [s]"
  by (induction s) auto

lemma split_on_Cons_sep [simp]: "c \<notin> set a \<Longrightarrow> split_on c (a @ c # b) = a # split_on c b"
  by (induction a) auto

text \<open>The pieces hold no separator, and joining them gives the string back.\<close>

lemma split_on_pieces: "p \<in> set (split_on c s) \<Longrightarrow> c \<notin> set p"
  by (induction s arbitrary: p) (force split: list.splits if_splits)+

fun join_with :: "char \<Rightarrow> string list \<Rightarrow> string" where
  "join_with c [] = []"
| "join_with c [p] = p"
| "join_with c (p # q # ps) = p @ c # join_with c (q # ps)"

lemma join_with_Cons_Cons: "join_with c ((x # p) # ps) = x # join_with c (p # ps)"
  by (cases ps) auto

lemma join_split_on [simp]: "join_with c (split_on c s) = s"
proof (induction s)
  case (Cons x xs)
  obtain p ps where "split_on c xs = p # ps"
    by (cases "split_on c xs") auto
  with Cons show ?case by (simp add: join_with_Cons_Cons)
qed simp

lemma split_on_inject [simp]: "split_on c s = split_on c t \<longleftrightarrow> s = t"
  by (metis join_split_on)

text \<open>Printable ASCII is never white space, nor part of its encodings, so a string that
  starts and ends with it is its own trimming.\<close>

definition graphic :: "char \<Rightarrow> bool" where
  "graphic c \<longleftrightarrow> 33 \<le> (of_char c :: nat) \<and> (of_char c :: nat) \<le> 126"

lemma white_space_ends:
  "\<forall>w \<in> set white_space. w \<noteq> [] \<and> \<not> graphic (hd w) \<and> \<not> graphic (last w)"
  by (simp add: white_space_def graphic_def)

lemma strip_leading_id:
  assumes "\<And>w. w \<in> set ws \<Longrightarrow> w \<noteq> [] \<Longrightarrow> hd w \<noteq> hd s" and "s \<noteq> []"
  shows "strip_leading ws s = s"
proof -
  have "find (\<lambda>w. w \<noteq> [] \<and> prefix w s) ws = None"
    using assms by (fastforce simp: find_None_iff prefix_def hd_append)
  then show ?thesis by (subst strip_leading.simps) simp
qed

lemma trim_graphic [str_simps]:
  assumes "s \<noteq> []" and "graphic (hd s)" and "graphic (last s)"
  shows "trim s = s"
proof -
  have "trim_start s = s"
    unfolding trim_start_def using assms white_space_ends
    by (intro strip_leading_id) auto
  moreover have "strip_leading (map rev white_space) (rev s) = rev s"
    using assms white_space_ends by (intro strip_leading_id) (auto simp: hd_rev)
  ultimately show ?thesis by (simp add: trim_def trim_end_def)
qed

text \<open>The encodings are prefix-free and suffix-free, so trimming a padded string removes
  exactly the padding.\<close>

definition prefix_free :: "string list \<Rightarrow> bool" where
  "prefix_free ws \<longleftrightarrow> list_all (\<lambda>v. v \<noteq> [] \<and> list_all (\<lambda>w. prefix v w \<longrightarrow> v = w) ws) ws"

lemma white_space_prefix_free:
  "prefix_free white_space" "prefix_free (map rev white_space)"
  by (simp_all add: prefix_free_def white_space_def)

lemma strip_leading_padding:
  assumes "set us \<subseteq> set ws" and "prefix_free ws"
    and "t \<noteq> []" and "\<And>w. w \<in> set ws \<Longrightarrow> hd w \<noteq> hd t"
  shows "strip_leading ws (concat us @ t) = t"
  using assms(1)
proof (induction us)
  case Nil
  show ?case using assms(3,4) by (auto intro: strip_leading_id)
next
  case (Cons u us)
  let ?s = "concat (u # us) @ t"
  have u: "u \<in> set ws" "u \<noteq> []" "prefix u ?s"
    using Cons.prems assms(2) by (auto simp: prefix_free_def list_all_iff)
  then obtain w where w: "find (\<lambda>w. w \<noteq> [] \<and> prefix w ?s) ws = Some w"
    by (cases "find (\<lambda>w. w \<noteq> [] \<and> prefix w ?s) ws") (auto simp: find_None_iff)
  then have "w \<in> set ws" and "prefix w ?s"
    by (auto simp: find_Some_iff)
  with u assms(2) have "w = u"
    using prefix_same_cases [of w ?s u] by (auto simp: prefix_free_def list_all_iff)
  with w have "strip_leading ws ?s = strip_leading ws (concat us @ t)"
    by (subst strip_leading.simps) simp
  with Cons show ?case by simp
qed

lemma trim_padding:
  assumes "set us \<subseteq> set white_space" and "set vs \<subseteq> set white_space"
    and "s \<noteq> []" and "graphic (hd s)" and "graphic (last s)"
  shows "trim (concat us @ s @ concat vs) = s"
proof -
  have "trim_start (concat us @ s @ concat vs) = s @ concat vs"
    unfolding trim_start_def using assms white_space_prefix_free(1) white_space_ends
    by (intro strip_leading_padding) auto
  moreover have "strip_leading (map rev white_space) (concat (map rev (rev vs)) @ rev s) = rev s"
    using assms white_space_prefix_free(2) white_space_ends
    by (intro strip_leading_padding) (auto simp: hd_rev)
  ultimately show ?thesis
    by (simp add: trim_def trim_end_def rev_concat rev_map)
qed

lemma strip_leading_suffix: "suffix (strip_leading ws s) s"
proof (induction ws s rule: strip_leading.induct)
  case (1 ws s)
  show ?case
  proof (cases "find (\<lambda>w. w \<noteq> [] \<and> prefix w s) ws")
    case None
    then show ?thesis by (simp add: strip_leading.simps [of ws s])
  next
    case (Some w)
    then have "suffix (strip_leading ws (drop (length w) s)) (drop (length w) s)"
      by (rule "1.IH")
    with Some show ?thesis
      by (simp add: strip_leading.simps [of ws s])
        (metis suffix_drop suffix_order.trans)
  qed
qed

lemma length_trim: "length (trim s) \<le> length s"
  using suffix_length_le [OF strip_leading_suffix, of white_space s]
    suffix_length_le [OF strip_leading_suffix, of "map rev white_space" "rev (trim_start s)"]
  by (simp add: trim_def trim_start_def trim_end_def)

lemma set_trim: "set (trim s) \<subseteq> set s"
proof -
  have strip: "set (strip_leading ws t) \<subseteq> set t" for ws t
    by (rule set_mono_suffix [OF strip_leading_suffix])
  show ?thesis
    using strip [of "map rev white_space" "rev (trim_start s)"] strip [of white_space s]
    by (auto simp: trim_def trim_start_def trim_end_def)
qed

lemma ascii_lower_idem [simp]: "ascii_lower (ascii_lower c) = ascii_lower c"
  by (auto simp: ascii_lower_def)

lemma to_ascii_lowercase_idem [simp]:
  "to_ascii_lowercase (to_ascii_lowercase s) = to_ascii_lowercase s"
  by (simp add: to_ascii_lowercase_def)

lemma to_ascii_lowercase_append [simp]:
  "to_ascii_lowercase (s @ t) = to_ascii_lowercase s @ to_ascii_lowercase t"
  by (simp add: to_ascii_lowercase_def)

lemma length_to_ascii_lowercase [simp]: "length (to_ascii_lowercase s) = length s"
  by (simp add: to_ascii_lowercase_def)

lemma contains_str_iff_sublist: "contains_str pat s \<longleftrightarrow> sublist pat s"
  by (induction s) (auto simp: sublist_Cons_right)

end
