(* ===== verification/Core_Externs.thy ===== *)
theory Core_Externs
  imports Tunnel_Prelude
begin

text \<open>
  The third-party primitives that \<^verbatim>\<open>crates/core\<close> calls, as a record of functions every
  definition that needs them takes as its argument, and the documented behaviour the crate
  relies on, as named predicates:
  \<^item> \<open>sha256\<close> is \<^verbatim>\<open>sha2::Sha256\<close> (the digest of the concatenation of the updates);
  \<^item> \<open>base32_nopad\<close> is \<^verbatim>\<open>data_encoding::BASE32_NOPAD.encode\<close> (RFC 4648, upper case, no padding);
  \<^item> \<open>ed_public\<close>, \<open>ed_sign\<close>, \<open>ed_vk_ok\<close>, \<open>ed_verify\<close> are \<^verbatim>\<open>ed25519_dalek\<close>'s
    \<^verbatim>\<open>SigningKey::verifying_key\<close>, \<^verbatim>\<open>Signer::sign\<close>, \<^verbatim>\<open>VerifyingKey::from_bytes(..).is_ok()\<close> and
    \<^verbatim>\<open>Verifier::verify(..).is_ok()\<close>, over raw byte strings.
\<close>

record crypto =
  sha256 :: "bytes \<Rightarrow> bytes"
  base32_nopad :: "bytes \<Rightarrow> string"
  ed_public :: "bytes \<Rightarrow> bytes"
  ed_sign :: "bytes \<Rightarrow> bytes \<Rightarrow> bytes"
  ed_vk_ok :: "bytes \<Rightarrow> bool"
  ed_verify :: "bytes \<Rightarrow> bytes \<Rightarrow> bytes \<Rightarrow> bool"

section \<open>Documented behaviour\<close>

text \<open>A SHA-256 digest has 32 bytes.\<close>

definition sha256_law :: "'a crypto_scheme \<Rightarrow> bool" where
  "sha256_law X \<longleftrightarrow> (\<forall>m. length (sha256 X m) = 32)"

text \<open>RFC 4648 base32 of 32 bytes, unpadded, has 52 characters of \<^verbatim>\<open>A-Z2-7\<close>.\<close>

definition is_base32_upper :: "char \<Rightarrow> bool" where
  "is_base32_upper c \<longleftrightarrow>
     (65 \<le> (of_char c :: nat) \<and> (of_char c :: nat) \<le> 90) \<or>
     (50 \<le> (of_char c :: nat) \<and> (of_char c :: nat) \<le> 55)"

definition base32_law :: "'a crypto_scheme \<Rightarrow> bool" where
  "base32_law X \<longleftrightarrow>
     (\<forall>h. length h = 32 \<longrightarrow>
        length (base32_nopad X h) = 52 \<and> list_all is_base32_upper (base32_nopad X h))"

text \<open>A signature made with a key verifies under its public key, which is a valid point.\<close>

definition ed25519_law :: "'a crypto_scheme \<Rightarrow> bool" where
  "ed25519_law X \<longleftrightarrow>
     (\<forall>sk m. ed_vk_ok X (ed_public X sk) \<and>
        ed_verify X (ed_public X sk) m (ed_sign X sk m))"

text \<open>
  Unforgeability, for one honest key: only the messages in \<open>issued\<close>, those the holder of
  \<open>pk\<close> really signed, verify under \<open>pk\<close>.
\<close>

definition unforgeable :: "'a crypto_scheme \<Rightarrow> bytes \<Rightarrow> bytes set \<Rightarrow> bool" where
  "unforgeable X pk issued \<longleftrightarrow> (\<forall>m s. ed_verify X pk m s \<longrightarrow> m \<in> issued)"

section \<open>The documented behaviour is consistent\<close>

text \<open>
  A concrete instance, used to evaluate the model on concrete inputs: the encoder is RFC 4648
  base32 computed bit by bit; the digest (zero-padding to 32 bytes) and the signature (key and
  message, padded to 64 bytes) have the shapes and the laws of the real ones but none of their
  strength.
\<close>

definition byte_bits :: "u8 \<Rightarrow> bool list" where
  "byte_bits b = map (bit b) [7, 6, 5, 4, 3, 2, 1, 0]"

definition bits_value :: "bool list \<Rightarrow> nat" where
  "bits_value bs = foldl (\<lambda>n b. 2 * n + of_bool b) 0 bs"

fun quintets :: "bool list \<Rightarrow> nat list" where
  "quintets [] = []"
| "quintets (a # b # c # d # e # r) = bits_value [a, b, c, d, e] # quintets r"
| "quintets r = [bits_value (take 5 (r @ replicate 4 False))]"

definition base32_digit :: "nat \<Rightarrow> char" where
  "base32_digit n = (if n < 26 then char_of (65 + n) else char_of (24 + n))"

definition rfc4648_base32 :: "bytes \<Rightarrow> string" where
  "rfc4648_base32 bs = map base32_digit (quintets (concat (map byte_bits bs)))"

definition pad_to :: "nat \<Rightarrow> bytes \<Rightarrow> bytes" where
  "pad_to n bs = take n (bs @ replicate n 0)"

definition demo_crypto :: crypto where
  "demo_crypto = \<lparr>
     sha256 = pad_to 32,
     base32_nopad = rfc4648_base32,
     ed_public = (\<lambda>sk. sk),
     ed_sign = (\<lambda>sk m. pad_to 64 (sk @ m)),
     ed_vk_ok = (\<lambda>pk. True),
     ed_verify = (\<lambda>pk m s. s = pad_to 64 (pk @ m))\<rparr>"

lemma length_pad_to [simp]: "length (pad_to n bs) = n"
  by (simp add: pad_to_def)

lemma length_byte_bits [simp]: "length (byte_bits b) = 8"
  by (simp add: byte_bits_def)

lemma length_quintets: "length (quintets bs) = (length bs + 4) div 5"
  by (induction bs rule: quintets.induct) auto

lemma quintets_bound: "n \<in> set (quintets bs) \<Longrightarrow> n < 32"
  by (induction bs rule: quintets.induct) (auto simp: bits_value_def of_bool_def numeral_eq_Suc)

lemma base32_digit_upper: "n < 32 \<Longrightarrow> is_base32_upper (base32_digit n)"
  by (auto simp: base32_digit_def is_base32_upper_def)

lemma demo_sha256_law: "sha256_law demo_crypto"
  by (simp add: sha256_law_def demo_crypto_def)

lemma demo_base32_law: "base32_law demo_crypto"
proof -
  have "length (concat (map byte_bits h)) = 8 * length h" for h
    by (induction h) auto
  then show ?thesis
    by (auto simp: base32_law_def demo_crypto_def rfc4648_base32_def length_quintets
        list_all_iff quintets_bound base32_digit_upper)
qed

lemma demo_ed25519_law: "ed25519_law demo_crypto"
  by (simp add: ed25519_law_def demo_crypto_def)

end
