(* ===== verification/Core_Name.thy ===== *)
theory Core_Name
  imports Core_Externs
begin

text \<open>
  Self-certifying names: \<^verbatim>\<open>crates/core/src/lib.rs\<close> (the constants),
  \<^verbatim>\<open>crates/core/src/error.rs\<close> (\<^verbatim>\<open>CoreError\<close>) and \<^verbatim>\<open>crates/core/src/name.rs\<close>. Lengths are
  naturals: a \<^verbatim>\<open>usize\<close> that counts the bytes of a string in memory does not overflow.
\<close>

section \<open>Constants and errors\<close>

definition DEFAULT_KEYID_LEN :: nat where
  "DEFAULT_KEYID_LEN = 26"

definition MIN_KEYID_LEN :: nat where
  "MIN_KEYID_LEN = 16"

definition MAX_KEYID_LEN :: nat where
  "MAX_KEYID_LEN = 52"

definition SUFFIX :: string where
  "SUFFIX = ''minecraft''"

definition DHT_KEY_PREFIX :: string where
  "DHT_KEY_PREFIX = ''mc-tunnel:v1:''"

definition RECORD_VERSION :: u8 where
  "RECORD_VERSION = 1"

datatype core_error =
    BadSuffix string
  | TooManyLabels
  | KeyidLen nat nat nat \<comment> \<open>len, min, max\<close>
  | KeyidCharset
  | VanityTooLong nat
  | VanityCharset
  | EmptyLabel

section \<open>Key identifiers\<close>

definition keyid_full_from_pubkey :: "'a crypto_scheme \<Rightarrow> bytes \<Rightarrow> string" where
  "keyid_full_from_pubkey X pubkey =
     (let h = sha256 X pubkey in to_ascii_lowercase (base32_nopad X h))"

text \<open>\<^verbatim>\<open>String::truncate\<close> leaves a shorter string unchanged, as \<^const>\<open>take\<close> does.\<close>

definition keyid_from_pubkey :: "'a crypto_scheme \<Rightarrow> bytes \<Rightarrow> nat \<Rightarrow> string" where
  "keyid_from_pubkey X pubkey len =
     (let full = keyid_full_from_pubkey X pubkey in take len full)"

definition is_base32_lower :: "char \<Rightarrow> bool" where
  "is_base32_lower c \<longleftrightarrow>
     (97 \<le> (of_char c :: nat) \<and> (of_char c :: nat) \<le> 122) \<or>
     (50 \<le> (of_char c :: nat) \<and> (of_char c :: nat) \<le> 55)"

definition check_keyid_len :: "nat \<Rightarrow> (core_error, unit) result" where
  "check_keyid_len len =
     (if MIN_KEYID_LEN \<le> len \<and> len \<le> MAX_KEYID_LEN then Ok ()
      else Err (KeyidLen len MIN_KEYID_LEN MAX_KEYID_LEN))"

section \<open>Names\<close>

record name =
  name_vanity :: string
  name_keyid :: string

definition validate_keyid :: "string \<Rightarrow> (core_error, string) result" where
  "validate_keyid keyid =
     (if keyid = [] then Err EmptyLabel
      else tryq (check_keyid_len (length keyid)) (\<lambda>_.
        if \<not> list_all is_base32_lower keyid then Err KeyidCharset
        else Ok keyid))"

definition validate_vanity :: "string \<Rightarrow> (core_error, unit) result" where
  "validate_vanity vanity =
     (if vanity = [] then Ok ()
      else if length vanity > 8 then Err (VanityTooLong (length vanity))
      else if \<not> list_all is_base32_lower vanity then Err VanityCharset
      else Ok ())"

definition Name_from_pubkey ::
  "'a crypto_scheme \<Rightarrow> bytes \<Rightarrow> string \<Rightarrow> nat \<Rightarrow> (core_error, name) result" where
  "Name_from_pubkey X pubkey vanity keyid_len =
     tryq (check_keyid_len keyid_len) (\<lambda>_.
     tryq (validate_vanity vanity) (\<lambda>_.
     Ok \<lparr>name_vanity = vanity, name_keyid = keyid_from_pubkey X pubkey keyid_len\<rparr>))"

definition Name_keyid_len :: "name \<Rightarrow> nat" where
  "Name_keyid_len n = length (name_keyid n)"

text \<open>\<^verbatim>\<open>slice::split_last\<close>.\<close>

definition split_last :: "'a list \<Rightarrow> ('a \<times> 'a list) option" where
  "split_last xs = (if xs = [] then None else Some (last xs, butlast xs))"

definition Name_parse :: "string \<Rightarrow> (core_error, name) result" where
  "Name_parse inp =
     (let inp = to_ascii_lowercase (trim inp);
          labels = split_on (CHR ''.'') inp
      in case split_last labels of
           None \<Rightarrow> Err EmptyLabel
         | Some (sfx, rest) \<Rightarrow>
             if sfx \<noteq> SUFFIX then Err (BadSuffix SUFFIX)
             else (case rest of
                 [keyid] \<Rightarrow>
                   tryq (validate_keyid keyid) (\<lambda>keyid.
                   Ok \<lparr>name_vanity = [], name_keyid = keyid\<rparr>)
               | [vanity, keyid] \<Rightarrow>
                   tryq (validate_vanity vanity) (\<lambda>_.
                   tryq (validate_keyid keyid) (\<lambda>keyid.
                   Ok \<lparr>name_vanity = vanity, name_keyid = keyid\<rparr>))
               | [] \<Rightarrow> Err EmptyLabel
               | _ \<Rightarrow> Err TooManyLabels))"

text \<open>The \<^verbatim>\<open>Display\<close> implementation.\<close>

definition Name_to_string :: "name \<Rightarrow> string" where
  "Name_to_string n =
     (if name_vanity n = [] then name_keyid n @ ''.'' @ SUFFIX
      else name_vanity n @ ''.'' @ name_keyid n @ ''.'' @ SUFFIX)"

definition keyid_matches_pubkey :: "'a crypto_scheme \<Rightarrow> string \<Rightarrow> bytes \<Rightarrow> bool" where
  "keyid_matches_pubkey X keyid pubkey =
     (let derived = keyid_from_pubkey X pubkey (length keyid) in derived = keyid)"

definition default_keyid_len :: nat where
  "default_keyid_len = DEFAULT_KEYID_LEN"

section \<open>Well-formed names\<close>

text \<open>What the struct's documentation promises of its two fields.\<close>

definition vanity_wf :: "string \<Rightarrow> bool" where
  "vanity_wf s \<longleftrightarrow> length s \<le> 8 \<and> list_all is_base32_lower s"

definition keyid_wf :: "string \<Rightarrow> bool" where
  "keyid_wf s \<longleftrightarrow> 16 \<le> length s \<and> length s \<le> 52 \<and> list_all is_base32_lower s"

definition name_wf :: "name \<Rightarrow> bool" where
  "name_wf n \<longleftrightarrow> vanity_wf (name_vanity n) \<and> keyid_wf (name_keyid n)"

lemmas keyid_consts = DEFAULT_KEYID_LEN_def MIN_KEYID_LEN_def MAX_KEYID_LEN_def
lemmas validate_defs = validate_keyid_def validate_vanity_def check_keyid_len_def keyid_consts

lemma check_keyid_len_Ok_iff: "check_keyid_len n = Ok u \<longleftrightarrow> 16 \<le> n \<and> n \<le> 52"
  by (simp add: check_keyid_len_def keyid_consts)

lemma validate_keyid_Ok_iff: "validate_keyid s = Ok t \<longleftrightarrow> t = s \<and> keyid_wf s"
  by (auto simp: validate_defs keyid_wf_def)

lemma validate_vanity_Ok_iff: "validate_vanity s = Ok u \<longleftrightarrow> vanity_wf s"
  by (auto simp: validate_defs vanity_wf_def)

lemmas validate_Ok_iffs = check_keyid_len_Ok_iff validate_keyid_Ok_iff validate_vanity_Ok_iff

text \<open>Characters of the charset are printable, are no dots, and are their own lower case.\<close>

lemma is_base32_lower_char:
  assumes "is_base32_lower c"
  shows "graphic c" and "c \<noteq> CHR ''.''" and "ascii_lower c = c"
  using assms by (auto simp: is_base32_lower_def graphic_def ascii_lower_def)

lemma lower_of_base32_upper: "is_base32_upper c \<Longrightarrow> is_base32_lower (ascii_lower c)"
  by (auto simp: is_base32_upper_def is_base32_lower_def ascii_lower_def)

section \<open>Derived key identifiers\<close>

lemma keyid_full_wf:
  assumes "sha256_law X" and "base32_law X"
  shows "length (keyid_full_from_pubkey X pk) = 52"
    and "list_all is_base32_lower (keyid_full_from_pubkey X pk)"
  using assms lower_of_base32_upper
  by (auto simp: keyid_full_from_pubkey_def sha256_law_def base32_law_def list_all_iff
      to_ascii_lowercase_def)

lemma keyid_from_pubkey_wf:
  assumes "sha256_law X" and "base32_law X" and "16 \<le> n" and "n \<le> 52"
  shows "keyid_wf (keyid_from_pubkey X pk n)" and "length (keyid_from_pubkey X pk n) = n"
  using assms keyid_full_wf [OF assms(1,2), of pk]
  by (auto simp: keyid_wf_def keyid_from_pubkey_def list_all_iff dest: in_set_takeD)

text \<open>The comparison of the code, by re-deriving a key identifier of the same length, is a
  prefix test against the full 52 characters.\<close>

lemma keyid_matches_pubkey_prefix:
  "keyid_matches_pubkey X kid pk \<longleftrightarrow> prefix kid (keyid_full_from_pubkey X pk)"
  unfolding keyid_matches_pubkey_def keyid_from_pubkey_def Let_def
  by (metis append_eq_conv_conj prefix_def take_is_prefix)

section \<open>Parsing and printing\<close>

lemma Name_to_string_labels:
  assumes "name_wf n"
  shows "split_on (CHR ''.'') (Name_to_string n) =
    (if name_vanity n = [] then [] else [name_vanity n]) @ [name_keyid n, SUFFIX]"
proof -
  have "CHR ''.'' \<notin> set (name_vanity n)" "CHR ''.'' \<notin> set (name_keyid n)"
    using assms is_base32_lower_char(2)
    by (auto simp: name_wf_def vanity_wf_def keyid_wf_def list_all_iff)
  moreover have "CHR ''.'' \<notin> set SUFFIX" by (simp add: SUFFIX_def)
  ultimately show ?thesis by (simp add: Name_to_string_def)
qed

lemma Name_to_string_normal:
  assumes "name_wf n"
  shows "to_ascii_lowercase (Name_to_string n) = Name_to_string n"
    and "Name_to_string n \<noteq> []"
    and "graphic (hd (Name_to_string n))" and "graphic (last (Name_to_string n))"
proof -
  have wf: "\<forall>c \<in> set (name_vanity n) \<union> set (name_keyid n). is_base32_lower c"
    and k: "name_keyid n \<noteq> []"
    using assms by (auto simp: name_wf_def vanity_wf_def keyid_wf_def list_all_iff)
  from wf show "to_ascii_lowercase (Name_to_string n) = Name_to_string n"
    by (auto simp: Name_to_string_def to_ascii_lowercase_def SUFFIX_def is_base32_lower_char
        map_idI) (simp_all add: ascii_lower_def)
  show "Name_to_string n \<noteq> []"
    by (simp add: Name_to_string_def)
  show "graphic (last (Name_to_string n))"
    by (simp add: Name_to_string_def SUFFIX_def graphic_def)
  show "graphic (hd (Name_to_string n))"
    using wf k by (auto simp: Name_to_string_def hd_append is_base32_lower_char)
qed

text \<open>The labels the parser sees, and the whole parser over them.\<close>

definition labels_of :: "string \<Rightarrow> string list" where
  "labels_of inp = split_on (CHR ''.'') (to_ascii_lowercase (trim inp))"

lemma Name_parse_labels:
  "Name_parse inp = (let ls = labels_of inp in
     if last ls \<noteq> SUFFIX then Err (BadSuffix SUFFIX)
     else (case butlast ls of
         [k] \<Rightarrow> tryq (validate_keyid k) (\<lambda>k. Ok \<lparr>name_vanity = [], name_keyid = k\<rparr>)
       | [v, k] \<Rightarrow> tryq (validate_vanity v) (\<lambda>_. tryq (validate_keyid k) (\<lambda>k.
           Ok \<lparr>name_vanity = v, name_keyid = k\<rparr>))
       | [] \<Rightarrow> Err EmptyLabel
       | _ \<Rightarrow> Err TooManyLabels))"
  by (simp add: Name_parse_def labels_of_def split_last_def Let_def)

lemma Name_parse_labels_Ok_iff:
  "Name_parse inp = Ok n \<longleftrightarrow> name_wf n \<and>
     (labels_of inp = [name_vanity n, name_keyid n, SUFFIX] \<or>
      name_vanity n = [] \<and> labels_of inp = [name_keyid n, SUFFIX])"
proof -
  have ne: "labels_of inp \<noteq> []" by (simp add: labels_of_def)
  then have snoc: "labels_of inp = butlast (labels_of inp) @ [last (labels_of inp)]" by simp
  show ?thesis
    by (cases n, subst (1 2) snoc)
      (auto simp: Name_parse_labels Let_def tryq_eq_Ok_iff validate_Ok_iffs name_wf_def
        vanity_wf_def split: list.splits)
qed

text \<open>C25. The strings \<open>Name::parse\<close> accepts, exactly: up to ASCII case and surrounding
  white space, the printed form of a well-formed name (a key identifier of 16 to 52 charset
  characters and at most 8 of vanity), or that of a name with no vanity behind one dot.\<close>

theorem Name_parse_exact:
  "Name_parse inp = Ok n \<longleftrightarrow> name_wf n \<and>
     (to_ascii_lowercase (trim inp) = Name_to_string n \<or>
      name_vanity n = [] \<and> to_ascii_lowercase (trim inp) = ''.'' @ Name_to_string n)"
proof (cases "name_wf n")
  case True
  let ?u = "to_ascii_lowercase (trim inp)"
  note l = Name_to_string_labels [OF True]
  have "labels_of inp = split_on (CHR ''.'') t \<longleftrightarrow> ?u = t" for t
    by (simp add: labels_of_def)
  from this [of "Name_to_string n"] this [of "''.'' @ Name_to_string n"] l True show ?thesis
    by (cases "name_vanity n = []") (auto simp: Name_parse_labels_Ok_iff)
qed (simp add: Name_parse_labels_Ok_iff)

lemma graphic_of_lower: "graphic (ascii_lower c) \<Longrightarrow> graphic c"
  by (auto simp: graphic_def ascii_lower_def split: if_splits)

lemma Name_parse_normal:
  assumes "name_wf n" and "to_ascii_lowercase (trim inp) = Name_to_string n"
  shows "Name_parse inp = Ok n"
  using assms Name_to_string_labels [OF assms(1)]
  by (auto simp: Name_parse_labels_Ok_iff labels_of_def split: if_splits)

interpretation name_text: text_form name_wf Name_to_string Name_parse
proof
  show "Name_parse (Name_to_string n) = Ok n" if "name_wf n" for n
    using that Name_to_string_normal [OF that] by (simp add: Name_parse_normal trim_graphic)
  show "name_wf n" if "Name_parse s = Ok n" for s n
    using that by (simp add: Name_parse_labels_Ok_iff)
qed

text \<open>C27. Whatever the case and the surrounding white space in which a well-formed name is
  typed, parsing it gives the name.\<close>

theorem Name_parse_typed:
  assumes "name_wf n"
    and "to_ascii_lowercase s = Name_to_string n"
    and "set us \<subseteq> set white_space" and "set vs \<subseteq> set white_space"
  shows "Name_parse (concat us @ s @ concat vs) = Ok n"
proof (rule Name_parse_normal [OF assms(1)])
  have "s \<noteq> []" and "graphic (hd s)" and "graphic (last s)"
    using Name_to_string_normal(2,3,4) [OF assms(1)] assms(2) [symmetric] graphic_of_lower
    by (auto simp: to_ascii_lowercase_def hd_map last_map)
  then show "to_ascii_lowercase (trim (concat us @ s @ concat vs)) = Name_to_string n"
    using assms(2-4) by (simp add: trim_padding)
qed

theorem Name_parse_typed_witness:
  "Name_parse ''  Survival.ABCDEFGH2345abcd.Minecraft '' =
     Ok \<lparr>name_vanity = ''survival'', name_keyid = ''abcdefgh2345abcd''\<rparr>"
proof -
  let ?n = "\<lparr>name_vanity = ''survival'', name_keyid = ''abcdefgh2345abcd''\<rparr>"
  have "name_wf ?n"
    by (simp add: name_wf_def vanity_wf_def keyid_wf_def is_base32_lower_def)
  moreover have "to_ascii_lowercase ''Survival.ABCDEFGH2345abcd.Minecraft'' = Name_to_string ?n"
    by code_simp
  moreover have "set ['' '', '' ''] \<subseteq> set white_space" and "set ['' ''] \<subseteq> set white_space"
    by code_simp+
  ultimately show ?thesis
    using Name_parse_typed [of ?n "''Survival.ABCDEFGH2345abcd.Minecraft''" "['' '', '' '']" "['' '']"]
    by simp
qed

text \<open>Which error an unacceptable address gets: the labels, after trimming and
  lower-casing, are checked from the right and then from the left, in the code's order.\<close>

lemma Name_parse_errors:
  "(Name_parse s = Err (BadSuffix SUFFIX) \<longleftrightarrow> last (labels_of s) \<noteq> SUFFIX) \<and>
   (Name_parse s = Err TooManyLabels \<longleftrightarrow>
      last (labels_of s) = SUFFIX \<and> length (labels_of s) > 3) \<and>
   (Name_parse s = Err VanityCharset \<longleftrightarrow>
      (\<exists>v k. labels_of s = [v, k, SUFFIX] \<and> length v \<le> 8 \<and> \<not> list_all is_base32_lower v)) \<and>
   (Name_parse s = Err KeyidCharset \<longleftrightarrow>
      (\<exists>vs k. labels_of s = vs @ [k, SUFFIX] \<and> (vs = [] \<or> (\<exists>v. vs = [v] \<and> vanity_wf v)) \<and>
         16 \<le> length k \<and> length k \<le> 52 \<and> \<not> list_all is_base32_lower k))"
proof -
  have snoc: "labels_of s = butlast (labels_of s) @ [last (labels_of s)]"
    by (simp add: labels_of_def)
  obtain ls l where ls: "labels_of s = ls @ [l]" using snoc by blast
  consider "ls = []" | k where "ls = [k]" | v k where "ls = [v, k]"
    | a b c r where "ls = a # b # c # r"
    by (metis list.exhaust)
  then show ?thesis
    by cases (auto simp: Name_parse_labels ls tryq_eq_Err_iff validate_defs vanity_wf_def
        append_eq_Cons_conv)
qed

text \<open>C28. A name derived from a public key: derivation succeeds exactly for key-identifier
  lengths 16 to 52 and a valid vanity label; its result is well formed, commits to that public
  key, survives printing and parsing, and prints to at most 71 characters.\<close>

theorem Name_from_pubkey_correct:
  assumes "sha256_law X" and "base32_law X"
  shows "((\<exists>nm. Name_from_pubkey X pk v n = Ok nm) \<longleftrightarrow> 16 \<le> n \<and> n \<le> 52 \<and> vanity_wf v) \<and>
    (\<forall>nm. Name_from_pubkey X pk v n = Ok nm \<longrightarrow>
       name_wf nm \<and> Name_keyid_len nm = n \<and> name_vanity nm = v \<and>
       keyid_matches_pubkey X (name_keyid nm) pk \<and>
       Name_parse (Name_to_string nm) = Ok nm \<and> length (Name_to_string nm) \<le> 71)"
proof (intro conjI allI impI)
  show "(\<exists>nm. Name_from_pubkey X pk v n = Ok nm) \<longleftrightarrow> 16 \<le> n \<and> n \<le> 52 \<and> vanity_wf v"
    by (auto simp: Name_from_pubkey_def tryq_eq_Ok_iff validate_Ok_iffs)
next
  fix nm assume ok: "Name_from_pubkey X pk v n = Ok nm"
  then have n: "16 \<le> n" "n \<le> 52" "vanity_wf v"
    and nm: "nm = \<lparr>name_vanity = v, name_keyid = keyid_from_pubkey X pk n\<rparr>"
    by (auto simp: Name_from_pubkey_def tryq_eq_Ok_iff validate_Ok_iffs)
  note k = keyid_from_pubkey_wf [OF assms n(1,2), of pk]
  show wf: "name_wf nm" and "Name_keyid_len nm = n" and "name_vanity nm = v"
    using n k by (simp_all add: nm name_wf_def Name_keyid_len_def)
  show "keyid_matches_pubkey X (name_keyid nm) pk"
    using k by (simp add: nm keyid_matches_pubkey_def)
  show "Name_parse (Name_to_string nm) = Ok nm"
    using wf by (rule name_text.parse_print)
  show "length (Name_to_string nm) \<le> 71"
    using n k by (simp add: nm Name_to_string_def SUFFIX_def vanity_wf_def)
qed

theorem Name_from_pubkey_correct_witness:
  "\<exists>nm. Name_from_pubkey demo_crypto (replicate 32 7) ''survivor'' 52 = Ok nm \<and>
     Name_parse (Name_to_string nm) = Ok nm \<and> length (Name_to_string nm) \<le> 71"
proof -
  have v: "vanity_wf ''survivor''"
    by (simp add: vanity_wf_def is_base32_lower_def)
  show ?thesis
    using Name_from_pubkey_correct [OF demo_sha256_law demo_base32_law,
        of "replicate 32 7" "''survivor''" 52] v
    by auto
qed

end
