(* ===== verification/Core_Identity.thy ===== *)
theory Core_Identity
  imports Core_Name
begin

text \<open>
  \<^verbatim>\<open>crates/core/src/identity.rs\<close>: the local key pair. The \<^verbatim>\<open>SigningKey\<close> is the 32 secret bytes
  it is made from; \<^verbatim>\<open>generate\<close> takes the bytes the operating system's generator returns.
  Scrubbing memory on drop (\<^verbatim>\<open>zeroize\<close>) has no effect on values and is not modelled.
\<close>

record identity =
  signing :: bytes

definition Identity_generate :: "bytes \<Rightarrow> identity" where
  "Identity_generate os_rng = \<lparr>signing = os_rng\<rparr>"

definition from_secret_bytes :: "bytes \<Rightarrow> identity" where
  "from_secret_bytes bs = \<lparr>signing = bs\<rparr>"

definition public_bytes :: "'a crypto_scheme \<Rightarrow> identity \<Rightarrow> bytes" where
  "public_bytes X self = ed_public X (signing self)"

definition signing_key :: "identity \<Rightarrow> bytes" where
  "signing_key self = signing self"

definition secret_bytes :: "identity \<Rightarrow> bytes" where
  "secret_bytes self = signing self"

definition Identity_name ::
  "'a crypto_scheme \<Rightarrow> identity \<Rightarrow> string \<Rightarrow> nat \<Rightarrow> (core_error, name) result" where
  "Identity_name X self vanity keyid_len =
     Name_from_pubkey X (public_bytes X self) vanity keyid_len"

lemma secret_bytes_roundtrip [simp]:
  "from_secret_bytes (secret_bytes i) = i"
  "secret_bytes (from_secret_bytes s) = s"
  by (simp_all add: from_secret_bytes_def secret_bytes_def)

end
