(* ===== verification/Core_Record.thy ===== *)
theory Core_Record
  imports Core_Identity
begin

text \<open>
  \<^verbatim>\<open>crates/core/src/record.rs\<close> and \<^verbatim>\<open>VerifyError\<close> of \<^verbatim>\<open>crates/core/src/error.rs\<close>: the signed
  location records, their verification, the storage check of a DHT node and the choice among
  the candidates a lookup returns. Serialisation is \<^verbatim>\<open>ciborium\<close>'s, a parameter: \<open>cbor_body\<close> and
  \<open>cbor_record\<close> are \<^verbatim>\<open>into_writer\<close> on the two structs, \<open>cbor_parse\<close> is \<^verbatim>\<open>from_reader\<close> with its
  error as text.
\<close>

section \<open>Data\<close>

datatype verify_error =
    TooLarge nat
  | Malformed string
  | UnsupportedVersion u8
  | BadSignature
  | KeyidMismatch
  | StaleTimestamp u64 u64 u64 \<comment> \<open>ts, now, skew\<close>

definition MAX_RECORD_BYTES :: nat where
  "MAX_RECORD_BYTES = 8 * 1024"

record record_body =
  body_v :: u8
  body_pubkey :: bytes
  body_peer_id :: string
  body_addrs :: "string list"
  body_vanity :: string
  body_ts :: u64
  body_ttl :: u32

record signed_record =
  rec_body :: record_body
  rec_sig :: bytes

record externs = crypto +
  cbor_body :: "record_body \<Rightarrow> bytes"
  cbor_record :: "signed_record \<Rightarrow> bytes"
  cbor_parse :: "bytes \<Rightarrow> (string, signed_record) result"

section \<open>Operations\<close>

definition canonical_bytes :: "'a externs_scheme \<Rightarrow> record_body \<Rightarrow> bytes" where
  "canonical_bytes X body = cbor_body X body"

definition Record_sign ::
  "'a externs_scheme \<Rightarrow> record_body \<Rightarrow> bytes \<Rightarrow> signed_record" where
  "Record_sign X body sk =
     (let sig = ed_sign X sk (canonical_bytes X body) in \<lparr>rec_body = body, rec_sig = sig\<rparr>)"

definition Record_to_bytes :: "'a externs_scheme \<Rightarrow> signed_record \<Rightarrow> bytes" where
  "Record_to_bytes X r = cbor_record X r"

definition Record_from_bytes ::
  "'a externs_scheme \<Rightarrow> bytes \<Rightarrow> (verify_error, signed_record) result" where
  "Record_from_bytes X bs =
     (if length bs > MAX_RECORD_BYTES then Err (TooLarge MAX_RECORD_BYTES)
      else map_err Malformed (cbor_parse X bs))"

definition Record_verify ::
  "'a externs_scheme \<Rightarrow> signed_record \<Rightarrow> string \<Rightarrow> u64 \<Rightarrow> u64 \<Rightarrow> (verify_error, unit) result" where
  "Record_verify X self expected_keyid now max_skew =
     (let body = rec_body self in
      if body_v body \<noteq> RECORD_VERSION then Err (UnsupportedVersion (body_v body))
      else if \<not> ed_vk_ok X (body_pubkey body) then Err BadSignature
      else if \<not> ed_verify X (body_pubkey body) (canonical_bytes X body) (rec_sig self)
        then Err BadSignature
      else if \<not> keyid_matches_pubkey X expected_keyid (body_pubkey body) then Err KeyidMismatch
      else
        let skew = abs_diff now (body_ts body) in
        if skew > max_skew then Err (StaleTimestamp (body_ts body) now max_skew)
        else Ok ())"

definition signature_valid :: "'a externs_scheme \<Rightarrow> signed_record \<Rightarrow> bool" where
  "signature_valid X self =
     (let body = rec_body self in
      if body_v body \<noteq> RECORD_VERSION then False
      else if \<not> ed_vk_ok X (body_pubkey body) then False
      else ed_verify X (body_pubkey body) (canonical_bytes X body) (rec_sig self))"

definition dht_key :: "'a crypto_scheme \<Rightarrow> string \<Rightarrow> bytes" where
  "dht_key X keyid = sha256 X (as_bytes DHT_KEY_PREFIX @ as_bytes keyid)"

definition authorizes_storage_key ::
  "'a externs_scheme \<Rightarrow> signed_record \<Rightarrow> bytes \<Rightarrow> bool" where
  "authorizes_storage_key X r storage_key =
     (if \<not> signature_valid X r then False
      else
        let full = keyid_full_from_pubkey X (body_pubkey (rec_body r)) in
        list_ex (\<lambda>l. dht_key X (take l full) = storage_key) [1..<length full + 1])"

text \<open>\<^verbatim>\<open>Iterator::max_by_key\<close>: of several elements with the greatest key, the last.\<close>

definition keep_max :: "('a \<Rightarrow> 'k::linorder) \<Rightarrow> 'a option \<Rightarrow> 'a \<Rightarrow> 'a option" where
  "keep_max key acc x =
     (case acc of None \<Rightarrow> Some x | Some y \<Rightarrow> if key y \<le> key x then Some x else Some y)"

definition max_by_key :: "('a \<Rightarrow> 'k::linorder) \<Rightarrow> 'a list \<Rightarrow> 'a option" where
  "max_by_key key xs = foldl (keep_max key) None xs"

definition select_verified ::
  "'a externs_scheme \<Rightarrow> bytes list \<Rightarrow> string \<Rightarrow> u64 \<Rightarrow> u64 \<Rightarrow> signed_record option" where
  "select_verified X candidates expected_keyid now max_skew =
     max_by_key (\<lambda>r. body_ts (rec_body r))
       (List.map_filter (\<lambda>bs.
          case ok_opt (Record_from_bytes X bs) of
            None \<Rightarrow> None
          | Some r \<Rightarrow>
              (case ok_opt (Record_verify X r expected_keyid now max_skew) of
                 None \<Rightarrow> None
               | Some _ \<Rightarrow> Some r)) candidates)"

section \<open>Choosing the newest\<close>

lemma max_by_key_snoc:
  "max_by_key key (xs @ [x]) = Some (case max_by_key key xs of None \<Rightarrow> x
     | Some y \<Rightarrow> if key y \<le> key x then x else y)"
  by (simp add: max_by_key_def keep_max_def split: option.split)

lemma max_by_key_Nil [simp]: "max_by_key key [] = None"
  by (simp add: max_by_key_def)

interpretation newest: newest_register "\<lambda>s x s'. s' = keep_max key s x" "\<lambda>x. Some (key x)" "map_option key"
  for key :: "'a \<Rightarrow> 'k::linorder"
  by unfold_locales (auto simp: keep_max_def max_def split: option.split)

lemma max_by_key_run: "max_by_key key xs = run (keep_max key) None xs"
  by (simp add: max_by_key_def run_def foldl_conv_fold)

lemma max_by_key_None_iff [simp]: "max_by_key key xs = None \<longleftrightarrow> xs = []"
  by (cases xs rule: rev_cases) (simp_all add: max_by_key_snoc)

lemma max_by_key_Some_iff:
  "max_by_key key xs = Some x \<longleftrightarrow>
     (\<exists>us vs. xs = us @ x # vs \<and> (\<forall>y \<in> set us. key y \<le> key x) \<and> (\<forall>y \<in> set vs. key y < key x))"
  (is "?L xs x \<longleftrightarrow> ?R xs x")
proof -
  have LR: "?L xs x \<Longrightarrow> ?R xs x" for xs x
  proof (induction xs arbitrary: x rule: rev_induct)
    case (snoc z zs)
    show ?case
    proof (cases "max_by_key key zs")
      case None
      with snoc.prems show ?thesis
        by (intro exI [of _ "[]"]) (simp add: max_by_key_snoc)
    next
      case (Some y)
      then obtain us vs where zs: "zs = us @ y # vs" "\<forall>w \<in> set us. key w \<le> key y"
        "\<forall>w \<in> set vs. key w < key y"
        using snoc.IH by blast
      show ?thesis
      proof (cases "key y \<le> key z")
        case True
        with snoc.prems Some have "x = z" by (simp add: max_by_key_snoc)
        moreover have "\<forall>w \<in> set zs. key w \<le> key z" using zs True by force
        ultimately show ?thesis
          by (intro exI [of _ zs] exI [of _ "[]"]) auto
      next
        case False
        with snoc.prems Some have "x = y" by (simp add: max_by_key_snoc)
        with zs False show ?thesis
          by (intro exI [of _ us] exI [of _ "vs @ [z]"]) auto
      qed
    qed
  qed simp
  have uniq: "us @ x # vs = us' @ x' # vs' \<Longrightarrow> x = x'"
    if "\<forall>y \<in> set us. key y \<le> key x" "\<forall>y \<in> set vs. key y < key x"
      "\<forall>y \<in> set us'. key y \<le> key x'" "\<forall>y \<in> set vs'. key y < key x'" for us vs us' vs' x x'
    using that by (fastforce simp: append_eq_append_conv2 append_eq_Cons_conv Cons_eq_append_conv)
  show ?thesis
  proof
    assume R: "?R xs x"
    then obtain x' where x': "?L xs x'" by (cases "max_by_key key xs") auto
    from LR [OF x'] R uniq have "x = x'" by blast
    with x' show "?L xs x" by simp
  qed (rule LR)
qed

section \<open>A concrete codec\<close>

text \<open>
  The documented law of \<^verbatim>\<open>ciborium\<close> the crate relies on, that a serialised record
  deserialises to itself, for one record. A concrete self-delimiting codec satisfies it for
  every record; together with \<^const>\<open>demo_crypto\<close> it is the instance the model is evaluated
  with.
\<close>

definition cbor_roundtrip :: "'a externs_scheme \<Rightarrow> signed_record \<Rightarrow> bool" where
  "cbor_roundtrip X r \<longleftrightarrow> cbor_parse X (cbor_record X r) = Ok r"

definition enc_fields :: "bytes list \<Rightarrow> bytes" where
  "enc_fields fs = concat (map (\<lambda>f. concat (map (\<lambda>b. [1, b]) f) @ [0]) fs) @ [2]"

fun dec_fields :: "bytes \<Rightarrow> bytes \<Rightarrow> bytes list option" where
  "dec_fields cur [] = None"
| "dec_fields cur [t] = (if t = 2 then Some [] else None)"
| "dec_fields cur (t # b # r) =
     (if t = 2 then None
      else if t = 0 then map_option ((#) cur) (dec_fields [] (b # r))
      else dec_fields (cur @ [b]) r)"

definition bytes_of_word :: "'a::len word \<Rightarrow> bytes" where
  "bytes_of_word w = map (\<lambda>i. of_bool (bit w i)) [0..<LENGTH('a)]"

definition word_of_bytes :: "bytes \<Rightarrow> 'a::len word" where
  "word_of_bytes bs = horner_sum of_bool 2 (map (\<lambda>b. b = 1) bs)"

definition string_of_bytes :: "bytes \<Rightarrow> string" where
  "string_of_bytes bs = map (\<lambda>b. char_of (unat b)) bs"

definition body_fields :: "record_body \<Rightarrow> bytes list" where
  "body_fields b =
     [bytes_of_word (body_v b), body_pubkey b, as_bytes (body_peer_id b), as_bytes (body_vanity b),
      bytes_of_word (body_ts b), bytes_of_word (body_ttl b)] @ map as_bytes (body_addrs b)"

fun body_of_fields :: "bytes list \<Rightarrow> record_body option" where
  "body_of_fields (v # pk # pid # van # ts # ttl # addrs) =
     Some \<lparr>body_v = word_of_bytes v, body_pubkey = pk, body_peer_id = string_of_bytes pid,
       body_addrs = map string_of_bytes addrs, body_vanity = string_of_bytes van,
       body_ts = word_of_bytes ts, body_ttl = word_of_bytes ttl\<rparr>"
| "body_of_fields _ = None"

definition demo_parse :: "bytes \<Rightarrow> (string, signed_record) result" where
  "demo_parse bs =
     (case dec_fields [] bs of
        Some (sig # fs) \<Rightarrow>
          (case body_of_fields fs of
             Some b \<Rightarrow> Ok \<lparr>rec_body = b, rec_sig = sig\<rparr>
           | None \<Rightarrow> Err ''missing field'')
      | _ \<Rightarrow> Err ''malformed'')"

definition demo_externs :: externs where
  "demo_externs = crypto.extend demo_crypto (externs.fields
     (\<lambda>b. enc_fields (body_fields b))
     (\<lambda>r. enc_fields (rec_sig r # body_fields (rec_body r)))
     demo_parse)"

lemma dec_fields_byte_run:
  "dec_fields cur (concat (map (\<lambda>b. [1, b]) f) @ 0 # x # r) =
     map_option ((#) (cur @ f)) (dec_fields [] (x # r))"
  by (induction f arbitrary: cur) auto

lemma dec_enc_fields: "dec_fields [] (enc_fields fs) = Some fs"
proof (induction fs)
  case (Cons f fs)
  obtain x r where "enc_fields fs = x # r"
    by (cases "enc_fields fs") (auto simp: enc_fields_def)
  moreover have "enc_fields (f # fs) = concat (map (\<lambda>b. [1, b]) f) @ 0 # enc_fields fs"
    by (simp add: enc_fields_def)
  ultimately show ?case using Cons by (simp add: dec_fields_byte_run)
qed (simp add: enc_fields_def)

lemma word_of_bytes_of_word [simp]: "word_of_bytes (bytes_of_word w) = w"
  by (simp add: word_of_bytes_def bytes_of_word_def comp_def of_bool_def
      horner_sum_bit_eq_take_bit)

lemma string_of_as_bytes [simp]: "string_of_bytes (as_bytes s) = s"
  by (induction s) (simp_all add: string_of_bytes_def as_bytes_def unat_of_char)

lemma body_of_body_fields [simp]: "body_of_fields (body_fields b) = Some b"
  by (simp add: body_fields_def comp_def)

lemma demo_cbor_roundtrip: "cbor_roundtrip demo_externs r"
  by (simp add: cbor_roundtrip_def demo_externs_def demo_parse_def dec_enc_fields
      crypto.defs externs.defs)

text \<open>A record signed in that instance, and the key identifier it belongs to.\<close>

definition demo_body :: record_body where
  "demo_body = \<lparr>body_v = 1, body_pubkey = replicate 32 7, body_peer_id = ''12D3'',
     body_addrs = [''/ip4/127.0.0.1/tcp/4001''], body_vanity = ''survival'',
     body_ts = 1900000000, body_ttl = 600\<rparr>"

definition demo_record :: "u64 \<Rightarrow> signed_record" where
  "demo_record t = Record_sign demo_externs (demo_body\<lparr>body_ts := t\<rparr>) (replicate 32 7)"

definition demo_keyid :: string where
  "demo_keyid = keyid_from_pubkey demo_externs (replicate 32 7) 26"

lemma length_enc_fields:
  "length (enc_fields fs) = 2 * sum_list (map length fs) + length fs + 1"
proof -
  have "length (concat (map (\<lambda>b :: u8. [1, b]) f)) = 2 * length f" for f
    by (induction f) auto
  then have "length (concat (map (\<lambda>f. concat (map (\<lambda>b :: u8. [1, b]) f) @ [0]) fs)) =
      2 * sum_list (map length fs) + length fs"
    by (induction fs) auto
  then show ?thesis by (simp add: enc_fields_def)
qed

lemma demo_externs_simps [simp]:
  "cbor_record demo_externs r = enc_fields (rec_sig r # body_fields (rec_body r))"
  "cbor_body demo_externs b = enc_fields (body_fields b)"
  "ed_sign demo_externs = ed_sign demo_crypto"
  "ed_verify demo_externs = ed_verify demo_crypto"
  "ed_vk_ok demo_externs = ed_vk_ok demo_crypto"
  "ed_public demo_externs = ed_public demo_crypto"
  "sha256 demo_externs = sha256 demo_crypto"
  "base32_nopad demo_externs = base32_nopad demo_crypto"
  by (simp_all add: demo_externs_def demo_crypto_def crypto.defs externs.defs)

lemma demo_externs_laws:
  "sha256_law demo_externs" "base32_law demo_externs" "ed25519_law demo_externs"
  using demo_sha256_law demo_base32_law demo_ed25519_law
  by (simp_all add: sha256_law_def base32_law_def ed25519_law_def)

lemma demo_record_length:
  "length (Record_to_bytes demo_externs (demo_record t)) \<le> MAX_RECORD_BYTES"
  by (simp add: Record_to_bytes_def length_enc_fields demo_record_def demo_body_def Record_sign_def
      body_fields_def bytes_of_word_def as_bytes_def demo_crypto_def MAX_RECORD_BYTES_def)

lemma demo_record_wire:
  "Record_from_bytes demo_externs (Record_to_bytes demo_externs (demo_record t)) =
     Ok (demo_record t)"
  using demo_record_length [of t] demo_cbor_roundtrip [of "demo_record t"]
  by (simp add: Record_from_bytes_def Record_to_bytes_def cbor_roundtrip_def)

lemma demo_record_ts [simp]: "body_ts (rec_body (demo_record t)) = t"
  by (simp add: demo_record_def Record_sign_def)

lemma demo_record_pubkey [simp]: "body_pubkey (rec_body (demo_record t)) = replicate 32 7"
  by (simp add: demo_record_def Record_sign_def demo_body_def)

lemma demo_junk: "Record_from_bytes demo_externs [0xde, 0xad] = Err (Malformed ''malformed'')"
  by (simp add: Record_from_bytes_def MAX_RECORD_BYTES_def demo_externs_def demo_parse_def
      crypto.defs externs.defs)

section \<open>Verification\<close>

lemma Record_verify_Ok_iff:
  "Record_verify X r kid now skew = Ok u \<longleftrightarrow>
     signature_valid X r \<and> prefix kid (keyid_full_from_pubkey X (body_pubkey (rec_body r))) \<and>
     abs_diff now (body_ts (rec_body r)) \<le> skew"
  by (auto simp: Record_verify_def signature_valid_def Let_def keyid_matches_pubkey_prefix not_le)

lemma signature_valid_sign:
  assumes "ed25519_law X" and "body_v b = RECORD_VERSION" and "body_pubkey b = ed_public X sk"
  shows "signature_valid X (Record_sign X b sk)"
  using assms by (simp add: signature_valid_def Record_sign_def ed25519_law_def)

text \<open>C24. A record verifies exactly when it has the current version, a valid public key, a
  signature by that key over its canonical bytes, a public key whose hash starts with the
  expected key identifier, and a timestamp at most the allowed skew away, in either
  direction and with no wrap-around.\<close>

theorem Record_verify_exact:
  "Record_verify X r kid now skew = Ok () \<longleftrightarrow>
     body_v (rec_body r) = 1 \<and>
     ed_vk_ok X (body_pubkey (rec_body r)) \<and>
     ed_verify X (body_pubkey (rec_body r)) (cbor_body X (rec_body r)) (rec_sig r) \<and>
     prefix kid (keyid_full_from_pubkey X (body_pubkey (rec_body r))) \<and>
     \<bar>uint now - uint (body_ts (rec_body r))\<bar> \<le> uint skew"
  by (auto simp: Record_verify_Ok_iff signature_valid_def RECORD_VERSION_def canonical_bytes_def
      Let_def word_le_def uint_abs_diff split: if_splits)

text \<open>The size cap is enforced before the deserializer sees a byte, and a record that
  fits the cap survives the wire.\<close>

lemma Record_from_bytes_cap:
  "(MAX_RECORD_BYTES < length bs \<longrightarrow>
      (\<forall>X :: 'a externs_scheme. Record_from_bytes X bs = Err (TooLarge 8192))) \<and>
   (length (Record_to_bytes Y r) \<le> MAX_RECORD_BYTES \<and> cbor_roundtrip Y r \<longrightarrow>
      Record_from_bytes Y (Record_to_bytes Y r) = Ok r)"
  by (simp add: Record_from_bytes_def Record_to_bytes_def cbor_roundtrip_def MAX_RECORD_BYTES_def)

section \<open>Resolution\<close>

text \<open>The record a candidate's bytes yield, when they parse and the record verifies.\<close>

definition accepts ::
  "'a externs_scheme \<Rightarrow> string \<Rightarrow> u64 \<Rightarrow> u64 \<Rightarrow> bytes \<Rightarrow> signed_record \<Rightarrow> bool" where
  "accepts X kid now skew bs r \<longleftrightarrow>
     Record_from_bytes X bs = Ok r \<and> Record_verify X r kid now skew = Ok ()"

abbreviation rec_ts :: "signed_record \<Rightarrow> u64" where
  "rec_ts r \<equiv> body_ts (rec_body r)"

definition candidate ::
  "'a externs_scheme \<Rightarrow> string \<Rightarrow> u64 \<Rightarrow> u64 \<Rightarrow> bytes \<Rightarrow> signed_record option" where
  "candidate X kid now skew bs =
     (case Record_from_bytes X bs of
        Ok r \<Rightarrow> if Record_verify X r kid now skew = Ok () then Some r else None
      | Err e \<Rightarrow> None)"

lemma candidate_Some_iff: "candidate X kid now skew bs = Some r \<longleftrightarrow> accepts X kid now skew bs r"
  by (auto simp: candidate_def accepts_def split: sum.splits if_splits)

lemma select_verified_candidate:
  "select_verified X cs kid now skew =
     max_by_key rec_ts (List.map_filter (candidate X kid now skew) cs)"
proof -
  have "(case ok_opt (Record_from_bytes X bs) of None \<Rightarrow> None
      | Some r \<Rightarrow> (case ok_opt (Record_verify X r kid now skew) of None \<Rightarrow> None | Some _ \<Rightarrow> Some r)) =
      candidate X kid now skew bs" for bs
    by (auto simp: candidate_def split: sum.splits option.splits)
  then show ?thesis by (simp add: select_verified_def)
qed

lemma map_filter_eq_append_Cons:
  "List.map_filter f xs = us @ y # vs \<longleftrightarrow>
     (\<exists>as a bs. xs = as @ a # bs \<and> List.map_filter f as = us \<and> f a = Some y \<and>
        List.map_filter f bs = vs)"
proof
  show "\<exists>as a bs. xs = as @ a # bs \<and> List.map_filter f as = us \<and> f a = Some y \<and>
      List.map_filter f bs = vs" if "List.map_filter f xs = us @ y # vs"
    using that
  proof (induction xs arbitrary: us)
    case (Cons x xs)
    show ?case
    proof (cases "f x")
      case None
      with Cons obtain as a bs where "xs = as @ a # bs" "List.map_filter f as = us"
        "f a = Some y" "List.map_filter f bs = vs"
        by (auto simp: List.map_filter_simps)
      with None show ?thesis
        by (intro exI [of _ "x # as"]) (auto simp: List.map_filter_simps)
    next
      case (Some z)
      show ?thesis
      proof (cases us)
        case Nil
        with Some Cons.prems show ?thesis
          by (intro exI [of _ "[]"]) (auto simp: List.map_filter_simps)
      next
        case (Cons u us')
        with Some Cons.prems Cons.IH [of us'] obtain as a bs where "xs = as @ a # bs"
          "List.map_filter f as = us'" "f a = Some y" "List.map_filter f bs = vs" "z = u"
          by (auto simp: List.map_filter_simps)
        with Some \<open>us = u # us'\<close> show ?thesis
          by (intro exI [of _ "x # as"]) (auto simp: List.map_filter_simps)
      qed
    qed
  qed (simp add: List.map_filter_simps)
qed (auto simp: List.map_filter_def)

lemma set_map_filter_candidate:
  "r \<in> set (List.map_filter (candidate X kid now skew) cs) \<longleftrightarrow>
     (\<exists>bs \<in> set cs. accepts X kid now skew bs r)"
  by (force simp: List.map_filter_def candidate_Some_iff [symmetric])

lemma demo_record_valid: "signature_valid demo_externs (demo_record t)"
  unfolding demo_record_def
  by (rule signature_valid_sign [OF demo_externs_laws(3)])
    (simp_all add: demo_body_def RECORD_VERSION_def demo_crypto_def)

lemma demo_keyid_prefix: "prefix demo_keyid (keyid_full_from_pubkey demo_externs (replicate 32 7))"
  by (simp add: demo_keyid_def keyid_from_pubkey_def take_is_prefix)

lemma demo_record_accepts:
  "abs_diff now t \<le> skew \<Longrightarrow>
     accepts demo_externs demo_keyid now skew (Record_to_bytes demo_externs (demo_record t))
       (demo_record t)"
  by (simp add: accepts_def demo_record_wire Record_verify_Ok_iff demo_record_valid
      demo_keyid_prefix)

text \<open>The chosen record is one a candidate yields, and no candidate yields a newer one.\<close>

lemma select_verified_SomeD:
  assumes "select_verified X cs kid now skew = Some r"
  shows "\<exists>bs \<in> set cs. accepts X kid now skew bs r"
    and "\<And>bs r'. bs \<in> set cs \<Longrightarrow> accepts X kid now skew bs r' \<Longrightarrow> rec_ts r' \<le> rec_ts r"
proof -
  let ?rs = "List.map_filter (candidate X kid now skew) cs"
  from assms obtain us vs where rs: "?rs = us @ r # vs" "\<forall>y \<in> set us. rec_ts y \<le> rec_ts r"
    "\<forall>y \<in> set vs. rec_ts y < rec_ts r"
    by (auto simp: select_verified_candidate max_by_key_Some_iff)
  then have "\<forall>y \<in> set ?rs. rec_ts y \<le> rec_ts r" and "r \<in> set ?rs"
    by auto
  then show "\<exists>bs \<in> set cs. accepts X kid now skew bs r"
    and "\<And>bs r'. bs \<in> set cs \<Longrightarrow> accepts X kid now skew bs r' \<Longrightarrow> rec_ts r' \<le> rec_ts r"
    using set_map_filter_candidate [of _ X kid now skew cs] by blast+
qed

lemma select_verified_None_iff:
  "select_verified X cs kid now skew = None \<longleftrightarrow>
     (\<forall>bs \<in> set cs. \<forall>r. \<not> accepts X kid now skew bs r)"
proof -
  have "select_verified X cs kid now skew = None \<longleftrightarrow>
      (\<forall>r. r \<notin> set (List.map_filter (candidate X kid now skew) cs))"
    by (simp add: select_verified_candidate flip: set_empty)
  then show ?thesis
    by (auto simp: set_map_filter_candidate)
qed

lemma select_verified_Some_iff:
  "select_verified X cs kid now skew = Some r \<longleftrightarrow>
     (\<exists>as a bs. cs = as @ a # bs \<and> accepts X kid now skew a r \<and>
        (\<forall>c \<in> set as. \<forall>r'. accepts X kid now skew c r' \<longrightarrow> rec_ts r' \<le> rec_ts r) \<and>
        (\<forall>c \<in> set bs. \<forall>r'. accepts X kid now skew c r' \<longrightarrow> rec_ts r' < rec_ts r))"
proof -
  have ball: "(\<forall>y \<in> set (List.map_filter (candidate X kid now skew) xs). P y) \<longleftrightarrow>
      (\<forall>c \<in> set xs. \<forall>r'. accepts X kid now skew c r' \<longrightarrow> P r')" for P xs
    using set_map_filter_candidate [of _ X kid now skew xs] by blast
  show ?thesis
    unfolding select_verified_candidate max_by_key_Some_iff map_filter_eq_append_Cons
    by (simp only: ball [symmetric] candidate_Some_iff) blast
qed

text \<open>Clients that get the same candidates in another order, or some of them several times, agree on the age of what
  they select (the record itself may differ where two have the same age).\<close>

lemma select_verified_order:
  assumes "set cs = set cs'"
  shows "map_option rec_ts (select_verified X cs kid now skew) = map_option rec_ts (select_verified X cs' kid now skew)"
proof -
  let ?f = "List.map_filter (candidate X kid now skew)"
  have "set (?f cs) = set (?f cs')" using assms set_map_filter_candidate by blast
  then have "(\<lambda>r. Some (rec_ts r)) ` set (?f cs) = (\<lambda>r. Some (rec_ts r)) ` set (?f cs')" by simp
  then show ?thesis
    unfolding select_verified_candidate max_by_key_run
    by (rule newest.order_irrelevant [OF _ _ refl, rotated 2]) (simp_all add: trace_fun)
qed

text \<open>C11. What resolution selects: nothing exactly when no candidate parses and verifies;
  otherwise the last of the newest verified records. Every candidate that does not verify,
  however many there are and wherever they stand, has no influence.\<close>

theorem select_verified_newest:
  "(select_verified X cs kid now skew = None \<longleftrightarrow>
      (\<forall>bs \<in> set cs. \<forall>r. \<not> accepts X kid now skew bs r)) \<and>
   (select_verified X cs kid now skew = Some r \<longleftrightarrow>
      (\<exists>as a bs. cs = as @ a # bs \<and> accepts X kid now skew a r \<and>
        (\<forall>c \<in> set as. \<forall>r'. accepts X kid now skew c r' \<longrightarrow> rec_ts r' \<le> rec_ts r) \<and>
        (\<forall>c \<in> set bs. \<forall>r'. accepts X kid now skew c r' \<longrightarrow> rec_ts r' < rec_ts r))) \<and>
   (select_verified X (filter (\<lambda>c. \<exists>r. accepts X kid now skew c r) cs) kid now skew =
      select_verified X cs kid now skew)"
proof (intro conjI)
  have "List.map_filter f (filter (\<lambda>x. \<exists>y. f x = Some y) xs) = List.map_filter f xs"
    for f :: "bytes \<Rightarrow> signed_record option" and xs
    by (induction xs) (auto simp: List.map_filter_simps split: option.splits)
  then show "select_verified X (filter (\<lambda>c. \<exists>r. accepts X kid now skew c r) cs) kid now skew =
      select_verified X cs kid now skew"
    by (simp add: select_verified_candidate candidate_Some_iff [symmetric])
qed (simp_all add: select_verified_None_iff select_verified_Some_iff)

theorem select_verified_newest_witness:
  "\<exists>r. select_verified demo_externs
     [Record_to_bytes demo_externs (demo_record 1900000000), [0xde, 0xad],
      Record_to_bytes demo_externs (demo_record 1899999900)]
     demo_keyid 1900000000 300 = Some r \<and> rec_ts r = 1900000000"
proof -
  let ?n = "Record_to_bytes demo_externs (demo_record 1900000000)"
  let ?o = "Record_to_bytes demo_externs (demo_record 1899999900)"
  have "accepts demo_externs demo_keyid 1900000000 300 ?n (demo_record 1900000000)"
    by (simp add: demo_record_accepts)
  then show ?thesis
    using select_verified_newest [of demo_externs "[?n, [0xde, 0xad], ?o]" demo_keyid
        1900000000 300 "demo_record 1900000000"]
    by (force simp: accepts_def demo_record_wire demo_record_ts demo_junk)
qed

section \<open>Who can publish under a name\<close>

text \<open>
  The assumptions under which a name belongs to the public key \<open>pk\<close>: no other public key
  hashes to the same key identifier (second-preimage resistance of the truncated hash).
\<close>

definition keyid_binds :: "'a crypto_scheme \<Rightarrow> string \<Rightarrow> bytes \<Rightarrow> bool" where
  "keyid_binds X kid pk \<longleftrightarrow> (\<forall>pk'. prefix kid (keyid_full_from_pubkey X pk') \<longrightarrow> pk' = pk)"

text \<open>No other key identifier has the same DHT key (SHA-256 has no collision here).\<close>

definition dht_key_distinct :: "'a crypto_scheme \<Rightarrow> string \<Rightarrow> bool" where
  "dht_key_distinct X kid \<longleftrightarrow> (\<forall>kid'. dht_key X kid' = dht_key X kid \<longrightarrow> kid' = kid)"

lemma signature_valid_issued:
  assumes "unforgeable X pk issued" and "signature_valid X r" and "body_pubkey (rec_body r) = pk"
  shows "canonical_bytes X (rec_body r) \<in> issued"
  using assms by (auto simp: unforgeable_def signature_valid_def Let_def split: if_splits)

text \<open>
  An instance in which these assumptions hold: the hash sends one owner's key, one DHT input
  and everything else to three different digests, and one message of the owner verifies.
\<close>

definition owner_keyid :: string where
  "owner_keyid = replicate 26 (CHR ''7'')"

definition owner_externs :: externs where
  "owner_externs = demo_externs\<lparr>
     sha256 := (\<lambda>m. if m = replicate 32 7 then replicate 32 255
       else if m = as_bytes DHT_KEY_PREFIX @ as_bytes owner_keyid then replicate 32 1
       else replicate 32 0),
     ed_verify := (\<lambda>pk m s. m = cbor_body demo_externs (rec_body (demo_record 1900000000)))\<rparr>"

definition owner_issued :: "bytes set" where
  "owner_issued = {canonical_bytes owner_externs (rec_body (demo_record 1900000000))}"

lemma owner_externs_simps [simp]:
  "cbor_body owner_externs = cbor_body demo_externs"
  "cbor_record owner_externs = cbor_record demo_externs"
  "cbor_parse owner_externs = cbor_parse demo_externs"
  "ed_vk_ok owner_externs = ed_vk_ok demo_externs"
  "base32_nopad owner_externs = base32_nopad demo_externs"
  by (simp_all add: owner_externs_def)

lemma owner_keyid_prefix:
  "prefix owner_keyid (keyid_full_from_pubkey owner_externs pk) \<longleftrightarrow> pk = replicate 32 7"
proof -
  have "prefix owner_keyid (to_ascii_lowercase (rfc4648_base32 (replicate 32 255)))"
    and "\<not> prefix owner_keyid (to_ascii_lowercase (rfc4648_base32 (replicate 32 0)))"
    and "\<not> prefix owner_keyid (to_ascii_lowercase (rfc4648_base32 (replicate 32 1)))"
    by code_simp+
  then show ?thesis
    by (simp add: keyid_full_from_pubkey_def Let_def demo_crypto_def) (simp add: owner_externs_def)
qed

lemma owner_assumptions:
  "keyid_binds owner_externs owner_keyid (replicate 32 7)"
  "dht_key_distinct owner_externs owner_keyid"
  "unforgeable owner_externs (replicate 32 7) owner_issued"
proof -
  show "keyid_binds owner_externs owner_keyid (replicate 32 7)"
    by (simp add: keyid_binds_def owner_keyid_prefix)
  have "hd (as_bytes DHT_KEY_PREFIX @ as_bytes kid) \<noteq> hd (replicate 32 7)" for kid
    by (simp add: DHT_KEY_PREFIX_def as_bytes_def)
  then have "as_bytes DHT_KEY_PREFIX @ as_bytes kid \<noteq> replicate 32 7" for kid
    by metis
  moreover have "replicate 32 (0 :: u8) \<noteq> replicate 32 1"
    by simp
  ultimately show "dht_key_distinct owner_externs owner_keyid"
    by (simp add: dht_key_distinct_def dht_key_def owner_externs_def)
  show "unforgeable owner_externs (replicate 32 7) owner_issued"
    by (simp add: unforgeable_def owner_issued_def owner_externs_def canonical_bytes_def)
qed

lemma owner_record_valid: "signature_valid owner_externs (demo_record 1900000000)"
  by (simp add: signature_valid_def Let_def canonical_bytes_def)
    (simp add: owner_externs_def demo_record_def Record_sign_def demo_body_def RECORD_VERSION_def
      demo_crypto_def)

lemma owner_codec:
  "Record_from_bytes owner_externs = Record_from_bytes demo_externs"
  "Record_to_bytes owner_externs = Record_to_bytes demo_externs"
  by (simp_all add: fun_eq_iff Record_from_bytes_def Record_to_bytes_def)

lemma owner_record_accepts:
  "accepts owner_externs owner_keyid 1900000100 300
     (Record_to_bytes owner_externs (demo_record 1900000000)) (demo_record 1900000000)"
  by (simp add: accepts_def owner_codec demo_record_wire Record_verify_Ok_iff owner_record_valid
      owner_keyid_prefix abs_diff_def)

text \<open>C2. Authenticity of resolution: if the name belongs to \<open>pk\<close> and signatures of \<open>pk\<close>
  cannot be forged, then whatever candidates the network returns, the selected record is one
  whose body the owner of \<open>pk\<close> signed; it is within the allowed clock skew; and no candidate
  the owner could have meant is newer.\<close>

theorem select_verified_authentic:
  assumes "keyid_binds X kid pk" and "unforgeable X pk issued"
    and "select_verified X cs kid now skew = Some r"
  shows "body_pubkey (rec_body r) = pk \<and> canonical_bytes X (rec_body r) \<in> issued \<and>
    \<bar>uint now - uint (rec_ts r)\<bar> \<le> uint skew \<and>
    (\<forall>bs r'. bs \<in> set cs \<and> accepts X kid now skew bs r' \<longrightarrow> rec_ts r' \<le> rec_ts r)"
proof -
  obtain bs where "accepts X kid now skew bs r"
    using select_verified_SomeD(1) [OF assms(3)] by blast
  then have "signature_valid X r" "prefix kid (keyid_full_from_pubkey X (body_pubkey (rec_body r)))"
    and fresh: "abs_diff now (rec_ts r) \<le> skew"
    by (auto simp: accepts_def Record_verify_Ok_iff)
  moreover from this(2) assms(1) have "body_pubkey (rec_body r) = pk"
    by (simp add: keyid_binds_def)
  ultimately show ?thesis
    using signature_valid_issued [OF assms(2)] select_verified_SomeD(2) [OF assms(3)]
    by (auto simp: word_le_def uint_abs_diff)
qed

theorem select_verified_authentic_witness:
  "\<exists>r. select_verified owner_externs
     [[0xde, 0xad], Record_to_bytes owner_externs (demo_record 1900000000)]
     owner_keyid 1900000100 300 = Some r \<and> canonical_bytes owner_externs (rec_body r) \<in> owner_issued"
proof -
  let ?cs = "[[0xde, 0xad], Record_to_bytes owner_externs (demo_record 1900000000)]"
  obtain r where "select_verified owner_externs ?cs owner_keyid 1900000100 300 = Some r"
    using owner_record_accepts
    by (cases "select_verified owner_externs ?cs owner_keyid 1900000100 300")
      (auto simp: select_verified_None_iff)
  with select_verified_authentic [OF owner_assumptions(1,3) this] show ?thesis by blast
qed

lemma authorizes_storage_key_iff:
  "authorizes_storage_key X r key \<longleftrightarrow> signature_valid X r \<and>
     (\<exists>kid. kid \<noteq> [] \<and> prefix kid (keyid_full_from_pubkey X (body_pubkey (rec_body r))) \<and>
        key = dht_key X kid)"
proof -
  let ?f = "keyid_full_from_pubkey X (body_pubkey (rec_body r))"
  have "(\<exists>l \<in> set [1..<length ?f + 1]. dht_key X (take l ?f) = key) \<longleftrightarrow>
      (\<exists>kid. kid \<noteq> [] \<and> prefix kid ?f \<and> key = dht_key X kid)" (is "?L \<longleftrightarrow> ?R")
  proof
    assume ?L
    then obtain l where "1 \<le> l" "l \<le> length ?f" "dht_key X (take l ?f) = key" by auto
    then show ?R by (intro exI [of _ "take l ?f"]) (auto simp: take_is_prefix)
  next
    assume ?R
    then obtain kid where kid: "kid \<noteq> []" "prefix kid ?f" "key = dht_key X kid" by blast
    then have "take (length kid) ?f = kid" "length kid \<le> length ?f" "1 \<le> length kid"
      by (auto simp: prefix_def Suc_le_eq)
    with kid show ?L by (intro bexI [of _ "length kid"]) auto
  qed
  then show ?thesis
    by (simp add: authorizes_storage_key_def list_ex_iff Let_def)
qed

text \<open>A storage node accepts, under the DHT key of a name, only records its owner signed.\<close>

lemma authorizes_owner:
  assumes "keyid_binds X kid pk" and "dht_key_distinct X kid" and "unforgeable X pk issued"
    and "authorizes_storage_key X r (dht_key X kid)"
  shows "body_pubkey (rec_body r) = pk" and "canonical_bytes X (rec_body r) \<in> issued"
proof -
  from assms(4) obtain kid' where sig: "signature_valid X r"
    and kid': "prefix kid' (keyid_full_from_pubkey X (body_pubkey (rec_body r)))"
      "dht_key X kid = dht_key X kid'"
    by (auto simp: authorizes_storage_key_iff)
  from kid'(2) assms(2) have "kid' = kid"
    by (metis dht_key_distinct_def)
  with kid'(1) assms(1) show pk: "body_pubkey (rec_body r) = pk"
    by (simp add: keyid_binds_def)
  from signature_valid_issued [OF assms(3) sig pk] show "canonical_bytes X (rec_body r) \<in> issued" .
qed

end
