(* ===== verification/Cli_Os.thy ===== *)
theory Cli_Os
  imports Core_Record
begin

text \<open>
  What \<^verbatim>\<open>crates/cli\<close> uses of Rust's standard library and of the machine: decimal printing and
  parsing of \<^verbatim>\<open>usize\<close>, UTF-8 validation, and the file system with permissions. Files are a map
  from paths to a mode and a content. Every call can fail: \<open>os_fault\<close> says which operations the
  machine refuses, and a refused write may leave a prefix of the data behind (\<open>os_short\<close>).
\<close>

unbundle bit_operations_syntax

section \<open>Decimal numbers\<close>

definition digit_char :: "nat \<Rightarrow> char" where
  "digit_char d = char_of (48 + d)"

text \<open>\<^verbatim>\<open>usize::to_string\<close>.\<close>

fun dec_string :: "nat \<Rightarrow> string" where
  "dec_string n = (if n < 10 then [digit_char n] else dec_string (n div 10) @ [digit_char (n mod 10)])"

declare dec_string.simps [simp del]

definition to_digit :: "char \<Rightarrow> nat option" where
  "to_digit c = (let n = of_char c in if 48 \<le> n \<and> n \<le> 57 then Some (n - 48) else None)"

datatype parse_int_error = Empty | InvalidDigit | PosOverflow

fun parse_digits :: "nat \<Rightarrow> string \<Rightarrow> (parse_int_error, nat) result" where
  "parse_digits acc [] = Ok acc"
| "parse_digits acc (c # cs) =
     (case to_digit c of
        None \<Rightarrow> Err InvalidDigit
      | Some d \<Rightarrow> if 10 * acc + d < 2 ^ 64 then parse_digits (10 * acc + d) cs else Err PosOverflow)"

text \<open>\<^verbatim>\<open>str::parse::<usize>\<close>: an optional plus sign and decimal digits.\<close>

definition parse_usize :: "string \<Rightarrow> (parse_int_error, nat) result" where
  "parse_usize s =
     (if s = [] then Err Empty
      else if s = ''+'' \<or> s = ''-'' then Err InvalidDigit
      else if hd s = CHR ''+'' then parse_digits 0 (tl s)
      else parse_digits 0 s)"

lemma to_digit_char [simp]: "d < 10 \<Longrightarrow> to_digit (digit_char d) = Some d"
  by (simp add: to_digit_def digit_char_def Let_def)

lemma parse_digits_snoc:
  "parse_digits acc (cs @ [c]) =
     tryq (parse_digits acc cs) (\<lambda>v. case to_digit c of
        None \<Rightarrow> Err InvalidDigit
      | Some d \<Rightarrow> if 10 * v + d < 2 ^ 64 then Ok (10 * v + d) else Err PosOverflow)"
  by (induction acc cs rule: parse_digits.induct) (auto split: option.splits)

lemma parse_dec_string: "n < 2 ^ 64 \<Longrightarrow> parse_digits 0 (dec_string n) = Ok n"
proof (induction n rule: dec_string.induct)
  case (1 n)
  show ?case
  proof (cases "n < 10")
    case True
    then show ?thesis using "1.prems" by (simp add: dec_string.simps [of n])
  next
    case False
    then show ?thesis
      using 1 by (simp add: dec_string.simps [of n] parse_digits_snoc)
  qed
qed

lemma digit_char_props: "d < 10 \<Longrightarrow> (48 :: nat) \<le> of_char (digit_char d) \<and> of_char (digit_char d) \<le> (57 :: nat)"
  by (simp add: digit_char_def)

lemma dec_string_digits:
  "c \<in> set (dec_string n) \<Longrightarrow> (48 :: nat) \<le> of_char c \<and> of_char c \<le> (57 :: nat)"
proof (induction n arbitrary: c rule: dec_string.induct)
  case (1 n)
  from "1.prems" have "c \<in> set (if n < 10 then [digit_char n]
      else dec_string (n div 10) @ [digit_char (n mod 10)])"
    by (simp only: dec_string.simps [of n])
  with "1.IH" digit_char_props show ?case by (auto split: if_splits)
qed

lemma dec_string_not_Nil [simp]: "dec_string n \<noteq> []"
  by (simp add: dec_string.simps [of n])

lemma parse_digits_bound: "acc < 2 ^ 64 \<Longrightarrow> parse_digits acc s = Ok n \<Longrightarrow> n < 2 ^ 64"
  by (induction acc s rule: parse_digits.induct) (auto split: option.splits if_splits)

interpretation usize_text: text_form "\<lambda>n. n < 2 ^ 64" dec_string parse_usize
proof
  show "parse_usize (dec_string n) = Ok n" if "n < 2 ^ 64" for n
  proof -
    have "hd (dec_string n) \<in> set (dec_string n)" by simp
    then have "hd (dec_string n) \<noteq> CHR ''+'' \<and> hd (dec_string n) \<noteq> CHR ''-''"
      using dec_string_digits [of "hd (dec_string n)" n] by auto
    then show ?thesis
      using parse_dec_string [OF that] by (auto simp: parse_usize_def)
  qed
  show "n < 2 ^ 64" if "parse_usize s = Ok n" for s n
    using that parse_digits_bound [of 0] by (auto simp: parse_usize_def split: if_splits)
qed

lemma trim_dec_string [simp]: "trim (dec_string n) = dec_string n"
  using dec_string_digits [of "hd (dec_string n)" n] dec_string_digits [of "last (dec_string n)" n]
  by (intro trim_graphic) (auto simp: graphic_def)

section \<open>UTF-8\<close>

definition utf8_cont :: "u8 \<Rightarrow> bool" where
  "utf8_cont b \<longleftrightarrow> 0x80 \<le> b \<and> b \<le> 0xBF"

text \<open>\<^verbatim>\<open>core::str::from_utf8\<close> accepts: no overlong forms, no surrogates, nothing above U+10FFFF.\<close>

fun utf8_valid :: "bytes \<Rightarrow> bool" where
  "utf8_valid [] = True"
| "utf8_valid (a # bs) =
     (if a < 0x80 then utf8_valid bs
      else if 0xC2 \<le> a \<and> a \<le> 0xDF then
        (case bs of b # r \<Rightarrow> utf8_cont b \<and> utf8_valid r | _ \<Rightarrow> False)
      else if 0xE0 \<le> a \<and> a \<le> 0xEF then
        (case bs of b # c # r \<Rightarrow>
           (if a = 0xE0 then 0xA0 \<le> b \<and> b \<le> 0xBF
            else if a = 0xED then 0x80 \<le> b \<and> b \<le> 0x9F else utf8_cont b) \<and>
           utf8_cont c \<and> utf8_valid r
         | _ \<Rightarrow> False)
      else if 0xF0 \<le> a \<and> a \<le> 0xF4 then
        (case bs of b # c # d # r \<Rightarrow>
           (if a = 0xF0 then 0x90 \<le> b \<and> b \<le> 0xBF
            else if a = 0xF4 then 0x80 \<le> b \<and> b \<le> 0x8F else utf8_cont b) \<and>
           utf8_cont c \<and> utf8_cont d \<and> utf8_valid r
         | _ \<Rightarrow> False)
      else False)"

definition from_utf8 :: "bytes \<Rightarrow> string option" where
  "from_utf8 bs = (if utf8_valid bs then Some (string_of_bytes bs) else None)"

lemma utf8_valid_ascii: "list_all (\<lambda>b. b < 0x80) bs \<Longrightarrow> utf8_valid bs"
  by (induction bs) auto

lemma from_utf8_ascii:
  assumes "\<And>c. c \<in> set s \<Longrightarrow> of_char c < (128 :: nat)"
  shows "from_utf8 (as_bytes s) = Some s"
proof -
  have "list_all (\<lambda>b. b < 0x80) (as_bytes s)"
    using assms by (auto simp: as_bytes_def list_all_iff word_less_nat_alt unat_of_char)
  then show ?thesis by (simp add: from_utf8_def utf8_valid_ascii)
qed

section \<open>Files\<close>

type_synonym path = string
type_synonym anyhow_error = string \<comment> \<open>the outermost message of an \<^verbatim>\<open>anyhow::Error\<close>\<close>

record fs_file =
  f_mode :: u32
  f_data :: bytes

datatype io_op =
    CreateDirAll path
  | Stat path
  | OpenFile path
  | WriteAll path
  | ReadFile path
  | RemoveFile path

datatype io_error = NotFound | InvalidData | OtherIo string

record os =
  os_env_home :: "string option" \<comment> \<open>the variable \<^verbatim>\<open>MC_TUNNEL_HOME\<close>\<close>
  os_project_dir :: "path option" \<comment> \<open>what \<^verbatim>\<open>ProjectDirs\<close> returns as configuration directory\<close>
  os_umask :: u32
  os_files :: "path \<rightharpoonup> fs_file"
  os_fault :: "io_op \<Rightarrow> string option"
  os_short :: "path \<Rightarrow> nat"

text \<open>\<^verbatim>\<open>PathBuf::join\<close> with a plain file name.\<close>

definition join_path :: "path \<Rightarrow> string \<Rightarrow> path" where
  "join_path d f = (if d = [] then f else if last d = CHR ''/'' then d @ f else d @ CHR ''/'' # f)"

text \<open>\<^verbatim>\<open>Path::exists\<close> is false when the file cannot be queried.\<close>

definition path_exists :: "'a os_scheme \<Rightarrow> path \<Rightarrow> bool" where
  "path_exists w p \<longleftrightarrow> os_fault w (Stat p) = None \<and> os_files w p \<noteq> None"

definition fs_read :: "'a os_scheme \<Rightarrow> path \<Rightarrow> (io_error, bytes) result" where
  "fs_read w p =
     (case os_fault w (ReadFile p) of
        Some e \<Rightarrow> Err (OtherIo e)
      | None \<Rightarrow> (case os_files w p of None \<Rightarrow> Err NotFound | Some f \<Rightarrow> Ok (f_data f)))"

definition fs_read_to_string :: "'a os_scheme \<Rightarrow> path \<Rightarrow> (io_error, string) result" where
  "fs_read_to_string w p =
     tryq (fs_read w p) (\<lambda>bs. case from_utf8 bs of None \<Rightarrow> Err InvalidData | Some s \<Rightarrow> Ok s)"

definition fs_create_dir_all :: "'a os_scheme \<Rightarrow> path \<Rightarrow> (io_error, unit) result" where
  "fs_create_dir_all w p =
     (case os_fault w (CreateDirAll p) of Some e \<Rightarrow> Err (OtherIo e) | None \<Rightarrow> Ok ())"

definition fs_remove_file :: "'a os_scheme \<Rightarrow> path \<Rightarrow> (io_error, unit) result \<times> 'a os_scheme" where
  "fs_remove_file w p =
     (case os_fault w (RemoveFile p) of
        Some e \<Rightarrow> (Err (OtherIo e), w)
      | None \<Rightarrow> if os_files w p = None then (Err NotFound, w)
          else (Ok (), w\<lparr>os_files := (os_files w)(p := None)\<rparr>))"

text \<open>\<^verbatim>\<open>OpenOptions\<close> with \<^verbatim>\<open>write\<close>, \<^verbatim>\<open>create\<close>, \<^verbatim>\<open>truncate\<close> and a mode: as with \<^verbatim>\<open>open(2)\<close>, the mode (less
  the umask) is that of a file this call creates; an existing file keeps its own.\<close>

definition fs_open_truncate :: "u32 \<Rightarrow> 'a os_scheme \<Rightarrow> path \<Rightarrow> (io_error, unit) result \<times> 'a os_scheme" where
  "fs_open_truncate mode w p =
     (case os_fault w (OpenFile p) of
        Some e \<Rightarrow> (Err (OtherIo e), w)
      | None \<Rightarrow>
          let m = (case os_files w p of Some f \<Rightarrow> f_mode f | None \<Rightarrow> mode AND NOT (os_umask w))
          in (Ok (), w\<lparr>os_files := (os_files w)(p \<mapsto> \<lparr>f_mode = m, f_data = []\<rparr>)\<rparr>))"

definition set_data :: "'a os_scheme \<Rightarrow> path \<Rightarrow> bytes \<Rightarrow> 'a os_scheme" where
  "set_data w p bs =
     w\<lparr>os_files := (os_files w)(p := map_option (\<lambda>f. f\<lparr>f_data := bs\<rparr>) (os_files w p))\<rparr>"

definition fs_write_all :: "'a os_scheme \<Rightarrow> path \<Rightarrow> bytes \<Rightarrow> (io_error, unit) result \<times> 'a os_scheme" where
  "fs_write_all w p bs =
     (case os_fault w (WriteAll p) of
        Some e \<Rightarrow> (Err (OtherIo e), set_data w p (take (os_short w p) bs))
      | None \<Rightarrow> (Ok (), set_data w p bs))"

text \<open>\<^verbatim>\<open>fs::write\<close>: create or truncate with the default mode \<^verbatim>\<open>0o666\<close>, then write everything.\<close>

definition fs_write :: "'a os_scheme \<Rightarrow> path \<Rightarrow> bytes \<Rightarrow> (io_error, unit) result \<times> 'a os_scheme" where
  "fs_write w p bs =
     (case fs_open_truncate 0x1B6 w p of
        (Err e, w) \<Rightarrow> (Err e, w)
      | (Ok _, w) \<Rightarrow> fs_write_all w p bs)"

lemmas fs_defs = fs_read_def fs_read_to_string_def fs_create_dir_all_def fs_remove_file_def
  fs_open_truncate_def set_data_def fs_write_all_def fs_write_def path_exists_def

end
