(* ===== verification/Cli_Keystore.thy ===== *)
theory Cli_Keystore
  imports Cli_Os
begin

text \<open>
  \<^verbatim>\<open>crates/cli/src/keystore.rs\<close>: where the identity lives. The OS keyring (the \<^verbatim>\<open>keyring\<close> crate) is
  an abstract state with the operations the code calls and its documented laws; the file system
  is that of \<^verbatim>\<open>Cli_Os\<close>. Every function takes the machine and returns it updated. Both
  variants of \<^verbatim>\<open>write_owner_only\<close> are here, for Unix and for Windows. Scrubbing of buffers is not modelled.
\<close>

section \<open>The keyring crate\<close>

type_synonym keyring_key = "string \<times> string" \<comment> \<open>service and user\<close>

record 'k keyring_ops =
  entry_new :: "string \<Rightarrow> string \<Rightarrow> (string, keyring_key) result"
  get_secret :: "'k \<Rightarrow> keyring_key \<Rightarrow> (string, bytes) result"
  set_secret :: "'k \<Rightarrow> keyring_key \<Rightarrow> bytes \<Rightarrow> (string, unit) result \<times> 'k"
  delete_credential :: "'k \<Rightarrow> keyring_key \<Rightarrow> (string, unit) result \<times> 'k"

text \<open>Documented: a secret that was set is returned, a call that fails changes nothing, a deleted
  credential is gone, and an entry is its service and user.\<close>

definition keyring_laws :: "'k keyring_ops \<Rightarrow> bool" where
  "keyring_laws K \<longleftrightarrow>
     (\<forall>s u e. entry_new K s u = Ok e \<longrightarrow> e = (s, u)) \<and>
     (\<forall>st e bs st' e'. set_secret K st e bs = (Ok (), st') \<longrightarrow>
        get_secret K st' e' = (if e' = e then Ok bs else get_secret K st e')) \<and>
     (\<forall>st e bs m st'. set_secret K st e bs = (Err m, st') \<longrightarrow> get_secret K st' = get_secret K st) \<and>
     (\<forall>st e st'. delete_credential K st e = (Ok (), st') \<longrightarrow>
        (\<exists>m. get_secret K st' e = Err m) \<and>
        (\<forall>e'. e' \<noteq> e \<longrightarrow> get_secret K st' e' = get_secret K st e')) \<and>
     (\<forall>st e m st'. delete_credential K st e = (Err m, st') \<longrightarrow> get_secret K st' = get_secret K st)"

record 'k machine = os +
  ms_keyring :: 'k

section \<open>Paths\<close>

definition KEY_FILE :: string where
  "KEY_FILE = ''identity.key''"

definition META_FILE :: string where
  "META_FILE = ''keyid_len''"

definition config_dir :: "'a os_scheme \<Rightarrow> (anyhow_error, path) result" where
  "config_dir w =
     (case os_env_home w of
        Some dir \<Rightarrow> Ok dir
      | None \<Rightarrow>
          (case os_project_dir w of
             None \<Rightarrow> Err ''could not determine a config directory for this OS''
           | Some d \<Rightarrow> Ok d))"

definition key_path :: "'a os_scheme \<Rightarrow> (anyhow_error, path) result" where
  "key_path w = tryq (config_dir w) (\<lambda>d. Ok (join_path d KEY_FILE))"

definition meta_path :: "'a os_scheme \<Rightarrow> (anyhow_error, path) result" where
  "meta_path w = tryq (config_dir w) (\<lambda>d. Ok (join_path d META_FILE))"

definition keyring_entry :: "'k keyring_ops \<Rightarrow> 'a os_scheme \<Rightarrow> (anyhow_error, keyring_key) result" where
  "keyring_entry K w =
     tryq (config_dir w) (\<lambda>i.
     map_err (\<lambda>_. ''opening OS keyring entry'') (entry_new K ''mc-tunnel'' i))"

section \<open>Operations\<close>

text \<open>\<^verbatim>\<open>[String]::join\<close>.\<close>

fun join_strs :: "string \<Rightarrow> string list \<Rightarrow> string" where
  "join_strs sep [] = []"
| "join_strs sep [x] = x"
| "join_strs sep (x # y # ys) = x @ sep @ join_strs sep (y # ys)"

definition keyring_load :: "'k keyring_ops \<Rightarrow> 'k machine \<Rightarrow> bytes option" where
  "keyring_load K w =
     (case ok_opt (keyring_entry K w) of
        None \<Rightarrow> None
      | Some entry \<Rightarrow>
          (case ok_opt (get_secret K (ms_keyring w) entry) of
             None \<Rightarrow> None
           | Some secret \<Rightarrow> if length secret = 32 then Some secret else None))"

definition identity_exists :: "'k keyring_ops \<Rightarrow> 'k machine \<Rightarrow> (anyhow_error, bool) result" where
  "identity_exists K w =
     (if keyring_load K w \<noteq> None then Ok True
      else tryq (key_path w) (\<lambda>p. Ok (path_exists w p)))"

definition write_owner_only ::
  "'a os_scheme \<Rightarrow> path \<Rightarrow> bytes \<Rightarrow> (anyhow_error, unit) result \<times> 'a os_scheme" where
  "write_owner_only w path bs =
     (case fs_open_truncate 0x180 w path of
        (Err _, w) \<Rightarrow> (Err (''creating '' @ path @ '' (0600)''), w)
      | (Ok _, w) \<Rightarrow>
          (case fs_write_all w path bs of
             (Err _, w) \<Rightarrow> (Err (''writing '' @ path), w)
           | (Ok _, w) \<Rightarrow> (Ok (), w)))"

text \<open>The variant for Windows: \<open>username\<close> is the variable \<^verbatim>\<open>USERNAME\<close>, \<open>icacls\<close> the external program, which
  may change the machine; it fails to run, or reports success or failure.\<close>

definition write_owner_only_windows ::
  "string option \<Rightarrow> (string list \<Rightarrow> 'a os_scheme \<Rightarrow> (string, bool) result \<times> 'a os_scheme)
     \<Rightarrow> 'a os_scheme \<Rightarrow> path \<Rightarrow> bytes \<Rightarrow> (anyhow_error, unit) result \<times> 'a os_scheme" where
  "write_owner_only_windows username icacls w path bs =
     (case fs_write w path bs of
        (Err _, w) \<Rightarrow> (Err (''writing '' @ path), w)
      | (Ok _, w) \<Rightarrow>
          let user = (case username of Some u \<Rightarrow> u | None \<Rightarrow> []);
              (hardened, w) =
                (if user = [] then (False, w)
                 else case icacls [path, ''/inheritance:r'', ''/grant:r'', user @ '':F''] w of
                        (Ok success, w) \<Rightarrow> (success, w)
                      | (Err _, w) \<Rightarrow> (False, w))
          in if hardened then (Ok (), w)
             else (Err (''could not restrict permissions on '' @ path @
                     '' via icacls; refusing to store the key as a possibly-readable file (use the OS keyring instead)''),
                   snd (fs_remove_file w path)))"

text \<open>The \<^verbatim>\<open>match\<close> of \<^verbatim>\<open>save\<close> that stores the secret and yields its location.\<close>

definition store_secret ::
  "'k keyring_ops \<Rightarrow> 'k machine \<Rightarrow> bytes \<Rightarrow> (anyhow_error, string) result \<times> 'k machine" where
  "store_secret K w secret =
     (case (case keyring_entry K w of
              Err e \<Rightarrow> (Err e, w)
            | Ok e \<Rightarrow>
                (case set_secret K (ms_keyring w) e secret of
                   (r, st) \<Rightarrow> (map_err (\<lambda>_. ''writing secret to OS keyring'') r, w\<lparr>ms_keyring := st\<rparr>))) of
        (Ok _, w) \<Rightarrow>
          (case key_path w of
             Err e \<Rightarrow> (Err e, w)
           | Ok p \<Rightarrow> (Ok ''OS keyring'', snd (fs_remove_file w p)))
      | (Err _, w) \<Rightarrow>
          (case key_path w of
             Err e \<Rightarrow> (Err e, w)
           | Ok p \<Rightarrow>
               (case write_owner_only w p secret of
                  (Err e, w) \<Rightarrow> (Err e, w)
                | (Ok _, w) \<Rightarrow> (Ok p, w))))"

definition save ::
  "'k keyring_ops \<Rightarrow> 'k machine \<Rightarrow> identity \<Rightarrow> nat \<Rightarrow> bool
     \<Rightarrow> (anyhow_error, string) result \<times> 'k machine" where
  "save K w self keyid_len force =
     (case identity_exists K w of
        Err e \<Rightarrow> (Err e, w)
      | Ok ex \<Rightarrow>
          if ex \<and> \<not> force then (Err ''identity already exists (use --force to overwrite)'', w)
          else
            (case config_dir w of
               Err e \<Rightarrow> (Err e, w)
             | Ok dir \<Rightarrow>
                 (case fs_create_dir_all w dir of
                    Err _ \<Rightarrow> (Err (''creating '' @ dir), w)
                  | Ok _ \<Rightarrow>
                      (case store_secret K w (secret_bytes self) of
                         (Err e, w) \<Rightarrow> (Err e, w)
                       | (Ok location, w) \<Rightarrow>
                           (case meta_path w of
                              Err e \<Rightarrow> (Err e, w)
                            | Ok mp \<Rightarrow>
                                (case fs_write w mp (as_bytes (dec_string keyid_len)) of
                                   (Err _, w) \<Rightarrow> (Err ''writing keyid_len meta'', w)
                                 | (Ok _, w) \<Rightarrow> (Ok location, w)))))))"

definition em_dash :: string where
  "em_dash = map char_of [0xE2, 0x80, 0x94 :: nat]"

definition load :: "'k keyring_ops \<Rightarrow> 'k machine \<Rightarrow> (anyhow_error, identity) result" where
  "load K w =
     (case keyring_load K w of
        Some arr \<Rightarrow> Ok (from_secret_bytes arr)
      | None \<Rightarrow>
          tryq (key_path w) (\<lambda>path.
          if \<not> path_exists w path then
            Err (''no identity found (keyring empty and no key file at '' @ path @ '') '' @ em_dash @
              '' run `mc-tunnel init` first'')
          else
            tryq (map_err (\<lambda>_. ''reading '' @ path) (fs_read w path)) (\<lambda>bs.
            if length bs \<noteq> 32 then
              Err (''key file '' @ path @ '' is corrupt: expected 32 bytes, got '' @ dec_string (length bs))
            else Ok (from_secret_bytes bs))))"

text \<open>The first statement of \<^verbatim>\<open>wipe\<close>, with the entries it pushes to \<^verbatim>\<open>removed\<close>.\<close>

definition wipe_keyring :: "'k keyring_ops \<Rightarrow> 'k machine \<Rightarrow> string list \<times> 'k machine" where
  "wipe_keyring K w =
     (case keyring_entry K w of
        Ok entry \<Rightarrow>
          (case delete_credential K (ms_keyring w) entry of
             (Ok _, st) \<Rightarrow> ([''OS keyring''], w\<lparr>ms_keyring := st\<rparr>)
           | (Err _, st) \<Rightarrow> ([], w\<lparr>ms_keyring := st\<rparr>))
      | Err _ \<Rightarrow> ([], w))"

text \<open>Its removal of the key file.\<close>

definition wipe_key_file ::
  "string list \<Rightarrow> 'k machine \<Rightarrow> path \<Rightarrow> (anyhow_error, string list) result \<times> 'k machine" where
  "wipe_key_file removed w kp =
     (if path_exists w kp then
        (case fs_remove_file w kp of
           (Err _, w) \<Rightarrow> (Err (''removing '' @ kp), w)
         | (Ok _, w) \<Rightarrow> (Ok (removed @ [''key file'']), w))
      else (Ok removed, w))"

definition wipe :: "'k keyring_ops \<Rightarrow> 'k machine \<Rightarrow> (anyhow_error, string) result \<times> 'k machine" where
  "wipe K w =
     (let (removed, w) = wipe_keyring K w
      in case key_path w of
           Err e \<Rightarrow> (Err e, w)
         | Ok kp \<Rightarrow>
             (case wipe_key_file removed w kp of
                (Err e, w) \<Rightarrow> (Err e, w)
              | (Ok removed, w) \<Rightarrow>
                  (case meta_path w of
                     Err e \<Rightarrow> (Err e, w)
                   | Ok mp \<Rightarrow>
                       (Ok (if removed = [] then ''nothing to remove''
                            else join_strs '' + '' removed), snd (fs_remove_file w mp)))))"

definition load_keyid_len :: "'a os_scheme \<Rightarrow> (anyhow_error, nat) result" where
  "load_keyid_len w =
     tryq (meta_path w) (\<lambda>path.
     case fs_read_to_string w path of
       Ok s \<Rightarrow> map_err (\<lambda>_. ''parsing keyid_len from '' @ path) (parse_usize (trim s))
     | Err _ \<Rightarrow> Ok DEFAULT_KEYID_LEN)"

section \<open>Frames\<close>

lemma keyring_set_Ok:
  "keyring_laws K \<Longrightarrow> set_secret K st e bs = (Ok u, st') \<Longrightarrow>
   get_secret K st' e' = (if e' = e then Ok bs else get_secret K st e')"
  unfolding keyring_laws_def by (metis (full_types) old.unit.exhaust)

lemma keyring_set_Err:
  "keyring_laws K \<Longrightarrow> set_secret K st e bs = (Err m, st') \<Longrightarrow> get_secret K st' = get_secret K st"
  unfolding keyring_laws_def by blast

lemma keyring_delete_Ok:
  "keyring_laws K \<Longrightarrow> delete_credential K st e = (Ok u, st') \<Longrightarrow> \<exists>m. get_secret K st' e = Err m"
  unfolding keyring_laws_def by (metis (full_types) old.unit.exhaust)

lemma keyring_delete_Err:
  "keyring_laws K \<Longrightarrow> delete_credential K st e = (Err m, st') \<Longrightarrow> get_secret K st' = get_secret K st"
  unfolding keyring_laws_def by blast

lemma join_path_inject [simp]: "join_path d f = join_path d g \<longleftrightarrow> f = g"
  by (simp add: join_path_def)

lemma fs_frame [simp]:
  "os_env_home (snd (fs_remove_file w p)) = os_env_home w"
  "os_project_dir (snd (fs_remove_file w p)) = os_project_dir w"
  "os_fault (snd (fs_remove_file w p)) = os_fault w"
  "ms_keyring (snd (fs_remove_file v p)) = ms_keyring v"
  "os_env_home (snd (fs_open_truncate m w p)) = os_env_home w"
  "os_project_dir (snd (fs_open_truncate m w p)) = os_project_dir w"
  "os_fault (snd (fs_open_truncate m w p)) = os_fault w"
  "ms_keyring (snd (fs_open_truncate m v p)) = ms_keyring v"
  "os_env_home (snd (fs_write_all w p bs)) = os_env_home w"
  "os_project_dir (snd (fs_write_all w p bs)) = os_project_dir w"
  "os_fault (snd (fs_write_all w p bs)) = os_fault w"
  "ms_keyring (snd (fs_write_all v p bs)) = ms_keyring v"
  by (auto simp: fs_defs Let_def split: option.splits)

lemma fs_write_frame [simp]:
  "os_env_home (snd (fs_write w p bs)) = os_env_home w"
  "os_project_dir (snd (fs_write w p bs)) = os_project_dir w"
  "os_fault (snd (fs_write w p bs)) = os_fault w"
  "ms_keyring (snd (fs_write v p bs)) = ms_keyring v"
  "q \<noteq> p \<Longrightarrow> os_files (snd (fs_write w p bs)) q = os_files w q"
  by (auto simp: fs_defs Let_def split: option.splits)

lemma write_owner_only_frame [simp]:
  "os_env_home (snd (write_owner_only w p bs)) = os_env_home w"
  "os_project_dir (snd (write_owner_only w p bs)) = os_project_dir w"
  "os_fault (snd (write_owner_only w p bs)) = os_fault w"
  "ms_keyring (snd (write_owner_only v p bs)) = ms_keyring v"
  "q \<noteq> p \<Longrightarrow> os_files (snd (write_owner_only w p bs)) q = os_files w q"
  by (auto simp: write_owner_only_def fs_defs Let_def split: option.splits)

lemma fs_remove_files:
  "os_files (snd (fs_remove_file w p)) q =
     (if q = p \<and> os_fault w (RemoveFile p) = None then None else os_files w q)"
  by (auto simp: fs_defs split: option.splits)

lemma fs_write_Ok:
  "fs_write w p bs = (Ok u, w') \<Longrightarrow> map_option f_data (os_files w' p) = Some bs"
  by (auto simp: fs_defs Let_def split: option.splits)

lemma write_owner_only_Ok:
  "write_owner_only w p bs = (Ok u, w') \<Longrightarrow> map_option f_data (os_files w' p) = Some bs"
  by (auto simp: write_owner_only_def fs_defs Let_def split: option.splits)

lemma paths_eq:
  assumes "os_env_home w' = os_env_home w" and "os_project_dir w' = os_project_dir w"
  shows "config_dir w' = config_dir w" and "key_path w' = key_path w"
    and "meta_path w' = meta_path w" and "keyring_entry K w' = keyring_entry K w"
proof -
  show "config_dir w' = config_dir w" by (simp only: config_dir_def assms)
  then show "key_path w' = key_path w" and "meta_path w' = meta_path w"
    and "keyring_entry K w' = keyring_entry K w"
    by (simp_all add: key_path_def meta_path_def keyring_entry_def)
qed

section \<open>Saving and loading\<close>

text \<open>What a successful \<open>store_secret\<close> did.\<close>

lemma store_secret_OkE:
  assumes "keyring_laws K" and "store_secret K w secret = (Ok loc, w')"
  obtains (in_keyring) e st p where "keyring_entry K w = Ok e" "key_path w = Ok p"
      "set_secret K (ms_keyring w) e secret = (Ok (), st)"
      "w' = snd (fs_remove_file (w\<lparr>ms_keyring := st\<rparr>) p)" "loc = ''OS keyring''"
  | (in_file) st p where "key_path w = Ok p" "loc = p"
      "get_secret K st = get_secret K (ms_keyring w)"
      "write_owner_only (w\<lparr>ms_keyring := st\<rparr>) p secret = (Ok (), w')"
proof (cases "keyring_entry K w")
  case (Inl m)
  have "w\<lparr>ms_keyring := ms_keyring w\<rparr> = w" by simp
  with Inl assms(2) show thesis
    by (intro in_file [of "loc" "ms_keyring w"])
      (auto simp: store_secret_def split: sum.splits prod.splits)
next
  case (Inr e)
  obtain r st where set: "set_secret K (ms_keyring w) e secret = (r, st)" by fastforce
  have kp: "key_path (w\<lparr>ms_keyring := st\<rparr>) = key_path w" by (rule paths_eq) simp_all
  show thesis
  proof (cases r)
    case (Inl m)
    then have "get_secret K st = get_secret K (ms_keyring w)"
      using keyring_set_Err [OF assms(1)] set by simp
    with Inl Inr set kp assms(2) show thesis
      by (intro in_file [of "loc" st]) (auto simp: store_secret_def split: sum.splits prod.splits)
  next
    case (Inr u)
    note facts = this \<open>keyring_entry K w = Ok e\<close> set kp assms(2)
    then obtain p where "key_path w = Ok p"
      by (cases "key_path w") (auto simp: store_secret_def)
    with facts show thesis
      by (intro in_keyring [of e p st]) (auto simp: store_secret_def)
  qed
qed

lemma save_OkE:
  assumes "save K w i n force = (Ok loc, w')"
  obtains w1 mp where "store_secret K w (secret_bytes i) = (Ok loc, w1)" "meta_path w1 = Ok mp"
    "fs_write w1 mp (as_bytes (dec_string n)) = (Ok (), w')"
    "identity_exists K w = Ok True \<longrightarrow> force"
  using assms
  by (auto simp: save_def split: sum.splits if_splits prod.splits)

text \<open>The secret a machine would load.\<close>

lemma keyring_load_eq:
  assumes "keyring_entry K w' = keyring_entry K w"
    and "get_secret K (ms_keyring w') = get_secret K (ms_keyring w)"
  shows "keyring_load K w' = keyring_load K w"
  by (simp only: keyring_load_def assms)

text \<open>The paths of a profile and that the machine lets them be read.\<close>

definition readable :: "'a os_scheme \<Rightarrow> bool" where
  "readable w \<longleftrightarrow> (\<forall>p. os_fault w (ReadFile p) = None \<and> os_fault w (Stat p) = None)"

lemma save_paths:
  assumes "store_secret K w secret = (r, w1)"
  shows "key_path w1 = key_path w" and "meta_path w1 = meta_path w"
    and "keyring_entry K w1 = keyring_entry K w" and "os_fault w1 = os_fault w"
proof -
  have "os_env_home w1 = os_env_home w \<and> os_project_dir w1 = os_project_dir w \<and>
      os_fault w1 = os_fault w"
    using assms write_owner_only_frame
    by (force simp: store_secret_def split: sum.splits prod.splits
        dest: arg_cong [of "write_owner_only _ _ _" _ snd])
  then show "key_path w1 = key_path w" and "meta_path w1 = meta_path w"
    and "keyring_entry K w1 = keyring_entry K w" and "os_fault w1 = os_fault w"
    using paths_eq by blast+
qed

lemma save_meta:
  assumes "save K w i n force = (Ok loc, w')" and "n < 2 ^ 64" and "readable w"
  shows "load_keyid_len w' = Ok n"
proof -
  from assms(1) obtain w1 mp where w1: "store_secret K w (secret_bytes i) = (Ok loc, w1)"
      "meta_path w1 = Ok mp" "fs_write w1 mp (as_bytes (dec_string n)) = (Ok (), w')"
    by (rule save_OkE)
  have w': "w' = snd (fs_write w1 mp (as_bytes (dec_string n)))" using w1(3) by simp
  have "meta_path w' = Ok mp" using w1(2) paths_eq [of w' w1] by (simp add: w')
  moreover have "os_fault w' = os_fault w" using save_paths [OF w1(1)] by (simp add: w')
  then have "fs_read w' mp = Ok (as_bytes (dec_string n))"
    using fs_write_Ok [OF w1(3)] assms(3) by (auto simp: fs_read_def readable_def)
  then have "fs_read_to_string w' mp = Ok (dec_string n)"
    using from_utf8_ascii [of "dec_string n"] dec_string_digits [of _ n]
    by (fastforce simp: fs_read_to_string_def)
  ultimately show ?thesis
    using usize_text.parse_print [OF assms(2)] by (simp add: load_keyid_len_def)
qed

text \<open>Writing the length does not touch the secret.\<close>

lemma save_secret:
  assumes "keyring_laws K" and "save K w i n force = (Ok loc, w')" and "length (secret_bytes i) = 32"
  shows "keyring_load K w' = Some (secret_bytes i) \<and> loc = ''OS keyring'' \<or>
    (\<exists>p. key_path w' = Ok p \<and> loc = p \<and> keyring_load K w' = keyring_load K w \<and>
       map_option f_data (os_files w' p) = Some (secret_bytes i))"
proof -
  from assms(2) obtain w1 mp where w1: "store_secret K w (secret_bytes i) = (Ok loc, w1)"
      "meta_path w1 = Ok mp" "fs_write w1 mp (as_bytes (dec_string n)) = (Ok (), w')"
    by (rule save_OkE)
  have w': "w' = snd (fs_write w1 mp (as_bytes (dec_string n)))" using w1(3) by simp
  have same: "key_path w' = key_path w1" "keyring_entry K w' = keyring_entry K w1"
    by (rule paths_eq; simp add: w')+
  note eqs = same save_paths [OF w1(1)]
  show ?thesis
    using assms(1) w1(1)
  proof (cases rule: store_secret_OkE)
    case (in_keyring e st p)
    then have "get_secret K (ms_keyring w') e = Ok (secret_bytes i)"
      using keyring_set_Ok [OF assms(1)] by (simp add: w')
    with in_keyring eqs assms(3) show ?thesis by (simp add: keyring_load_def)
  next
    case (in_file st p)
    then have "w1 = snd (write_owner_only (w\<lparr>ms_keyring := st\<rparr>) p (secret_bytes i))" by simp
    then have "ms_keyring w' = st" by (simp add: w')
    then have "keyring_load K w' = keyring_load K w"
      using eqs in_file by (intro keyring_load_eq) simp_all
    moreover have "p \<noteq> mp"
      using in_file(1) w1(2) eqs
      by (auto simp: key_path_def meta_path_def tryq_eq_Ok_iff KEY_FILE_def META_FILE_def)
    then have "os_files w' p = os_files w1 p" by (simp add: w')
    ultimately show ?thesis
      using in_file write_owner_only_Ok [OF in_file(4)] eqs by auto
  qed
qed

lemma save_unforced:
  assumes "save K w i n False = (Ok loc, w')"
  shows "keyring_load K w = None"
  using assms
  by (auto simp: save_def identity_exists_def tryq_eq_Ok_iff split: sum.splits if_splits)

lemma key_path_not_keyring:
  assumes "key_path w = Ok p"
  shows "p \<noteq> ''OS keyring''"
proof -
  from assms obtain d where "p = join_path d KEY_FILE" by (auto simp: key_path_def tryq_eq_Ok_iff)
  then have "last p = CHR ''y''" by (simp add: join_path_def KEY_FILE_def)
  then show ?thesis by auto
qed

text \<open>What \<open>load\<close> and \<open>identity_exists\<close> see.\<close>

lemma load_from_keyring:
  "keyring_load K w = Some s \<Longrightarrow> load K w = Ok (from_secret_bytes s) \<and> identity_exists K w = Ok True"
  by (simp add: load_def identity_exists_def)

lemma load_from_file:
  assumes "keyring_load K w = None" and "key_path w = Ok p" and "readable w"
    and "map_option f_data (os_files w p) = Some s" and "length s = 32"
  shows "load K w = Ok (from_secret_bytes s) \<and> identity_exists K w = Ok True"
  using assms by (auto simp: load_def identity_exists_def path_exists_def fs_read_def readable_def)

lemma save_reload:
  assumes "keyring_laws K" and "length (secret_bytes i) = 32" and "readable w"
    and "save K w i n force = (Ok loc, w')"
    and "force \<longrightarrow> loc = ''OS keyring'' \<or> keyring_load K w = None"
  shows "load K w' = Ok i \<and> identity_exists K w' = Ok True"
proof -
  have ready: "readable w'"
  proof -
    from assms(4) obtain w1 mp where w1: "store_secret K w (secret_bytes i) = (Ok loc, w1)"
        "fs_write w1 mp (as_bytes (dec_string n)) = (Ok (), w')"
      by (rule save_OkE)
    then have "w' = snd (fs_write w1 mp (as_bytes (dec_string n)))" by simp
    with save_paths(4) [OF w1(1)] assms(3) show ?thesis by (simp add: readable_def)
  qed
  from save_secret [OF assms(1,4,2)] show ?thesis
  proof (elim disjE exE conjE)
    assume "keyring_load K w' = Some (secret_bytes i)"
    from load_from_keyring [OF this] show ?thesis by simp
  next
    fix p
    assume p: "key_path w' = Ok p" "loc = p" "keyring_load K w' = keyring_load K w"
      "map_option f_data (os_files w' p) = Some (secret_bytes i)"
    have "keyring_load K w = None"
      using assms(4,5) save_unforced [of K w i n loc w'] key_path_not_keyring [OF p(1)] p(2)
      by (cases force) auto
    then show ?thesis
      using load_from_file [OF _ p(1) ready p(4) assms(2)] p(3) by simp
  qed
qed

text \<open>Without a proviso: what is loaded is what was saved, or the secret the keyring had before and still has.\<close>

lemma save_loads:
  assumes "keyring_laws K" and "length (secret_bytes i) = 32" and "readable w"
    and "save K w i n force = (Ok loc, w')"
  shows "\<exists>j. load K w' = Ok j \<and>
    (j = i \<or> force \<and> keyring_load K w = Some (secret_bytes j) \<and> keyring_load K w' = keyring_load K w)"
proof (cases "force \<longrightarrow> loc = ''OS keyring'' \<or> keyring_load K w = None")
  case True
  from save_reload [OF assms this] show ?thesis by blast
next
  case False
  then obtain old where old: "force" "loc \<noteq> ''OS keyring''" "keyring_load K w = Some old" by auto
  then have "keyring_load K w' = keyring_load K w" using save_secret [OF assms(1,4,2)] by blast
  with old load_from_keyring [of K w' old] show ?thesis by auto
qed

text \<open>C23. Saving an identity and loading it again. After a \<^verbatim>\<open>save\<close> that succeeds, \<^verbatim>\<open>load\<close> returns the same
  identity and \<^verbatim>\<open>load_keyid_len\<close> the same length, wherever the secret went, provided the keyring was
  written or held no secret of this profile before (which is so whenever \<^verbatim>\<open>--force\<close> was not
  needed).\<close>

theorem save_load:
  assumes "keyring_laws K" and "length (secret_bytes i) = 32" and "n < 2 ^ 64" and "readable w"
    and "save K w i n force = (Ok loc, w')"
    and "force \<longrightarrow> loc = ''OS keyring'' \<or> keyring_load K w = None"
  shows "load K w' = Ok i \<and> load_keyid_len w' = Ok n \<and> identity_exists K w' = Ok True"
  using save_reload [OF assms(1,2,4,5,6)] save_meta [OF assms(5,3,4)] by blast

text \<open>C39. What is left when that proviso fails. If an older secret of the profile is still in the keyring but
  writing the keyring fails, \<^verbatim>\<open>save\<close> with \<^verbatim>\<open>--force\<close> reports success with the key file as the
  location, and \<^verbatim>\<open>load\<close> then returns the old identity, not the saved one.\<close>

theorem save_stale_keyring:
  assumes "keyring_laws K" and "length (secret_bytes i) = 32"
    and "save K w i n True = (Ok loc, w')" and "loc \<noteq> ''OS keyring''"
    and "keyring_load K w = Some old"
  shows "key_path w' = Ok loc \<and> map_option f_data (os_files w' loc) = Some (secret_bytes i) \<and>
    load K w' = Ok (from_secret_bytes old)"
  using save_secret [OF assms(1,3,2)] assms(4,5) load_from_keyring [of K w' old] by auto

section \<open>Wiping\<close>

lemma wipe_keyring_cases:
  assumes "keyring_laws K" and "wipe_keyring K w = (removed, w1)"
  obtains st where "w1 = w\<lparr>ms_keyring := st\<rparr>" "removed = []"
      "get_secret K st = get_secret K (ms_keyring w)"
  | e st m where "w1 = w\<lparr>ms_keyring := st\<rparr>" "removed = [''OS keyring'']"
      "keyring_entry K w = Ok e" "get_secret K st e = Err m"
proof (cases "keyring_entry K w")
  case (Inl m)
  with assms(2) have "w1 = w\<lparr>ms_keyring := ms_keyring w\<rparr>" "removed = []"
    by (simp_all add: wipe_keyring_def)
  then show thesis by (rule that(1)) simp
next
  case (Inr e)
  obtain r st where del: "delete_credential K (ms_keyring w) e = (r, st)" by fastforce
  show thesis
  proof (cases r)
    case (Inl m)
    with del Inr assms(2) show thesis
      using keyring_delete_Err [OF assms(1), of _ e] by (intro that(1) [of st]) (auto simp: wipe_keyring_def)
  next
    case (Inr u)
    then obtain m where "get_secret K st e = Err m"
      using keyring_delete_Ok [OF assms(1)] del by blast
    with del Inr \<open>keyring_entry K w = Ok e\<close> assms(2) show thesis
      by (intro that(2) [of st e m]) (auto simp: wipe_keyring_def)
  qed
qed

lemma keyring_load_wiped:
  assumes "keyring_laws K" and "wipe_keyring K w = (removed, w1)"
  shows "keyring_load K w1 = (if removed = [] then keyring_load K w else None)"
  using assms
proof (cases rule: wipe_keyring_cases)
  case (1 st)
  then have "keyring_load K w1 = keyring_load K w"
    by (intro keyring_load_eq paths_eq) simp_all
  with 1 show ?thesis by simp
next
  case (2 e st m)
  then have "keyring_entry K w1 = Ok e" using paths_eq(4) [of w1 w K] by simp
  with 2 show ?thesis by (simp add: keyring_load_def)
qed

lemma wipe_key_file_Ok:
  assumes "wipe_key_file removed w kp = (Ok rs, w2)" and "readable w"
  shows "w2 = w\<lparr>os_files := (os_files w)(kp := None)\<rparr>"
    and "rs = removed @ (if os_files w kp = None then [] else [''key file''])"
  using assms
  by (auto simp: wipe_key_file_def fs_remove_file_def path_exists_def readable_def fun_upd_idem
      split: if_splits option.splits)

lemma wipe_OkE:
  assumes "wipe K w = (Ok what, w')"
  obtains removed w1 kp rs w2 mp where "wipe_keyring K w = (removed, w1)" "key_path w1 = Ok kp"
    "wipe_key_file removed w1 kp = (Ok rs, w2)" "meta_path w2 = Ok mp"
    "w' = snd (fs_remove_file w2 mp)"
    "what = (if rs = [] then ''nothing to remove'' else join_strs '' + '' rs)"
  using assms that by (auto simp: wipe_def split: sum.splits prod.splits)

text \<open>C37. Wiping. When \<^verbatim>\<open>wipe\<close> succeeds, the key file is gone and no file but the key file and the
  length was touched. If it reports the keyring as removed, or the keyring held no
  secret of the profile, no identity is left: \<^verbatim>\<open>exists\<close> is false and \<^verbatim>\<open>load\<close> fails. Otherwise (the
  keyring refused the deletion) the secret in the keyring is still the one loaded.\<close>

theorem wipe_removes:
  assumes "keyring_laws K" and "readable w" and "wipe K w = (Ok what, w')"
    and "key_path w = Ok kp" and "meta_path w = Ok mp"
  shows "os_files w' kp = None \<and> (\<forall>q. q \<noteq> kp \<and> q \<noteq> mp \<longrightarrow> os_files w' q = os_files w q) \<and>
    (if keyring_load K w = None \<or> prefix ''OS keyring'' what
     then identity_exists K w' = Ok False \<and> (\<exists>m. load K w' = Err m)
     else load K w' = load K w)"
proof -
  from assms(3) obtain removed w1 kp' rs w2 mp' where
    w1: "wipe_keyring K w = (removed, w1)" "key_path w1 = Ok kp'" and
    w2: "wipe_key_file removed w1 kp' = (Ok rs, w2)" "meta_path w2 = Ok mp'" and
    w': "w' = snd (fs_remove_file w2 mp')"
      "what = (if rs = [] then ''nothing to remove'' else join_strs '' + '' rs)"
    by (rule wipe_OkE)
  obtain st where st: "w1 = w\<lparr>ms_keyring := st\<rparr>" and rem: "removed = [] \<or> removed = [''OS keyring'']"
    using wipe_keyring_cases [OF assms(1) w1(1)] by metis
  have kp: "kp' = kp" using w1(2) assms(4) paths_eq(2) [of w1 w] by (simp add: st)
  have ready: "readable w1" using assms(2) by (simp add: st readable_def)
  note key_file = wipe_key_file_Ok [OF w2(1) ready]
  have mp: "mp' = mp" using w2(2) assms(5) paths_eq(3) [of w2 w] by (simp add: key_file st)
  have what: "prefix ''OS keyring'' what \<longleftrightarrow> removed \<noteq> []"
    using rem by (auto simp: w' key_file(2))
  have load': "keyring_load K w' = keyring_load K w1"
    by (intro keyring_load_eq paths_eq) (simp_all add: w' key_file(1))
  have files: "os_files w' kp = None" "q \<noteq> kp \<Longrightarrow> q \<noteq> mp \<Longrightarrow> os_files w' q = os_files w q" for q
    by (simp_all add: w' fs_remove_files key_file kp mp st)
  have kp': "key_path w' = Ok kp"
    using assms(4) paths_eq(2) [of w' w] by (simp add: w' key_file st)
  show ?thesis
    using files load' what keyring_load_wiped [OF assms(1) w1(1)] kp'
    by (auto simp: identity_exists_def load_def path_exists_def)
qed

section \<open>Permissions\<close>

lemma mode_owner_only: "(0x180 AND NOT umask) AND 0x3F = (0 :: u32)"
proof -
  have "(0x180 AND NOT umask) AND 0x3F = (0x180 AND 0x3F) AND NOT (umask :: u32)"
    by (simp only: and.assoc and.commute and.left_commute)
  also have "(0x180 AND 0x3F :: u32) = 0" by simp
  finally show ?thesis by simp
qed

text \<open>C38. \<^verbatim>\<open>write_owner_only\<close>: a file it creates is closed to group and others (no bit of \<^verbatim>\<open>0o077\<close>)
  already when it is opened, before any data is in it, and stays so even if the write fails; on
  success it holds exactly the data, and no other file changes. A file that was there before,
  though, keeps the mode it had.\<close>

theorem write_owner_only_mode:
  assumes "write_owner_only w p bs = (r, w')"
  shows "(os_files w p = None \<longrightarrow>
       (\<forall>f. os_files (snd (fs_open_truncate 0x180 w p)) p = Some f \<or> os_files w' p = Some f \<longrightarrow>
          f_mode f AND 0x3F = 0)) \<and>
     (\<forall>f. os_files w p = Some f \<longrightarrow> map_option f_mode (os_files w' p) = Some (f_mode f)) \<and>
     (r = Ok () \<longrightarrow> map_option f_data (os_files w' p) = Some bs) \<and>
     (\<forall>q. q \<noteq> p \<longrightarrow> os_files w' q = os_files w q)"
  using assms mode_owner_only
  by (auto simp: write_owner_only_def fs_open_truncate_def fs_write_all_def set_data_def Let_def
      split: option.splits)

text \<open>On Windows the key file is written first and restricted afterwards, and the function fails closed: it succeeds
  only if \<^verbatim>\<open>icacls\<close> ran for a non-empty user and reported success; if the data was written but could not be
  restricted, the file is removed (unless removing fails too). What it does not undo is a write that fails
  half-way: then the part that was written stays, with the permissions of a new file.\<close>

lemma write_owner_only_windows_closed:
  assumes "write_owner_only_windows username icacls w p bs = (r, w')"
  shows "(r = Ok () \<longrightarrow> (\<exists>u w1. username = Some u \<and> u \<noteq> [] \<and> fs_write w p bs = (Ok (), w1) \<and>
        icacls [p, ''/inheritance:r'', ''/grant:r'', u @ '':F''] w1 = (Ok True, w'))) \<and>
    (r \<noteq> Ok () \<and> fst (fs_write w p bs) = Ok () \<and> os_fault w' (RemoveFile p) = None \<longrightarrow> os_files w' p = None) \<and>
    (\<forall>e. fst (fs_write w p bs) = Err e \<longrightarrow> r = Err (''writing '' @ p) \<and> w' = snd (fs_write w p bs))"
proof -
  have removed: "os_fault w1 (RemoveFile p) = None \<Longrightarrow> os_files (snd (fs_remove_file w1 p)) p = None"
    and fault: "os_fault (snd (fs_remove_file w1 p)) = os_fault w1" for w1 :: "'a os_scheme"
    by (auto simp: fs_remove_file_def split: option.split)
  show ?thesis
    using assms removed
    by (auto simp: write_owner_only_windows_def Let_def fault split: sum.splits option.splits if_splits prod.splits)
qed

section \<open>Concrete machines\<close>

text \<open>A keyring that is a map, with a switch that makes it read-only.\<close>

definition map_keyring :: "bool \<Rightarrow> (keyring_key \<rightharpoonup> bytes) keyring_ops" where
  "map_keyring writable = \<lparr>
     entry_new = (\<lambda>s u. Ok (s, u)),
     get_secret = (\<lambda>st e. case st e of None \<Rightarrow> Err ''no entry'' | Some b \<Rightarrow> Ok b),
     set_secret = (\<lambda>st e b. if writable then (Ok (), st(e \<mapsto> b)) else (Err ''locked'', st)),
     delete_credential = (\<lambda>st e. if writable \<and> st e \<noteq> None then (Ok (), st(e := None))
        else (Err ''no entry'', st))\<rparr>"

lemma map_keyring_laws: "keyring_laws (map_keyring b)"
  by (auto simp: keyring_laws_def map_keyring_def split: if_splits)

definition demo_machine :: "(keyring_key \<rightharpoonup> bytes) \<Rightarrow> (keyring_key \<rightharpoonup> bytes) machine" where
  "demo_machine ring = \<lparr>os_env_home = Some ''/home/a'', os_project_dir = None, os_umask = 0x12,
     os_files = Map.empty, os_fault = (\<lambda>_. None), os_short = (\<lambda>_. 0), ms_keyring = ring\<rparr>"

definition demo_identity :: identity where
  "demo_identity = from_secret_bytes (replicate 32 7)"

definition demo_saved :: "(keyring_key \<rightharpoonup> bytes) machine" where
  "demo_saved = snd (save (map_keyring True) (demo_machine Map.empty) demo_identity 26 False)"

lemma demo_save:
  "save (map_keyring True) (demo_machine Map.empty) demo_identity 26 False
     = (Ok ''OS keyring'', demo_saved)"
  by (simp add: demo_saved_def save_def identity_exists_def keyring_load_def keyring_entry_def
      config_dir_def key_path_def meta_path_def store_secret_def path_exists_def fs_defs
      map_keyring_def demo_machine_def)

lemma demo_readable: "readable (demo_machine ring)"
  by (simp add: readable_def demo_machine_def)

theorem save_load_witness:
  "save (map_keyring True) (demo_machine Map.empty) demo_identity 26 False
     = (Ok ''OS keyring'', demo_saved) \<and>
   load (map_keyring True) demo_saved = Ok demo_identity \<and> load_keyid_len demo_saved = Ok 26"
  using save_load [OF map_keyring_laws _ _ demo_readable demo_save] demo_save
  by (simp add: demo_identity_def)

text \<open>A profile whose keyring holds an older secret and has become read-only.\<close>

definition demo_old_ring :: "keyring_key \<rightharpoonup> bytes" where
  "demo_old_ring = [(''mc-tunnel'', ''/home/a'') \<mapsto> replicate 32 9]"

definition demo_forced :: "(keyring_key \<rightharpoonup> bytes) machine" where
  "demo_forced = snd (save (map_keyring False) (demo_machine demo_old_ring) demo_identity 26 True)"

lemma demo_forced_save:
  "save (map_keyring False) (demo_machine demo_old_ring) demo_identity 26 True
     = (Ok ''/home/a/identity.key'', demo_forced)"
  by (simp add: demo_forced_def save_def identity_exists_def keyring_load_def keyring_entry_def
      config_dir_def key_path_def meta_path_def store_secret_def write_owner_only_def fs_defs
      map_keyring_def demo_machine_def demo_old_ring_def join_path_def KEY_FILE_def META_FILE_def)

lemma demo_old_load: "keyring_load (map_keyring b) (demo_machine demo_old_ring) = Some (replicate 32 9)"
  by (simp add: keyring_load_def keyring_entry_def config_dir_def map_keyring_def demo_machine_def
      demo_old_ring_def)

theorem save_stale_keyring_witness:
  "save (map_keyring False) (demo_machine demo_old_ring) demo_identity 26 True
     = (Ok ''/home/a/identity.key'', demo_forced) \<and>
   load (map_keyring False) demo_forced = Ok (from_secret_bytes (replicate 32 9)) \<and>
   from_secret_bytes (replicate 32 9) \<noteq> demo_identity"
  using save_stale_keyring [OF map_keyring_laws _ demo_forced_save _ demo_old_load] demo_forced_save
  by (simp add: demo_identity_def from_secret_bytes_def secret_bytes_def)

definition demo_wiped :: "(keyring_key \<rightharpoonup> bytes) machine" where
  "demo_wiped = snd (wipe (map_keyring True) (demo_machine demo_old_ring))"

lemma demo_wipe:
  "wipe (map_keyring True) (demo_machine demo_old_ring) = (Ok ''OS keyring'', demo_wiped)"
  by (simp add: demo_wiped_def wipe_def wipe_keyring_def wipe_key_file_def keyring_entry_def
      config_dir_def key_path_def meta_path_def fs_defs map_keyring_def demo_machine_def
      demo_old_ring_def)

theorem wipe_removes_witness:
  "wipe (map_keyring True) (demo_machine demo_old_ring) = (Ok ''OS keyring'', demo_wiped) \<and>
   identity_exists (map_keyring True) demo_wiped = Ok False"
proof -
  have "key_path (demo_machine demo_old_ring) = Ok ''/home/a/identity.key''"
    and "meta_path (demo_machine demo_old_ring) = Ok ''/home/a/keyid_len''"
    by (simp_all add: key_path_def meta_path_def config_dir_def demo_machine_def join_path_def
        KEY_FILE_def META_FILE_def)
  with wipe_removes [OF map_keyring_laws demo_readable demo_wipe] demo_wipe show ?thesis by simp
qed

theorem write_owner_only_mode_witness:
  "write_owner_only (demo_machine Map.empty) ''/k'' [1, 2] =
     (Ok (), (demo_machine Map.empty)\<lparr>os_files := [''/k'' \<mapsto> \<lparr>f_mode = 0x180, f_data = [1, 2]\<rparr>]\<rparr>) \<and>
   (0x180 :: u32) AND 0x3F = 0"
proof -
  let ?w' = "(demo_machine Map.empty)\<lparr>os_files := [''/k'' \<mapsto> \<lparr>f_mode = 0x180, f_data = [1, 2]\<rparr>]\<rparr>"
  have eq: "write_owner_only (demo_machine Map.empty) ''/k'' [1, 2] = (Ok (), ?w')"
    by (simp add: write_owner_only_def fs_defs demo_machine_def)
  then show ?thesis
    using write_owner_only_mode [OF eq] by (simp add: demo_machine_def)
qed

text \<open>A user whose \<^verbatim>\<open>icacls\<close> reports a failure.\<close>

lemma write_owner_only_windows_closed_witness:
  "\<exists>m w'. write_owner_only_windows (Some ''a'') (\<lambda>_ w. (Ok False, w)) (demo_machine Map.empty) ''/k'' [1, 2] = (Err m, w') \<and>
     os_files w' ''/k'' = None"
proof -
  let ?r = "write_owner_only_windows (Some ''a'') (\<lambda>_ w. (Ok False, w)) (demo_machine Map.empty) ''/k'' [1, 2]"
  obtain m w' where eq: "?r = (Err m, w')" and fault: "os_fault w' (RemoveFile ''/k'') = None"
    by (simp add: write_owner_only_windows_def fs_defs demo_machine_def Let_def)
  have "fst (fs_write (demo_machine Map.empty) ''/k'' [1, 2]) = Ok ()"
    by (simp add: fs_defs demo_machine_def)
  with write_owner_only_windows_closed [OF eq] fault eq show ?thesis by auto
qed

end
