(* ===== verification/Cli_Config.thy ===== *)
theory Cli_Config
  imports Cli_Keystore
begin

text \<open>
  \<^verbatim>\<open>crates/cli/src/config.rs\<close>: the configuration file. The TOML parser (\<^verbatim>\<open>toml\<close> with \<^verbatim>\<open>serde\<close>) is the
  parameter \<open>from_toml\<close>; by \<^verbatim>\<open>#[serde(default)]\<close> it fills in the defaults below.
\<close>

record network_cfg =
  nw_bootstrap :: "string list"
  nw_relays :: "string list"
  nw_use_ipfs_dht :: bool
  nw_mdns :: bool
  nw_keyid_len :: nat

definition NetworkCfg_default :: network_cfg where
  "NetworkCfg_default = \<lparr>nw_bootstrap = [], nw_relays = [], nw_use_ipfs_dht = False, nw_mdns = True,
     nw_keyid_len = DEFAULT_KEYID_LEN\<rparr>"

record publish_cfg =
  pb_target :: string
  pb_vanity :: string
  pb_max_conns :: usize
  pb_max_conn_rate :: u32

definition PublishCfg_default :: publish_cfg where
  "PublishCfg_default = \<lparr>pb_target = ''127.0.0.1:25565'', pb_vanity = [], pb_max_conns = 32,
     pb_max_conn_rate = 16\<rparr>"

record connect_cfg =
  cn_listen :: string

definition ConnectCfg_default :: connect_cfg where
  "ConnectCfg_default = \<lparr>cn_listen = ''127.0.0.1:25566''\<rparr>"

record config =
  cfg_network :: network_cfg
  cfg_publish :: publish_cfg
  cfg_connect :: connect_cfg

definition Config_default :: config where
  "Config_default = \<lparr>cfg_network = NetworkCfg_default, cfg_publish = PublishCfg_default,
     cfg_connect = ConnectCfg_default\<rparr>"

definition Config_path :: "'a os_scheme \<Rightarrow> (anyhow_error, path) result" where
  "Config_path w = tryq (config_dir w) (\<lambda>d. Ok (join_path d ''config.toml''))"

definition Config_load ::
  "(string \<Rightarrow> (string, config) result) \<Rightarrow> 'a os_scheme \<Rightarrow> (anyhow_error, config) result" where
  "Config_load from_toml w =
     tryq (Config_path w) (\<lambda>path.
     case fs_read_to_string w path of
       Ok s \<Rightarrow> map_err (\<lambda>_. ''parsing '' @ path) (from_toml s)
     | Err e \<Rightarrow> if e = NotFound then Ok Config_default else Err (''reading '' @ path))"

text \<open>A missing file gives the defaults; an unreadable or ill-formed one is an error.\<close>

lemma Config_load_missing:
  assumes "Config_path w = Ok p" and "os_fault w (ReadFile p) = None" and "os_files w p = None"
  shows "Config_load from_toml w = Ok Config_default"
  using assms by (simp add: Config_load_def fs_read_to_string_def fs_read_def)

lemma Config_load_fault:
  assumes "Config_path w = Ok p" and "os_fault w (ReadFile p) = Some e"
  shows "Config_load from_toml w = Err (''reading '' @ p)"
  using assms by (simp add: Config_load_def fs_read_to_string_def fs_read_def)

end
