(* ===== verification/Net_Behaviour.thy ===== *)
theory Net_Behaviour
  imports Core_Record
begin

text \<open>
  \<^verbatim>\<open>crates/net/src/behaviour.rs\<close>: which libp2p protocols a node runs and how they are configured.
  libp2p's constructors are the fields of the record \<open>libp2p\<close>, over one opaque type \<open>'o\<close> of
  libp2p objects (behaviours, their configurations, the record store); \<open>Behaviour_new\<close> composes
  them. \<^verbatim>\<open>Toggle<T>\<close> is an option. The \<^verbatim>\<open>expect\<close> on the start of mDNS is the result \<open>None\<close>, a panic.
\<close>

section \<open>libp2p's interface\<close>

type_synonym peer_id = string

text \<open>\<^verbatim>\<open>kad::StoreInserts\<close> and \<^verbatim>\<open>kad::Mode\<close>.\<close>

datatype store_inserts = Unfiltered | FilterBoth

datatype kad_mode = Client | Server

record 'o libp2p =
  kad_Config_default :: 'o
  kad_set_record_filtering :: "store_inserts \<Rightarrow> 'o \<Rightarrow> 'o"
  kad_MemoryStore_new :: "peer_id \<Rightarrow> 'o"
  kad_with_config :: "peer_id \<Rightarrow> 'o \<Rightarrow> 'o \<Rightarrow> 'o"
  kad_set_mode :: "kad_mode option \<Rightarrow> 'o \<Rightarrow> 'o"
  relay_Config_default :: 'o
  relay_Behaviour_new :: "peer_id \<Rightarrow> 'o \<Rightarrow> 'o"
  mdns_Config_default :: 'o
  mdns_Behaviour_new :: "'o \<Rightarrow> peer_id \<Rightarrow> (string, 'o) result"
  identify_Config_new :: "string \<Rightarrow> bytes \<Rightarrow> 'o"
  identify_with_agent_version :: "string \<Rightarrow> 'o \<Rightarrow> 'o"
  identify_Behaviour_new :: "'o \<Rightarrow> 'o"
  ping_Config_new :: 'o
  ping_with_interval :: "nat \<Rightarrow> 'o \<Rightarrow> 'o" \<comment> \<open>nanoseconds\<close>
  ping_Behaviour_new :: "'o \<Rightarrow> 'o"
  dcutr_Behaviour_new :: "peer_id \<Rightarrow> 'o"
  autonat_Config_default :: 'o
  autonat_Behaviour_new :: "peer_id \<Rightarrow> 'o \<Rightarrow> 'o"
  stream_Behaviour_new :: 'o

section \<open>The combined behaviour\<close>

text \<open>\<^verbatim>\<open>Duration::from_secs\<close>, in nanoseconds.\<close>

definition from_secs :: "nat \<Rightarrow> nat" where
  "from_secs n = n * 1000000000"

definition IDENTIFY_PROTO :: string where
  "IDENTIFY_PROTO = ''/mc-tunnel/id/1.0.0''"

text \<open>\<open>pkg_version\<close> is \<^verbatim>\<open>env!("CARGO_PKG_VERSION")\<close>, which the build supplies.\<close>

definition AGENT_VERSION :: "string \<Rightarrow> string" where
  "AGENT_VERSION pkg_version = ''mc-tunnel/'' @ pkg_version"

record 'o behaviour =
  bh_kad :: 'o
  bh_identify :: 'o
  bh_ping :: 'o
  bh_relay_client :: 'o
  bh_relay_server :: "'o option"
  bh_dcutr :: 'o
  bh_autonat :: 'o
  bh_mdns :: "'o option"
  bh_stream :: 'o

definition Behaviour_new ::
  "'o libp2p \<Rightarrow> string \<Rightarrow> peer_id \<Rightarrow> bytes \<Rightarrow> 'o \<Rightarrow> bool \<Rightarrow> bool \<Rightarrow> 'o behaviour option" where
  "Behaviour_new L pkg_version peer_id pubkey relay_client enable_relay_server enable_mdns =
     (let kad_config = kad_set_record_filtering L FilterBoth (kad_Config_default L);
          kad = kad_with_config L peer_id (kad_MemoryStore_new L peer_id) kad_config;
          kad = kad_set_mode L (Some Server) kad;
          relay_server =
            (if enable_relay_server
             then Some (relay_Behaviour_new L peer_id (relay_Config_default L)) else None);
          the_rest = (\<lambda>mdns. \<lparr>bh_kad = kad,
            bh_identify = identify_Behaviour_new L
              (identify_with_agent_version L (AGENT_VERSION pkg_version)
                 (identify_Config_new L IDENTIFY_PROTO pubkey)),
            bh_ping = ping_Behaviour_new L (ping_with_interval L (from_secs 2) (ping_Config_new L)),
            bh_relay_client = relay_client,
            bh_relay_server = relay_server,
            bh_dcutr = dcutr_Behaviour_new L peer_id,
            bh_autonat = autonat_Behaviour_new L peer_id (autonat_Config_default L),
            bh_mdns = mdns,
            bh_stream = stream_Behaviour_new L\<rparr>)
      in if enable_mdns
         then (case mdns_Behaviour_new L (mdns_Config_default L) peer_id of
                 Ok mdns \<Rightarrow> Some (the_rest (Some mdns))
               | Err _ \<Rightarrow> None)
         else Some (the_rest None))"

section \<open>What the configuration amounts to\<close>

text \<open>
  The documented meaning of the three settings: \<open>inserts\<close> and \<open>mode\<close> read the record filtering and
  the mode off a Kademlia configuration or behaviour.
\<close>

definition kad_laws ::
  "'o libp2p \<Rightarrow> ('o \<Rightarrow> store_inserts) \<Rightarrow> ('o \<Rightarrow> kad_mode option) \<Rightarrow> bool" where
  "kad_laws L inserts mode \<longleftrightarrow>
     (\<forall>f c. inserts (kad_set_record_filtering L f c) = f) \<and>
     (\<forall>p st c. inserts (kad_with_config L p st c) = inserts c) \<and>
     (\<forall>m k. inserts (kad_set_mode L m k) = inserts k) \<and>
     (\<forall>m k. mode (kad_set_mode L m k) = m)"

lemma Behaviour_new_kad:
  assumes "Behaviour_new L v peer pk rc rs md = Some b" and "kad_laws L inserts mode"
  shows "inserts (bh_kad b) = FilterBoth" and "mode (bh_kad b) = Some Server"
  using assms
  by (auto simp: Behaviour_new_def kad_laws_def Let_def split: if_splits sum.splits)

text \<open>The switches: a relay server and mDNS exactly where they are asked for, and a panic only
  when mDNS is asked for and cannot start.\<close>

lemma Behaviour_new_switches:
  assumes "Behaviour_new L v peer pk rc rs md = Some b"
  shows "bh_relay_server b \<noteq> None \<longleftrightarrow> rs" and "bh_mdns b \<noteq> None \<longleftrightarrow> md" and "bh_relay_client b = rc"
  using assms by (auto simp: Behaviour_new_def Let_def split: if_splits sum.splits)

lemma Behaviour_new_panics_iff:
  "Behaviour_new L v peer pk rc rs md = None \<longleftrightarrow>
     md \<and> \<not> is_ok (mdns_Behaviour_new L (mdns_Config_default L) peer)"
  by (simp add: Behaviour_new_def Let_def is_ok_def split: sum.split)

end
