(* ===== verification/Net_Node.thy ===== *)
theory Net_Node
  imports Net_Behaviour
begin

text \<open>
  \<^verbatim>\<open>crates/net/src/node.rs\<close>: the network task. libp2p's swarm is not part of the repository; it
  is an abstract state \<open>'sw\<close> with the operations the task calls, the record \<open>swarm_ops\<close>. The
  task's own state (the tables of in-flight queries, the confirmed external addresses and the
  RTT table) is the record \<open>node\<close>. A \<^verbatim>\<open>oneshot::Sender\<close> is a number; what the task sends
  on it is an element of the list of replies each handler returns.

  A \<^verbatim>\<open>PeerId\<close> is its text, a \<^verbatim>\<open>Multiaddr\<close> the list of its protocol components, an \<^verbatim>\<open>Instant\<close>
  a number of nanoseconds. The clocks a handler reads are its \<open>clock\<close> argument. Log output is
  not modelled.
\<close>

section \<open>Data\<close>

type_synonym query_id = nat
type_synonym sender = nat
type_synonym instant = nat
type_synonym anyhow = string

datatype protocol = P2p peer_id | P2pCircuit | OtherProtocol string

type_synonym multiaddr = "protocol list"

record clock =
  wall_secs :: u64
  mono_now :: instant

definition MAX_FUTURE_SKEW :: u64 where
  "MAX_FUTURE_SKEW = 600"

record kad_record =
  kr_key :: bytes
  kr_value :: bytes
  kr_publisher :: "peer_id option"
  kr_expires :: "instant option"

record net_config =
  nc_bootstrap :: "multiaddr list"
  nc_listen :: "multiaddr list"
  nc_reserve_relays :: "multiaddr list"
  nc_relay_server :: bool
  nc_enable_mdns :: bool

definition NetConfig_default :: net_config where
  "NetConfig_default = \<lparr>nc_bootstrap = [], nc_listen = [], nc_reserve_relays = [],
     nc_relay_server = False, nc_enable_mdns = True\<rparr>"

record doctor_info =
  di_peer_id :: string
  di_listen_addrs :: "string list"
  di_external_addrs :: "string list"
  di_connected_peers :: nat
  di_nat_status :: string

text \<open>libp2p: \<open>store_get\<close> and \<open>store_put\<close> are \<^verbatim>\<open>kad.store_mut().get\<close> and \<^verbatim>\<open>.put\<close> (whose
  error the code discards), the other fields are named after the methods.\<close>

record 'sw swarm_ops =
  kad_put_record :: "'sw \<Rightarrow> kad_record \<Rightarrow> (string, query_id) result \<times> 'sw"
  kad_get_record :: "'sw \<Rightarrow> bytes \<Rightarrow> query_id \<times> 'sw"
  kad_add_address :: "'sw \<Rightarrow> peer_id \<Rightarrow> multiaddr \<Rightarrow> 'sw"
  kad_bootstrap :: "'sw \<Rightarrow> 'sw"
  store_get :: "'sw \<Rightarrow> bytes \<Rightarrow> kad_record option"
  store_put :: "'sw \<Rightarrow> kad_record \<Rightarrow> 'sw"
  swarm_dial :: "'sw \<Rightarrow> multiaddr \<Rightarrow> (string, unit) result \<times> 'sw"
  swarm_listen_on :: "'sw \<Rightarrow> multiaddr \<Rightarrow> (string, unit) result \<times> 'sw"
  swarm_listeners :: "'sw \<Rightarrow> multiaddr list"
  swarm_local_peer :: "'sw \<Rightarrow> peer_id"
  swarm_connected_peers :: "'sw \<Rightarrow> nat"
  swarm_nat_status :: "'sw \<Rightarrow> string"
  multiaddr_parse :: "string \<Rightarrow> (string, multiaddr) result"
  multiaddr_to_string :: "multiaddr \<Rightarrow> string"

datatype command =
    PutRecord bytes bytes sender
  | GetRecord bytes sender
  | Dial multiaddr sender
  | Doctor sender

datatype query_result =
    QPutRecord "(string, unit) result"
  | QFoundRecord kad_record
  | QFinishedWithNoAdditionalRecord
  | QGetRecordErr string
  | QOther

datatype event =
    NewListenAddr multiaddr
  | PingOk peer_id nat \<comment> \<open>round-trip time in nanoseconds\<close>
  | ConnectionClosed peer_id nat \<comment> \<open>connections still established\<close>
  | ExternalAddrConfirmed multiaddr
  | ReservationReqAccepted peer_id
  | DcutrEvent peer_id
  | IdentifyReceived peer_id "multiaddr list"
  | MdnsDiscovered "(peer_id \<times> multiaddr) list"
  | KadQueryProgressed query_id query_result
  | KadInboundPutRecord kad_record
  | OtherEvent

datatype reply =
    PutReply sender "(anyhow, unit) result"
  | GetReply sender "(anyhow, bytes list) result"
  | DialReply sender "(anyhow, unit) result"
  | DoctorReply sender doctor_info

record 'sw node =
  nd_swarm :: 'sw
  pending_put :: "query_id \<rightharpoonup> sender"
  pending_get :: "query_id \<rightharpoonup> sender \<times> bytes list"
  external_addrs :: "multiaddr list"
  rtt :: "peer_id \<rightharpoonup> u64"

section \<open>Starting the task\<close>

definition peer_id_from_multiaddr :: "multiaddr \<Rightarrow> peer_id option" where
  "peer_id_from_multiaddr addr =
     (case List.find (\<lambda>p. case p of P2p _ \<Rightarrow> True | _ \<Rightarrow> False) addr of
        Some (P2p i) \<Rightarrow> Some i
      | _ \<Rightarrow> None)"

text \<open>\<^verbatim>\<open>for addr in addrs { swarm.listen_on(addr)?; }\<close>\<close>

fun listen_all ::
  "'sw swarm_ops \<Rightarrow> 'sw \<Rightarrow> multiaddr list \<Rightarrow> (anyhow, unit) result \<times> 'sw" where
  "listen_all S sw [] = (Ok (), sw)"
| "listen_all S sw (a # as) =
     (case swarm_listen_on S sw a of
        (Err e, sw') \<Rightarrow> (Err e, sw')
      | (Ok _, sw') \<Rightarrow> listen_all S sw' as)"

definition start_listening ::
  "'sw swarm_ops \<Rightarrow> 'sw \<Rightarrow> net_config \<Rightarrow> (anyhow, unit) result \<times> 'sw" where
  "start_listening S sw cfg =
     (if nc_listen cfg = [] then
        (case multiaddr_parse S ''/ip4/0.0.0.0/tcp/0'' of
           Err e \<Rightarrow> (Err e, sw)
         | Ok a \<Rightarrow>
             (case swarm_listen_on S sw a of
                (Err e, sw1) \<Rightarrow> (Err e, sw1)
              | (Ok _, sw1) \<Rightarrow>
                  (case multiaddr_parse S ''/ip4/0.0.0.0/udp/0/quic-v1'' of
                     Err e \<Rightarrow> (Err e, sw1)
                   | Ok b \<Rightarrow>
                       (case swarm_listen_on S sw1 b of
                          (Err e, sw2) \<Rightarrow> (Err e, sw2)
                        | (Ok _, sw2) \<Rightarrow> (Ok (), sw2)))))
      else listen_all S sw (nc_listen cfg))"

definition add_bootstrap :: "'sw swarm_ops \<Rightarrow> 'sw \<Rightarrow> net_config \<Rightarrow> 'sw" where
  "add_bootstrap S sw cfg =
     (let (sw, added) = fold (\<lambda>addr (sw, added).
            case peer_id_from_multiaddr addr of
              Some peer \<Rightarrow> (kad_add_address S sw peer addr, added + 1)
            | None \<Rightarrow> (sw, added)) (nc_bootstrap cfg) (sw, 0 :: nat)
      in if added > 0 then kad_bootstrap S sw else sw)"

definition reserve_relays :: "'sw swarm_ops \<Rightarrow> 'sw \<Rightarrow> net_config \<Rightarrow> 'sw" where
  "reserve_relays S sw cfg =
     fold (\<lambda>relay sw.
         let sw = (case peer_id_from_multiaddr relay of
                Some peer \<Rightarrow> kad_add_address S sw peer relay
              | None \<Rightarrow> sw);
             circuit = relay @ [P2pCircuit]
         in snd (swarm_listen_on S sw circuit))
       (nc_reserve_relays cfg) sw"

text \<open>
  \<^verbatim>\<open>SwarmBuilder\<close>'s stages, the key type and \<^verbatim>\<open>build\<close>: \<open>'kp\<close> is a key pair, \<open>'sb\<close> a builder, \<open>'o\<close> a
  libp2p object. \<open>sb_tcp\<close> takes the \<^verbatim>\<open>nodelay\<close> setting (noise and yamux are always the same),
  \<open>sb_relay_client\<close> hands out the relay client's behaviour, \<open>sb_build\<close> takes the behaviour and the idle
  connection timeout.
\<close>

record ('kp, 'sb, 'o, 'sw) swarm_builder =
  kp_ed25519_from_bytes :: "bytes \<Rightarrow> (string, 'kp) result"
  kp_public :: "'kp \<Rightarrow> bytes"
  pk_to_peer_id :: "bytes \<Rightarrow> peer_id"
  sb_with_identity :: "'kp \<Rightarrow> 'sb"
  sb_tcp :: "bool \<Rightarrow> 'sb \<Rightarrow> (anyhow, 'sb) result"
  sb_quic :: "'sb \<Rightarrow> 'sb"
  sb_dns :: "'sb \<Rightarrow> (anyhow, 'sb) result"
  sb_relay_client :: "'sb \<Rightarrow> (anyhow, 'o \<times> 'sb) result"
  sb_build :: "'sb \<Rightarrow> 'o behaviour \<Rightarrow> nat \<Rightarrow> 'sw"

definition keypair_from_secret ::
  "('kp, 'sb, 'o, 'sw) swarm_builder \<Rightarrow> bytes \<Rightarrow> (anyhow, 'kp) result" where
  "keypair_from_secret B secret =
     map_err (\<lambda>_. ''constructing libp2p ed25519 keypair from secret bytes'')
       (kp_ed25519_from_bytes B secret)"

text \<open>\<^verbatim>\<open>spawn\<close>: the node's peer id (which the handle carries) and the state its event loop starts in;
  \<open>None\<close> is the panic of \<open>Behaviour_new\<close>.\<close>

definition spawn ::
  "'o libp2p \<Rightarrow> string \<Rightarrow> ('kp, 'sb, 'o, 'sw) swarm_builder \<Rightarrow> 'sw swarm_ops \<Rightarrow> bytes \<Rightarrow> net_config
     \<Rightarrow> (anyhow, peer_id \<times> 'sw node) result option" where
  "spawn L pkg_version B S secret cfg =
     (case (tryq (keypair_from_secret B secret) (\<lambda>keypair.
            tryq (sb_tcp B True (sb_with_identity B keypair)) (\<lambda>sb.
            tryq (sb_dns B (sb_quic B sb)) (\<lambda>sb.
            tryq (sb_relay_client B sb) (\<lambda>(relay_client, sb).
            Ok (keypair, relay_client, sb)))))) of
        Err e \<Rightarrow> Some (Err e)
      | Ok (keypair, relay_client, sb) \<Rightarrow>
          let public = kp_public B keypair; peer_id = pk_to_peer_id B public
          in (case Behaviour_new L pkg_version peer_id public relay_client
                (nc_relay_server cfg) (nc_enable_mdns cfg) of
                None \<Rightarrow> None
              | Some behaviour \<Rightarrow> Some (
                  case start_listening S (sb_build B sb behaviour (from_secs 60)) cfg of
                    (Err e, _) \<Rightarrow> Err e
                  | (Ok _, sw) \<Rightarrow>
                      let sw = add_bootstrap S sw cfg;
                          sw = reserve_relays S sw cfg
                      in Ok (peer_id, \<lparr>nd_swarm = sw, pending_put = Map.empty,
                           pending_get = Map.empty, external_addrs = [], rtt = Map.empty\<rparr>))))"

section \<open>Handlers\<close>

definition validate_inbound_record ::
  "'a externs_scheme \<Rightarrow> kad_record \<Rightarrow> signed_record option" where
  "validate_inbound_record X record =
     (if length (kr_key record) \<noteq> 32 then None
      else case ok_opt (Record_from_bytes X (kr_value record)) of
             None \<Rightarrow> None
           | Some r \<Rightarrow> if authorizes_storage_key X r (kr_key record) then Some r else None)"

definition is_newer_than_stored ::
  "'a externs_scheme \<Rightarrow> 'sw swarm_ops \<Rightarrow> 'sw \<Rightarrow> bytes \<Rightarrow> u64 \<Rightarrow> bool" where
  "is_newer_than_stored X S sw key ts =
     (case store_get S sw key of
        Some existing \<Rightarrow>
          (case Record_from_bytes X (kr_value existing) of
             Ok r \<Rightarrow> ts > body_ts (rec_body r)
           | Err _ \<Rightarrow> True)
      | None \<Rightarrow> True)"

definition handle_command ::
  "'a externs_scheme \<Rightarrow> 'sw swarm_ops \<Rightarrow> clock \<Rightarrow> 'sw node \<Rightarrow> command
     \<Rightarrow> 'sw node \<times> reply list" where
  "handle_command X S clk nd cmd =
     (case cmd of
        PutRecord key val resp \<Rightarrow>
          let expires = map_option (\<lambda>r. mono_now clk + from_secs (unat (body_ttl (rec_body r))))
                (ok_opt (Record_from_bytes X val));
              record = \<lparr>kr_key = key, kr_value = val, kr_publisher = None, kr_expires = expires\<rparr>
          in (case kad_put_record S (nd_swarm nd) record of
                (Ok qid, sw) \<Rightarrow>
                  (nd\<lparr>nd_swarm := sw, pending_put := (pending_put nd)(qid \<mapsto> resp)\<rparr>, [])
              | (Err e, sw) \<Rightarrow>
                  (nd\<lparr>nd_swarm := sw\<rparr>, [PutReply resp (Err (''put_record failed: '' @ e))]))
      | GetRecord key resp \<Rightarrow>
          (case kad_get_record S (nd_swarm nd) key of
             (qid, sw) \<Rightarrow>
               (nd\<lparr>nd_swarm := sw, pending_get := (pending_get nd)(qid \<mapsto> (resp, []))\<rparr>, []))
      | Dial addr resp \<Rightarrow>
          (case swarm_dial S (nd_swarm nd) addr of
             (r, sw) \<Rightarrow>
               (nd\<lparr>nd_swarm := sw\<rparr>, [DialReply resp (map_err (\<lambda>e. ''dial failed: '' @ e) r)]))
      | Doctor resp \<Rightarrow>
          let sw = nd_swarm nd;
              info = \<lparr>di_peer_id = swarm_local_peer S sw,
                di_listen_addrs = map (multiaddr_to_string S) (swarm_listeners S sw),
                di_external_addrs = map (multiaddr_to_string S) (external_addrs nd),
                di_connected_peers = swarm_connected_peers S sw,
                di_nat_status = swarm_nat_status S sw\<rparr>
          in (nd, [DoctorReply resp info]))"

definition handle_kad_result ::
  "'sw node \<Rightarrow> query_id \<Rightarrow> query_result \<Rightarrow> 'sw node \<times> reply list" where
  "handle_kad_result nd i result =
     (case result of
        QPutRecord res \<Rightarrow>
          (case pending_put nd i of
             Some resp \<Rightarrow>
               (nd\<lparr>pending_put := (pending_put nd)(i := None)\<rparr>,
                [PutReply resp (map_err (\<lambda>e. ''put failed: '' @ e) res)])
           | None \<Rightarrow> (nd, []))
      | QFoundRecord record \<Rightarrow>
          if length (kr_value record) \<le> MAX_RECORD_BYTES then
            (case pending_get nd i of
               Some (resp, acc) \<Rightarrow>
                 (nd\<lparr>pending_get := (pending_get nd)(i \<mapsto> (resp, acc @ [kr_value record]))\<rparr>, [])
             | None \<Rightarrow> (nd, []))
          else (nd, [])
      | QFinishedWithNoAdditionalRecord \<Rightarrow>
          (case pending_get nd i of
             Some (resp, acc) \<Rightarrow>
               (nd\<lparr>pending_get := (pending_get nd)(i := None)\<rparr>, [GetReply resp (Ok acc)])
           | None \<Rightarrow> (nd, []))
      | QGetRecordErr e \<Rightarrow>
          (case pending_get nd i of
             Some (resp, acc) \<Rightarrow>
               (nd\<lparr>pending_get := (pending_get nd)(i := None)\<rparr>, [GetReply resp (Ok acc)])
           | None \<Rightarrow> (nd, []))
      | QOther \<Rightarrow> (nd, []))"

text \<open>The arm of \<^verbatim>\<open>handle_event\<close> for an inbound \<^verbatim>\<open>PutRecord\<close> request, on the swarm.\<close>

definition handle_inbound_put ::
  "'a externs_scheme \<Rightarrow> 'sw swarm_ops \<Rightarrow> clock \<Rightarrow> 'sw \<Rightarrow> kad_record \<Rightarrow> 'sw" where
  "handle_inbound_put X S clk sw record =
     (case validate_inbound_record X record of
        Some r \<Rightarrow>
          if body_ts (rec_body r) > saturating_add (wall_secs clk) MAX_FUTURE_SKEW then sw
          else if is_newer_than_stored X S sw (kr_key record) (body_ts (rec_body r)) then
            store_put S sw
              (record\<lparr>kr_expires := Some (mono_now clk + from_secs (unat (body_ttl (rec_body r))))\<rparr>)
          else sw
      | None \<Rightarrow> sw)"

definition handle_event ::
  "'a externs_scheme \<Rightarrow> 'sw swarm_ops \<Rightarrow> clock \<Rightarrow> 'sw node \<Rightarrow> event
     \<Rightarrow> 'sw node \<times> reply list" where
  "handle_event X S clk nd ev =
     (case ev of
        NewListenAddr address \<Rightarrow> (nd, [])
      | PingOk peer rtt_dur \<Rightarrow>
          (nd\<lparr>rtt := (rtt nd)(peer \<mapsto> word_of_nat (rtt_dur div 1000000))\<rparr>, [])
      | ConnectionClosed peer num_established \<Rightarrow>
          if num_established = 0 then (nd\<lparr>rtt := (rtt nd)(peer := None)\<rparr>, []) else (nd, [])
      | ExternalAddrConfirmed address \<Rightarrow>
          if address \<notin> set (external_addrs nd)
          then (nd\<lparr>external_addrs := external_addrs nd @ [address]\<rparr>, []) else (nd, [])
      | ReservationReqAccepted peer \<Rightarrow> (nd, [])
      | DcutrEvent peer \<Rightarrow> (nd, [])
      | IdentifyReceived peer addrs \<Rightarrow>
          (nd\<lparr>nd_swarm := fold (\<lambda>addr sw. kad_add_address S sw peer addr) addrs (nd_swarm nd)\<rparr>, [])
      | MdnsDiscovered list \<Rightarrow>
          (nd\<lparr>nd_swarm := fold (\<lambda>(peer, addr) sw.
              snd (swarm_dial S (kad_add_address S sw peer addr) addr)) list (nd_swarm nd)\<rparr>, [])
      | KadQueryProgressed i result \<Rightarrow> handle_kad_result nd i result
      | KadInboundPutRecord record \<Rightarrow>
          (nd\<lparr>nd_swarm := handle_inbound_put X S clk (nd_swarm nd) record\<rparr>, [])
      | OtherEvent \<Rightarrow> (nd, []))"

section \<open>The loop\<close>

text \<open>One input of \<^verbatim>\<open>tokio::select!\<close>: a command or the closing of the command channel, an event
  of the swarm, or a step the swarm takes by itself while it is polled.\<close>

datatype 'sw node_input = Command command | Closed | Event event | SwarmPolled 'sw

fun event_loop ::
  "'a externs_scheme \<Rightarrow> 'sw swarm_ops \<Rightarrow> 'sw node \<Rightarrow> (clock \<times> 'sw node_input) list
     \<Rightarrow> 'sw node \<times> reply list" where
  "event_loop X S nd [] = (nd, [])"
| "event_loop X S nd ((clk, Command c) # is) =
     (let (nd', out) = handle_command X S clk nd c; (nd'', outs) = event_loop X S nd' is
      in (nd'', out @ outs))"
| "event_loop X S nd ((clk, Closed) # is) = (nd, [])"
| "event_loop X S nd ((clk, Event e) # is) =
     (let (nd', out) = handle_event X S clk nd e; (nd'', outs) = event_loop X S nd' is
      in (nd'', out @ outs))"
| "event_loop X S nd ((clk, SwarmPolled sw) # is) = event_loop X S (nd\<lparr>nd_swarm := sw\<rparr>) is"

text \<open>The error of a request when the task is gone.\<close>

definition closed :: anyhow where
  "closed = ''network task has shut down''"

section \<open>A concrete swarm\<close>

text \<open>
  A swarm with a query counter and a map as its store, to evaluate the model with: its queries
  get fresh identifiers, its puts succeed.
\<close>

type_synonym demo_sw = "nat \<times> (bytes \<rightharpoonup> kad_record)"

definition demo_swarm :: "demo_sw swarm_ops" where
  "demo_swarm = \<lparr>
     kad_put_record = (\<lambda>(n, st) r. (Ok n, (n + 1, st(kr_key r \<mapsto> r)))),
     kad_get_record = (\<lambda>(n, st) k. (n, (n + 1, st))),
     kad_add_address = (\<lambda>sw p a. sw),
     kad_bootstrap = (\<lambda>sw. sw),
     store_get = (\<lambda>(n, st) k. st k),
     store_put = (\<lambda>(n, st) r. (n, st(kr_key r \<mapsto> r))),
     swarm_dial = (\<lambda>sw a. (Ok (), sw)),
     swarm_listen_on = (\<lambda>sw a. (Ok (), sw)),
     swarm_listeners = (\<lambda>sw. []),
     swarm_local_peer = (\<lambda>sw. ''12D3''),
     swarm_connected_peers = (\<lambda>sw. 0),
     swarm_nat_status = (\<lambda>sw. ''Unknown''),
     multiaddr_parse = (\<lambda>s. Ok [OtherProtocol s]),
     multiaddr_to_string = (\<lambda>a. concat (map (\<lambda>p. case p of OtherProtocol s \<Rightarrow> s
       | P2p i \<Rightarrow> ''/p2p/'' @ i | P2pCircuit \<Rightarrow> ''/p2p-circuit'') a))\<rparr>"

definition demo_clock :: "u64 \<Rightarrow> clock" where
  "demo_clock t = \<lparr>wall_secs = t, mono_now = 5000000000\<rparr>"

definition demo_put :: "u64 \<Rightarrow> kad_record" where
  "demo_put t = \<lparr>kr_key = dht_key demo_externs demo_keyid,
     kr_value = Record_to_bytes demo_externs (demo_record t),
     kr_publisher = None, kr_expires = None\<rparr>"

end
