(* ===== verification/Net_Lib.thy ===== *)
theory Net_Lib
  imports Net_Node
begin

text \<open>
  \<^verbatim>\<open>crates/net/src/lib.rs\<close>: the two conversions the rest of the program uses. libp2p's key type is
  the parameter \<open>ed25519_peer\<close> (\<^verbatim>\<open>PublicKey::try_from_bytes\<close> followed by \<^verbatim>\<open>to_peer_id\<close>), its address
  parser the parameter \<open>from_str\<close>. In the error of \<open>parse_multiaddr\<close> the text is quoted; the
  escapes of \<^verbatim>\<open>{:?}\<close> inside it are left out.
\<close>

definition peer_id_from_ed25519 ::
  "(bytes \<Rightarrow> (string, peer_id) result) \<Rightarrow> bytes \<Rightarrow> (anyhow, peer_id) result" where
  "peer_id_from_ed25519 ed25519_peer pubkey =
     map_err (\<lambda>e. ''invalid ed25519 public key: '' @ e) (ed25519_peer pubkey)"

definition parse_multiaddr ::
  "(string \<Rightarrow> (string, multiaddr) result) \<Rightarrow> string \<Rightarrow> (anyhow, multiaddr) result" where
  "parse_multiaddr from_str s =
     map_err (\<lambda>e. ''invalid multiaddr '' @ [CHR 0x22] @ s @ [CHR 0x22] @ '': '' @ e) (from_str s)"

end
