(* ===== verification/Net_Storage.thy ===== *)
theory Net_Storage
  imports Net_Node
begin

text \<open>
  What the DHT store of a node holds after inbound \<^verbatim>\<open>PutRecord\<close> requests
  (\<^verbatim>\<open>handle_event\<close>, \<^verbatim>\<open>validate_inbound_record\<close>, \<^verbatim>\<open>is_newer_than_stored\<close> of
  \<^verbatim>\<open>crates/net/src/node.rs\<close>): only records their key owner authorised, never an older one than
  before, and the newest one whatever the order of arrival. The store itself is libp2p's; its
  documented behaviour is a hypothesis.
\<close>

section \<open>The documented behaviour of the store\<close>

text \<open>Whether or not a put succeeds (the store may be full), it changes at most the slot of
  its own key, and only to the record put.\<close>

definition store_frame :: "'sw swarm_ops \<Rightarrow> bool" where
  "store_frame S \<longleftrightarrow>
     (\<forall>sw r k. store_get S (store_put S sw r) k = store_get S sw k \<or>
        k = kr_key r \<and> store_get S (store_put S sw r) k = Some r)"

text \<open>The store has room for a record under the key \<open>k\<close>. (libp2p's \<^verbatim>\<open>MemoryStore\<close> takes a limited number of
  keys, so this holds in a state in which the key is there or the limit is not reached; records
  that parse are far below its limit for values.)\<close>

definition store_room :: "'sw swarm_ops \<Rightarrow> 'sw \<Rightarrow> bytes \<Rightarrow> bool" where
  "store_room S sw k \<longleftrightarrow>
     (\<forall>r. kr_key r = k \<and> length (kr_value r) \<le> MAX_RECORD_BYTES \<longrightarrow>
        store_get S (store_put S sw r) k = Some r)"

text \<open>Learning addresses and dialling do not touch the store.\<close>

definition store_untouched :: "'sw swarm_ops \<Rightarrow> bool" where
  "store_untouched S \<longleftrightarrow>
     (\<forall>sw p a. store_get S (kad_add_address S sw p a) = store_get S sw) \<and>
     (\<forall>sw a. store_get S (snd (swarm_dial S sw a)) = store_get S sw)"

section \<open>Abstraction: one timestamp per key\<close>

definition slot_ts :: "'a externs_scheme \<Rightarrow> 'sw swarm_ops \<Rightarrow> bytes \<Rightarrow> 'sw \<Rightarrow> u64 option" where
  "slot_ts X S k sw =
     (case store_get S sw k of
        None \<Rightarrow> None
      | Some e \<Rightarrow> map_option (\<lambda>r. body_ts (rec_body r)) (ok_opt (Record_from_bytes X (kr_value e))))"

text \<open>The stamp of an inbound request for the slot \<open>k\<close>: its timestamp if the node accepts it.\<close>

definition inbound_stamp ::
  "'a externs_scheme \<Rightarrow> bytes \<Rightarrow> clock \<times> kad_record \<Rightarrow> u64 option" where
  "inbound_stamp X k m =
     (case validate_inbound_record X (snd m) of
        None \<Rightarrow> None
      | Some r \<Rightarrow>
          if kr_key (snd m) = k \<and>
            body_ts (rec_body r) \<le> saturating_add (wall_secs (fst m)) MAX_FUTURE_SKEW
          then Some (body_ts (rec_body r)) else None)"

abbreviation inbound ::
  "'a externs_scheme \<Rightarrow> 'sw swarm_ops \<Rightarrow> 'sw \<Rightarrow> clock \<times> kad_record \<Rightarrow> 'sw" where
  "inbound X S sw m \<equiv> handle_inbound_put X S (fst m) sw (snd m)"

lemma is_newer_iff: "is_newer_than_stored X S sw k t \<longleftrightarrow> slot_ts X S k sw < Some t"
  by (auto simp: is_newer_than_stored_def slot_ts_def split: option.split sum.split)

lemma validate_inbound_record_Some_iff:
  "validate_inbound_record X rc = Some r \<longleftrightarrow>
     length (kr_key rc) = 32 \<and> Record_from_bytes X (kr_value rc) = Ok r \<and>
     authorizes_storage_key X r (kr_key rc)"
  by (auto simp: validate_inbound_record_def split: option.splits if_splits)

lemma Record_from_bytes_size: "Record_from_bytes X bs = Ok r \<Longrightarrow> length bs \<le> MAX_RECORD_BYTES"
  by (auto simp: Record_from_bytes_def split: if_splits)

lemma handle_inbound_put_cases:
  "handle_inbound_put X S clk sw rc =
     (case inbound_stamp X (kr_key rc) (clk, rc) of
        None \<Rightarrow> sw
      | Some t \<Rightarrow>
          if slot_ts X S (kr_key rc) sw < Some t
          then store_put S sw (rc\<lparr>kr_expires := Some (mono_now clk + from_secs (unat
            (body_ttl (rec_body (the (validate_inbound_record X rc))))))\<rparr>)
          else sw)"
  by (auto simp: handle_inbound_put_def inbound_stamp_def is_newer_iff split: option.split)

lemma inbound_stamp_key: "inbound_stamp X k m = Some t \<Longrightarrow> kr_key (snd m) = k"
  by (auto simp: inbound_stamp_def split: option.splits if_splits)

lemma inbound_stamp_parse:
  assumes "inbound_stamp X k (clk, rc) = Some t"
  obtains r where "Record_from_bytes X (kr_value rc) = Ok r" "body_ts (rec_body r) = t"
    "authorizes_storage_key X r k" "length k = 32" "validate_inbound_record X rc = Some r"
  using assms
  by (auto simp: inbound_stamp_def validate_inbound_record_Some_iff split: option.splits if_splits)

text \<open>A put under \<open>k\<close> into a store with room for it acts on every slot as a newest-wins register.\<close>

lemma inbound_slot_max:
  assumes "store_frame S" and "kr_key rc = k \<longrightarrow> store_room S sw k"
  shows "slot_ts X S k (handle_inbound_put X S clk sw rc) =
    max (slot_ts X S k sw) (inbound_stamp X k (clk, rc))"
proof (cases "inbound_stamp X (kr_key rc) (clk, rc)")
  case None
  then have "inbound_stamp X k (clk, rc) = None"
    by (metis inbound_stamp_key option.exhaust snd_conv)
  with None show ?thesis
    by (auto simp: handle_inbound_put_cases max_def dest: less_eq_option_None_is_None)
next
  case (Some t)
  then obtain r where r: "Record_from_bytes X (kr_value rc) = Ok r" "body_ts (rec_body r) = t"
    by (rule inbound_stamp_parse)
  show ?thesis
  proof (cases "kr_key rc = k")
    case True
    have "store_get S (store_put S sw (rc\<lparr>kr_expires := e\<rparr>)) k = Some (rc\<lparr>kr_expires := e\<rparr>)" for e
      using True assms(2) Record_from_bytes_size [OF r(1)] by (simp add: store_room_def)
    with Some r True show ?thesis
      by (auto simp: handle_inbound_put_cases slot_ts_def max_def)
  next
    case False
    then have "store_get S (store_put S sw (rc\<lparr>kr_expires := e\<rparr>)) k = store_get S sw k" for e
      using assms(1) [unfolded store_frame_def, rule_format, of sw "rc\<lparr>kr_expires := e\<rparr>" k] by auto
    moreover have "inbound_stamp X k (clk, rc) = None"
      using False inbound_stamp_key [of X k "(clk, rc)"] by (cases "inbound_stamp X k (clk, rc)") auto
    ultimately show ?thesis
      by (auto simp: handle_inbound_put_cases slot_ts_def max_def Some
          dest: less_eq_option_None_is_None)
  qed
qed

section \<open>A node over time\<close>

text \<open>What happens to the slot \<open>k\<close> of a node while its store has room for \<open>k\<close> and drops nothing from it:
  inbound puts, each at the node's own clock, and anything else that leaves the slot alone (puts of
  other records, polls, commands).\<close>

inductive storage_step ::
  "'a externs_scheme \<Rightarrow> 'sw swarm_ops \<Rightarrow> bytes \<Rightarrow> 'sw \<Rightarrow> (clock \<times> kad_record) option \<Rightarrow> 'sw \<Rightarrow> bool"
  for X S k where
  storage_put: "kr_key rc = k \<longrightarrow> store_room S sw k \<Longrightarrow>
     storage_step X S k sw (Some (clk, rc)) (handle_inbound_put X S clk sw rc)"
| storage_other: "store_get S sw' k = store_get S sw k \<Longrightarrow> storage_step X S k sw None sw'"

lemma storage_register:
  assumes "store_frame S"
  shows "newest_register (storage_step X S k) (\<lambda>m. Option.bind m (inbound_stamp X k)) (slot_ts X S k)"
proof
  fix sw m sw'
  assume "storage_step X S k sw m sw'"
  then show "slot_ts X S k sw' = max (slot_ts X S k sw) (Option.bind m (inbound_stamp X k))"
  proof cases
    case storage_other
    then have "slot_ts X S k sw' = slot_ts X S k sw" by (simp add: slot_ts_def)
    with storage_other show ?thesis by (auto simp: max_def dest: less_eq_option_None_is_None)
  qed (simp add: inbound_slot_max [OF assms])
qed

text \<open>The records put to a node, and those among them dated too far ahead of its clock.\<close>

definition received :: "(clock \<times> kad_record) option list \<Rightarrow> kad_record set" where
  "received ms = {rc. \<exists>clk. Some (clk, rc) \<in> set ms}"

definition none_ahead :: "'a externs_scheme \<Rightarrow> (clock \<times> kad_record) option list \<Rightarrow> bool" where
  "none_ahead X ms \<longleftrightarrow>
     (\<forall>clk rc r. Some (clk, rc) \<in> set ms \<longrightarrow> validate_inbound_record X rc = Some r \<longrightarrow>
        rec_ts r \<le> saturating_add (wall_secs clk) MAX_FUTURE_SKEW)"

text \<open>The timestamps the valid ones among some records have for the key \<open>k\<close>.\<close>

definition stamps :: "'a externs_scheme \<Rightarrow> bytes \<Rightarrow> kad_record set \<Rightarrow> u64 option set" where
  "stamps X k rcs = {Some (rec_ts r) | rc r. rc \<in> rcs \<and> kr_key rc = k \<and> validate_inbound_record X rc = Some r}"

lemma inbound_stamps:
  assumes "none_ahead X ms"
  shows "insert None ((\<lambda>m. Option.bind m (inbound_stamp X k)) ` set ms) = insert None (stamps X k (received ms))"
    (is "insert None (?f ` _) = _")
proof -
  have "?f ` set ms \<subseteq> insert None (stamps X k (received ms))"
  proof (rule image_subsetI)
    fix m
    assume m: "m \<in> set ms"
    show "?f m \<in> insert None (stamps X k (received ms))"
    proof (cases m)
      case (Some p)
      then show ?thesis
        using m by (cases p) (auto simp: inbound_stamp_def stamps_def received_def split: option.splits)
    qed simp
  qed
  moreover have "stamps X k (received ms) \<subseteq> ?f ` set ms"
  proof
    fix t
    assume "t \<in> stamps X k (received ms)"
    then obtain clk rc r where "Some (clk, rc) \<in> set ms" "kr_key rc = k" "validate_inbound_record X rc = Some r"
      "t = Some (rec_ts r)"
      by (auto simp: stamps_def received_def)
    then show "t \<in> ?f ` set ms"
      using assms by (intro image_eqI [of _ _ "Some (clk, rc)"]) (auto simp: inbound_stamp_def none_ahead_def)
  qed
  ultimately show ?thesis by auto
qed

lemma storage_run:
  assumes "store_frame S" and "trace (storage_step X S k) sw ms sw'" and "none_ahead X ms"
  shows "slot_ts X S k sw' = Max (insert (slot_ts X S k sw) (insert None (stamps X k (received ms))))"
proof -
  let ?F = "(\<lambda>m. Option.bind m (inbound_stamp X k)) ` set ms"
  have "slot_ts X S k sw' = Max (insert (slot_ts X S k sw) ?F)"
    by (rule newest_register.slot_trace [OF storage_register [OF assms(1)] assms(2)])
  also have "\<dots> = Max (insert (slot_ts X S k sw) (insert None ?F))"
    by (cases "?F = {}") (auto simp: max_def dest: less_eq_option_None_is_None)
  finally show ?thesis by (simp only: inbound_stamps [OF assms(3)])
qed

section \<open>The instance\<close>

lemma demo_store_laws: "store_frame demo_swarm" "store_untouched demo_swarm" "store_room demo_swarm sw k"
  by (auto simp: store_frame_def store_untouched_def store_room_def demo_swarm_def split: prod.splits)

lemma demo_put_validates: "validate_inbound_record demo_externs (demo_put t) = Some (demo_record t)"
proof -
  have "length demo_keyid = 26"
    unfolding demo_keyid_def by (rule keyid_from_pubkey_wf(2) [OF demo_externs_laws(1,2)]) auto
  then have "demo_keyid \<noteq> []" by auto
  then have "authorizes_storage_key demo_externs (demo_record t) (dht_key demo_externs demo_keyid)"
    using demo_record_valid demo_keyid_prefix by (auto simp: authorizes_storage_key_iff)
  moreover have "length (dht_key demo_externs demo_keyid) = 32"
    using demo_externs_laws(1) by (simp add: dht_key_def sha256_law_def)
  ultimately show ?thesis
    by (simp add: validate_inbound_record_Some_iff demo_put_def demo_record_wire)
qed

lemma demo_put_stamp:
  assumes "t \<le> saturating_add now 600"
  shows "inbound_stamp demo_externs (dht_key demo_externs demo_keyid) (demo_clock now, demo_put t) = Some t"
  using assms demo_put_validates [of t]
  by (simp add: inbound_stamp_def demo_clock_def MAX_FUTURE_SKEW_def) (simp add: demo_put_def)

section \<open>Properties\<close>

text \<open>C5. Refinement: when the store has room for the key put, an inbound put acts on the timestamp held under
  every key as the abstract register that keeps the maximum of what it holds and of the
  timestamp of an accepted record, and ignores a rejected one.\<close>

theorem inbound_put_refines_register:
  assumes "store_frame S" and "store_room S sw (kr_key rc)"
  shows "slot_ts X S k (handle_inbound_put X S clk sw rc) =
    max (slot_ts X S k sw) (inbound_stamp X k (clk, rc))"
  by (rule inbound_slot_max [OF assms(1)]) (use assms(2) in auto)

theorem inbound_put_refines_register_witness:
  "slot_ts demo_externs demo_swarm (dht_key demo_externs demo_keyid)
     (handle_inbound_put demo_externs demo_swarm (demo_clock 1900000000) (0, Map.empty)
       (demo_put 1900000000)) = Some 1900000000"
proof -
  have "inbound_stamp demo_externs (dht_key demo_externs demo_keyid)
      (demo_clock 1900000000, demo_put 1900000000) = Some 1900000000"
    by (rule demo_put_stamp) (simp add: saturating_add_def)
  then show ?thesis
    using inbound_put_refines_register [OF demo_store_laws(1,3), of demo_externs
        "dht_key demo_externs demo_keyid" "demo_clock 1900000000" "(0, Map.empty)" "demo_put 1900000000"]
    by (simp add: slot_ts_def demo_swarm_def)
qed

text \<open>C26. Convergence: two storage nodes that hold the same timestamp under a key and receive the same inbound
  puts, in any order, with any repetitions, each at its own clock and with any other activity in
  between, hold the same timestamp afterwards, the maximum of the old one and of those of all valid records for
  the key. It is assumed that both stores have room for the key and drop nothing from it meanwhile (no
  record expires), and that no valid record is dated more than 600 seconds ahead of the clock of a
  node that receives it.\<close>

theorem inbound_puts_converge:
  assumes "store_frame S" and "trace (storage_step X S k) sw1 ms1 sw1'" and "trace (storage_step X S k) sw2 ms2 sw2'"
    and "received ms1 = received ms2" and "none_ahead X ms1" and "none_ahead X ms2"
    and "slot_ts X S k sw1 = slot_ts X S k sw2"
  shows "slot_ts X S k sw1' = slot_ts X S k sw2' \<and>
    slot_ts X S k sw1' = Max (insert (slot_ts X S k sw1) (insert None (stamps X k (received ms1))))"
  using storage_run [OF assms(1,2,5)] storage_run [OF assms(1,3,6)] assms(4,7) by simp

text \<open>Two nodes whose clocks differ by two minutes get two records in opposite orders.\<close>

definition demo_received :: "u64 \<Rightarrow> u64 list \<Rightarrow> (clock \<times> kad_record) option list" where
  "demo_received now ts = map (\<lambda>t. Some (demo_clock now, demo_put t)) ts"

lemma demo_storage_trace:
  "trace (storage_step demo_externs demo_swarm k) sw (demo_received now ts)
     (run (handle_inbound_put demo_externs demo_swarm (demo_clock now)) sw (map demo_put ts))"
proof (induction ts arbitrary: sw)
  case (Cons t ts)
  have "storage_step demo_externs demo_swarm k sw (Some (demo_clock now, demo_put t))
      (handle_inbound_put demo_externs demo_swarm (demo_clock now) sw (demo_put t))"
    by (rule storage_put) (simp add: demo_store_laws)
  from trace_Cons [OF this Cons] show ?case by (simp add: demo_received_def)
qed (simp add: demo_received_def)

lemma demo_received_stamps:
  "received (demo_received now ts) = demo_put ` set ts"
  "stamps demo_externs (dht_key demo_externs demo_keyid) (demo_put ` T) = Some ` T"
proof -
  have "rec_ts (demo_record t) = t" for t by (simp add: demo_record_def Record_sign_def)
  moreover have "kr_key (demo_put t) = dht_key demo_externs demo_keyid" for t by (simp add: demo_put_def)
  ultimately show "stamps demo_externs (dht_key demo_externs demo_keyid) (demo_put ` T) = Some ` T"
    by (force simp: stamps_def demo_put_validates)
qed (auto simp: received_def demo_received_def)

theorem inbound_puts_converge_witness:
  "\<exists>sw1 sw2 k. k = dht_key demo_externs demo_keyid \<and>
     trace (storage_step demo_externs demo_swarm k) (0, Map.empty) (demo_received 1900000000 [1900000000, 1899999900]) sw1 \<and>
     trace (storage_step demo_externs demo_swarm k) (0, Map.empty) (demo_received 1900000120 [1899999900, 1900000000]) sw2 \<and>
     slot_ts demo_externs demo_swarm k sw1 = Some 1900000000 \<and> slot_ts demo_externs demo_swarm k sw2 = Some 1900000000"
proof -
  let ?k = "dht_key demo_externs demo_keyid"
  have ts: "rec_ts (demo_record t) = t" for t by (simp add: demo_record_def Record_sign_def)
  have "none_ahead demo_externs (demo_received 1900000000 [1900000000, 1899999900])"
    and "none_ahead demo_externs (demo_received 1900000120 [1899999900, 1900000000])"
    by (auto simp: none_ahead_def demo_received_def demo_put_validates ts demo_clock_def
        saturating_add_def MAX_FUTURE_SKEW_def)
  moreover have "slot_ts demo_externs demo_swarm ?k (0, Map.empty) = None"
    by (simp add: slot_ts_def demo_swarm_def)
  moreover have "demo_put ` set [1900000000, 1899999900] = demo_put ` set [1899999900, 1900000000]" by auto
  moreover obtain sw1 sw2 where
    t: "trace (storage_step demo_externs demo_swarm ?k) (0, Map.empty) (demo_received 1900000000 [1900000000, 1899999900]) sw1"
      "trace (storage_step demo_externs demo_swarm ?k) (0, Map.empty) (demo_received 1900000120 [1899999900, 1900000000]) sw2"
    using demo_storage_trace by blast
  ultimately have "slot_ts demo_externs demo_swarm ?k sw1 = Some 1900000000 \<and>
      slot_ts demo_externs demo_swarm ?k sw2 = Some 1900000000"
    using inbound_puts_converge [OF demo_store_laws(1) t, unfolded demo_received_stamps]
    by (auto simp: max_def)
  with t show ?thesis by blast
qed

text \<open>What a node may hold: under a 32-byte key, a record filed under that key that parses and
  whose signer's public key maps to it.\<close>

definition store_authorised :: "'a externs_scheme \<Rightarrow> 'sw swarm_ops \<Rightarrow> 'sw \<Rightarrow> bool" where
  "store_authorised X S sw \<longleftrightarrow>
     (\<forall>k e. store_get S sw k = Some e \<longrightarrow> kr_key e = k \<and> length k = 32 \<and>
        (\<exists>r. Record_from_bytes X (kr_value e) = Ok r \<and> authorizes_storage_key X r k))"

lemma handle_inbound_put_slot:
  assumes "store_frame S"
  shows "store_get S (handle_inbound_put X S clk sw rc) k = store_get S sw k \<or>
    (\<exists>t e. k = kr_key rc \<and> inbound_stamp X k (clk, rc) = Some t \<and> slot_ts X S k sw < Some t \<and>
       store_get S (handle_inbound_put X S clk sw rc) k = Some (rc\<lparr>kr_expires := e\<rparr>))"
proof -
  have "store_get S (store_put S sw (rc\<lparr>kr_expires := e\<rparr>)) k = store_get S sw k \<or>
      k = kr_key rc \<and> store_get S (store_put S sw (rc\<lparr>kr_expires := e\<rparr>)) k =
        Some (rc\<lparr>kr_expires := e\<rparr>)" for e
    using assms [unfolded store_frame_def, rule_format, of sw "rc\<lparr>kr_expires := e\<rparr>" k] by simp
  then show ?thesis
    by (auto simp: handle_inbound_put_cases split: option.splits)
qed

lemma handle_inbound_put_authorised:
  assumes "store_frame S" and "store_authorised X S sw"
  shows "store_authorised X S (handle_inbound_put X S clk sw rc)"
  unfolding store_authorised_def
proof (intro allI impI)
  fix k e
  assume e: "store_get S (handle_inbound_put X S clk sw rc) k = Some e"
  show "kr_key e = k \<and> length k = 32 \<and>
      (\<exists>r. Record_from_bytes X (kr_value e) = Ok r \<and> authorizes_storage_key X r k)"
    using handle_inbound_put_slot [OF assms(1), of X clk sw rc k]
  proof
    assume "store_get S (handle_inbound_put X S clk sw rc) k = store_get S sw k"
    with e assms(2) show ?thesis by (auto simp: store_authorised_def)
  next
    assume "\<exists>t e. k = kr_key rc \<and> inbound_stamp X k (clk, rc) = Some t \<and> slot_ts X S k sw < Some t \<and>
       store_get S (handle_inbound_put X S clk sw rc) k = Some (rc\<lparr>kr_expires := e\<rparr>)"
    with e show ?thesis by (auto elim!: inbound_stamp_parse)
  qed
qed

lemma handle_inbound_put_slot_ts_mono:
  assumes "store_frame S"
  shows "slot_ts X S k sw \<le> slot_ts X S k (handle_inbound_put X S clk sw rc)"
  using handle_inbound_put_slot [OF assms, of X clk sw rc k]
proof
  assume "store_get S (handle_inbound_put X S clk sw rc) k = store_get S sw k"
  then show ?thesis by (simp add: slot_ts_def)
next
  assume "\<exists>t e. k = kr_key rc \<and> inbound_stamp X k (clk, rc) = Some t \<and> slot_ts X S k sw < Some t \<and>
       store_get S (handle_inbound_put X S clk sw rc) k = Some (rc\<lparr>kr_expires := e\<rparr>)"
  then obtain t e where t: "inbound_stamp X k (clk, rc) = Some t" "slot_ts X S k sw < Some t"
    and e: "store_get S (handle_inbound_put X S clk sw rc) k = Some (rc\<lparr>kr_expires := e\<rparr>)"
    by blast
  from t(1) obtain r where "Record_from_bytes X (kr_value rc) = Ok r" "body_ts (rec_body r) = t"
    by (rule inbound_stamp_parse)
  with e have "slot_ts X S k (handle_inbound_put X S clk sw rc) = Some t"
    by (simp add: slot_ts_def)
  with t(2) show ?thesis by simp
qed

lemma handle_event_store:
  assumes "store_untouched S" and "\<And>rc. ev \<noteq> KadInboundPutRecord rc"
  shows "store_get S (nd_swarm (fst (handle_event X S clk nd ev))) = store_get S (nd_swarm nd)"
proof -
  have "store_get S (fold (\<lambda>addr sw. kad_add_address S sw p addr) as sw) = store_get S sw" for p as sw
    using assms(1) by (induction as arbitrary: sw) (auto simp: store_untouched_def)
  moreover have "store_get S (fold (\<lambda>(peer, addr) sw.
      snd (swarm_dial S (kad_add_address S sw peer addr) addr)) as sw) = store_get S sw" for as sw
    using assms(1) by (induction as arbitrary: sw) (auto simp: store_untouched_def)
  ultimately show ?thesis
    using assms(2)
    by (auto simp: handle_event_def handle_kad_result_def split: event.split query_result.split
        option.split)
qed

text \<open>Safety of the store: whatever event the network delivers, and whether or not a put
  fails, a node that held only authorised records still does, and the timestamp it holds
  under any key never goes down.\<close>

lemma handle_event_store_safe:
  assumes "store_frame S" and "store_untouched S" and "store_authorised X S (nd_swarm nd)"
  shows "store_authorised X S (nd_swarm (fst (handle_event X S clk nd ev))) \<and>
    slot_ts X S k (nd_swarm nd) \<le> slot_ts X S k (nd_swarm (fst (handle_event X S clk nd ev)))"
proof (cases "\<exists>rc. ev = KadInboundPutRecord rc")
  case True
  then show ?thesis
    using handle_inbound_put_authorised [OF assms(1,3)] handle_inbound_put_slot_ts_mono [OF assms(1)]
    by (auto simp: handle_event_def)
next
  case False
  then have "store_get S (nd_swarm (fst (handle_event X S clk nd ev))) = store_get S (nd_swarm nd)"
    using handle_event_store [OF assms(2)] by blast
  with assms(3) show ?thesis by (simp add: store_authorised_def slot_ts_def)
qed

definition demo_node :: "demo_sw node" where
  "demo_node = \<lparr>nd_swarm = (0, Map.empty), pending_put = Map.empty, pending_get = Map.empty,
     external_addrs = [], rtt = Map.empty\<rparr>"

text \<open>C4. No overwriting by third parties: if the name belongs to \<open>pk\<close>, its DHT key has no
  collision and \<open>pk\<close>'s signatures cannot be forged, then an inbound put of anything the owner
  did not sign leaves the node's slot for the name as it was.\<close>

theorem foreign_put_ignored:
  assumes "keyid_binds X kid pk" and "dht_key_distinct X kid" and "unforgeable X pk issued"
    and "store_frame S"
    and "\<And>r. Record_from_bytes X (kr_value rc) = Ok r \<Longrightarrow> canonical_bytes X (rec_body r) \<notin> issued"
  shows "store_get S (handle_inbound_put X S clk sw rc) (dht_key X kid) =
    store_get S sw (dht_key X kid)"
proof (rule ccontr)
  assume "store_get S (handle_inbound_put X S clk sw rc) (dht_key X kid) \<noteq> store_get S sw (dht_key X kid)"
  then obtain t where "inbound_stamp X (dht_key X kid) (clk, rc) = Some t"
    using handle_inbound_put_slot [OF assms(4), of X clk sw rc "dht_key X kid"] by blast
  then obtain r where r: "Record_from_bytes X (kr_value rc) = Ok r"
    "authorizes_storage_key X r (dht_key X kid)"
    by (rule inbound_stamp_parse)
  from authorizes_owner [OF assms(1-3) r(2)] assms(5) [OF r(1)] show False by blast
qed

theorem foreign_put_ignored_witness:
  "store_get demo_swarm (handle_inbound_put owner_externs demo_swarm (demo_clock 1900000000)
       (0, Map.empty) (demo_put 1899999900)) (dht_key owner_externs owner_keyid) = None"
proof -
  have body: "canonical_bytes owner_externs (rec_body (demo_record t)) =
      enc_fields (body_fields (demo_body\<lparr>body_ts := t\<rparr>))" for t
    by (simp add: canonical_bytes_def demo_record_def Record_sign_def)
  have "canonical_bytes owner_externs (rec_body (demo_record 1899999900)) \<notin> owner_issued"
  proof
    assume "canonical_bytes owner_externs (rec_body (demo_record 1899999900)) \<in> owner_issued"
    then have "dec_fields [] (enc_fields (body_fields (demo_body\<lparr>body_ts := 1899999900\<rparr>))) =
        dec_fields [] (enc_fields (body_fields (demo_body\<lparr>body_ts := 1900000000\<rparr>)))"
      by (simp add: owner_issued_def body)
    then have "body_of_fields (body_fields (demo_body\<lparr>body_ts := 1899999900\<rparr>)) =
        body_of_fields (body_fields (demo_body\<lparr>body_ts := 1900000000\<rparr>))"
      by (simp only: dec_enc_fields option.inject)
    then show False by (simp add: demo_body_def)
  qed
  then have "Record_from_bytes owner_externs (kr_value (demo_put 1899999900)) = Ok r \<Longrightarrow>
      canonical_bytes owner_externs (rec_body r) \<notin> owner_issued" for r
    by (auto simp: demo_put_def owner_codec demo_record_wire)
  from foreign_put_ignored [OF owner_assumptions demo_store_laws(1) this,
      where clk = "demo_clock 1900000000" and sw = "(0, Map.empty)"]
  show ?thesis by (simp add: demo_swarm_def)
qed

text \<open>C40. Replays and far-future records are dropped: a record no newer than the one held, or
  dated more than ten minutes ahead of the node's clock, leaves the store as it was. The
  bound saturates instead of wrapping around.\<close>

theorem stale_or_future_put_dropped:
  assumes "Record_from_bytes X (kr_value rc) = Ok r"
    and "Some (rec_ts r) \<le> slot_ts X S (kr_key rc) sw \<or>
      min (unat (wall_secs clk) + 600) (2 ^ 64 - 1) < unat (rec_ts r)"
  shows "handle_inbound_put X S clk sw rc = sw"
proof (cases "inbound_stamp X (kr_key rc) (clk, rc)")
  case None
  then show ?thesis by (simp add: handle_inbound_put_cases)
next
  case (Some t)
  then have "t = rec_ts r" and "t \<le> saturating_add (wall_secs clk) MAX_FUTURE_SKEW"
    using assms(1)
    by (auto simp: inbound_stamp_def validate_inbound_record_Some_iff split: option.splits if_splits)
  with assms(2) have "Some t \<le> slot_ts X S (kr_key rc) sw"
    by (auto simp: word_le_nat_alt unat_saturating_add MAX_FUTURE_SKEW_def)
  with Some show ?thesis by (auto simp: handle_inbound_put_cases not_less)
qed

theorem stale_or_future_put_dropped_witness:
  "handle_inbound_put demo_externs demo_swarm (demo_clock 1900000000) (0, Map.empty)
     (demo_put 1900000601) = (0, Map.empty)"
proof (rule stale_or_future_put_dropped [where r = "demo_record 1900000601"])
  show "Record_from_bytes demo_externs (kr_value (demo_put 1900000601)) = Ok (demo_record 1900000601)"
    by (simp add: demo_put_def demo_record_wire)
qed (simp add: demo_clock_def)

text \<open>The expiry a node gives a record counts from its arrival, not from its issue: a
  record that was issued longer ago than its whole lifetime is taken into an empty slot and
  kept for another full lifetime.\<close>

lemma expired_record_gets_full_ttl:
  assumes "store_room S sw (kr_key rc)"
    and "validate_inbound_record X rc = Some r" and "store_get S sw (kr_key rc) = None"
    and "unat (rec_ts r) + unat (body_ttl (rec_body r)) < unat (wall_secs clk)"
  shows "store_get S (handle_inbound_put X S clk sw rc) (kr_key rc) =
    Some (rc\<lparr>kr_expires := Some (mono_now clk + from_secs (unat (body_ttl (rec_body r))))\<rparr>)"
proof -
  have "\<not> saturating_add (wall_secs clk) MAX_FUTURE_SKEW < rec_ts r"
    using assms(4) unsigned_less [of "rec_ts r", where ?'a = nat]
    by (simp add: word_less_nat_alt unat_saturating_add MAX_FUTURE_SKEW_def)
  moreover have "is_newer_than_stored X S sw (kr_key rc) (rec_ts r)"
    using assms(3) by (simp add: is_newer_than_stored_def)
  ultimately show ?thesis
    using assms(1,2) Record_from_bytes_size [of X "kr_value rc" r] validate_inbound_record_Some_iff [of X rc r]
    by (simp add: handle_inbound_put_def store_room_def)
qed

lemma expired_record_gets_full_ttl_witness:
  "store_get demo_swarm (handle_inbound_put demo_externs demo_swarm (demo_clock 1900100000)
      (0, Map.empty) (demo_put 1900000000)) (kr_key (demo_put 1900000000)) =
   Some ((demo_put 1900000000)\<lparr>kr_expires := Some (5000000000 + from_secs 600)\<rparr>)"
proof -
  have "store_get demo_swarm (0, Map.empty) (kr_key (demo_put 1900000000)) = None"
    by (simp add: demo_swarm_def)
  moreover have ttl: "body_ttl (rec_body (demo_record 1900000000)) = 600"
    by (simp add: demo_record_def Record_sign_def demo_body_def)
  moreover have "unat (rec_ts (demo_record 1900000000)) +
      unat (body_ttl (rec_body (demo_record 1900000000))) < unat (wall_secs (demo_clock 1900100000))"
    by (simp add: ttl demo_clock_def)
  ultimately show ?thesis
    using expired_record_gets_full_ttl [OF demo_store_laws(3) demo_put_validates]
    by (simp add: demo_clock_def)
qed

end
