(* ===== verification/Cli_Tunnel.thy ===== *)
theory Cli_Tunnel
  imports Cli_Config Net_Lib Net_Storage
begin

text \<open>
  \<^verbatim>\<open>crates/cli/src/tunnel.rs\<close>: publishing, resolving and connecting. What these tasks see of the
  rest of the world (the network task behind \<^verbatim>\<open>NetHandle\<close>, the clocks, \<^verbatim>\<open>tokio::time::sleep\<close>) is an
  abstract state \<open>'e\<close> with the operations of the record \<open>net_env\<close>; a call may take time and
  fail. libp2p's parsers are fields of the same record. What the commands print, except
  for the JSON of \<^verbatim>\<open>doctor\<close>, is in \<open>Cli_Session\<close>.
\<close>

section \<open>The world as these tasks see it\<close>

record 'e net_env =
  ne_system_time :: "'e \<Rightarrow> int" \<comment> \<open>nanoseconds since the Unix epoch\<close>
  ne_mono :: "'e \<Rightarrow> instant"
  ne_sleep :: "nat \<Rightarrow> 'e \<Rightarrow> 'e" \<comment> \<open>nanoseconds\<close>
  ne_get_record :: "'e \<Rightarrow> bytes \<Rightarrow> (anyhow, bytes list) result \<times> 'e"
  ne_put_record :: "'e \<Rightarrow> bytes \<Rightarrow> bytes \<Rightarrow> (anyhow, unit) result \<times> 'e"
  ne_dial :: "'e \<Rightarrow> multiaddr \<Rightarrow> (anyhow, unit) result \<times> 'e"
  ne_doctor :: "'e \<Rightarrow> (anyhow, doctor_info) result \<times> 'e"
  ne_ed25519_peer :: "bytes \<Rightarrow> (string, peer_id) result"
  ne_multiaddr :: "string \<Rightarrow> (string, multiaddr) result"

definition RECORD_TTL :: u32 where
  "RECORD_TTL = 600"

definition MAX_SKEW :: u64 where
  "MAX_SKEW = 300"

definition RESOLVE_TIMEOUT :: nat where
  "RESOLVE_TIMEOUT = from_secs 45"

text \<open>A clock before the epoch reads as zero.\<close>

definition now_secs :: "'e net_env \<Rightarrow> 'e \<Rightarrow> u64" where
  "now_secs E e = (if ne_system_time E e < 0 then 0 else word_of_int (ne_system_time E e div 1000000000))"

section \<open>Configuration of the network\<close>

record net_opts =
  no_bootstrap :: "string list"
  no_relays :: "string list"
  no_use_ipfs_dht :: bool
  no_enable_mdns :: bool
  no_reserve :: bool
  no_relay_server :: bool

text \<open>\<^verbatim>\<open>iter().map(f).collect::<Result<Vec<_>>>()\<close> stops at the first error.\<close>

fun collect_results :: "('e, 'a) result list \<Rightarrow> ('e, 'a list) result" where
  "collect_results [] = Ok []"
| "collect_results (r # rs) = tryq r (\<lambda>x. tryq (collect_results rs) (\<lambda>xs. Ok (x # xs)))"

definition parse_addrs ::
  "(string \<Rightarrow> (string, multiaddr) result) \<Rightarrow> string list \<Rightarrow> (anyhow, multiaddr list) result" where
  "parse_addrs from_str strs = collect_results (map (parse_multiaddr from_str) strs)"

definition net_config_of ::
  "(string \<Rightarrow> (string, multiaddr) result) \<Rightarrow> net_opts \<Rightarrow> (anyhow, net_config) result" where
  "net_config_of from_str opts =
     tryq (parse_addrs from_str (no_bootstrap opts)) (\<lambda>bootstrap.
     tryq (if \<not> no_reserve opts then Ok []
           else if no_relays opts = [] then Ok bootstrap
           else parse_addrs from_str (no_relays opts)) (\<lambda>reserve.
     Ok \<lparr>nc_bootstrap = bootstrap, nc_listen = [], nc_reserve_relays = reserve,
          nc_relay_server = no_relay_server opts, nc_enable_mdns = no_enable_mdns opts\<rparr>))"

text \<open>The configuration \<^verbatim>\<open>relay\<close> starts its node with, and the addresses it prints.\<close>

definition relay_config ::
  "(string \<Rightarrow> (string, multiaddr) result) \<Rightarrow> u16 \<Rightarrow> bool \<Rightarrow> (anyhow, net_config) result" where
  "relay_config from_str listen_port enable_mdns =
     (let port = dec_string (unat listen_port) in
      tryq (parse_multiaddr from_str (''/ip4/0.0.0.0/tcp/'' @ port)) (\<lambda>tcp.
      tryq (parse_multiaddr from_str (''/ip4/0.0.0.0/udp/'' @ port @ ''/quic-v1'')) (\<lambda>udp.
      Ok \<lparr>nc_bootstrap = [], nc_listen = [tcp, udp], nc_reserve_relays = [],
           nc_relay_server = True, nc_enable_mdns = enable_mdns\<rparr>)))"

text \<open>The filter that drops unspecified addresses, in \<^verbatim>\<open>relay\<close> and \<^verbatim>\<open>advertised_addrs\<close>.\<close>

definition dialable :: "string \<Rightarrow> bool" where
  "dialable a \<longleftrightarrow> \<not> contains_str ''/0.0.0.0/'' a \<and> \<not> contains_str ''/::/'' a"

definition relay_printed :: "doctor_info \<Rightarrow> string list" where
  "relay_printed info =
     map (\<lambda>a. a @ ''/p2p/'' @ di_peer_id info) (filter dialable (di_listen_addrs info))"

section \<open>Publishing\<close>

definition advertised :: "doctor_info \<Rightarrow> string list" where
  "advertised info =
     remdups_adj (sort (filter dialable (di_listen_addrs info @ di_external_addrs info)))"

definition advertised_addrs :: "'e net_env \<Rightarrow> 'e \<Rightarrow> (anyhow, string list) result \<times> 'e" where
  "advertised_addrs E e =
     (case ne_doctor E e of
        (Err m, e) \<Rightarrow> (Err m, e)
      | (Ok info, e) \<Rightarrow> (Ok (advertised info), e))"

definition build_record ::
  "'a externs_scheme \<Rightarrow> u64 \<Rightarrow> identity \<Rightarrow> string \<Rightarrow> string \<Rightarrow> string list \<Rightarrow> signed_record" where
  "build_record X now self vanity peer_id addrs =
     Record_sign X \<lparr>body_v = RECORD_VERSION, body_pubkey = public_bytes X self,
        body_peer_id = peer_id, body_addrs = addrs, body_vanity = vanity, body_ts = now,
        body_ttl = RECORD_TTL\<rparr> (signing_key self)"

definition RETRY :: nat where
  "RETRY = from_secs 5"

definition REFRESH :: nat where
  "REFRESH = from_secs (unat (RECORD_TTL div 2))"

text \<open>One round of the republishing task: what it does and how long it then sleeps.\<close>

definition republish_round ::
  "'a externs_scheme \<Rightarrow> 'e net_env \<Rightarrow> identity \<Rightarrow> string \<Rightarrow> string \<Rightarrow> bytes \<Rightarrow> 'e \<Rightarrow> nat \<times> 'e" where
  "republish_round X E signer vanity peer_id dk e =
     (let (delay, e) =
        (case advertised_addrs E e of
           (Ok addrs, e) \<Rightarrow>
             if addrs \<noteq> [] then
               let rec = build_record X (now_secs E e) signer vanity peer_id addrs
               in (case ne_put_record E e dk (Record_to_bytes X rec) of
                     (Ok _, e) \<Rightarrow> (REFRESH, e)
                   | (Err _, e) \<Rightarrow> (RETRY, e))
             else (RETRY, e)
         | (Err _, e) \<Rightarrow> (RETRY, e))
      in (delay, ne_sleep E delay e))"

section \<open>Resolving and connecting\<close>

definition unresolved :: "name \<Rightarrow> anyhow" where
  "unresolved name = ''could not resolve '' @ Name_to_string name @ '' within '' @
     dec_string (RESOLVE_TIMEOUT div 1000000000) @ ''s (no record in the DHT '' @ em_dash @
     '' is the publisher running and on a reachable network?)''"

text \<open>The loop of \<^verbatim>\<open>resolve\<close>; it also returns its counter \<^verbatim>\<open>attempt\<close>.\<close>

partial_function (option) resolve_loop ::
  "'a externs_scheme \<Rightarrow> 'e net_env \<Rightarrow> name \<Rightarrow> instant \<Rightarrow> u32 \<Rightarrow> 'e
     \<Rightarrow> ((anyhow, signed_record) result \<times> u32 \<times> 'e) option" where
  "resolve_loop X E name deadline attempt e =
     (let attempt = attempt + 1 in
      case ne_get_record E e (dht_key X (name_keyid name)) of
        (Err m, e) \<Rightarrow> Some (Err m, attempt, e)
      | (Ok candidates, e) \<Rightarrow>
          (case select_verified X candidates (name_keyid name) (now_secs E e) MAX_SKEW of
             Some rec \<Rightarrow> Some (Ok rec, attempt, e)
           | None \<Rightarrow>
               if ne_mono E e \<ge> deadline then
                 Some (Err (unresolved name), attempt, e)
               else resolve_loop X E name deadline attempt (ne_sleep E (from_secs 2) e)))"

definition resolve ::
  "'a externs_scheme \<Rightarrow> 'e net_env \<Rightarrow> name \<Rightarrow> 'e
     \<Rightarrow> ((anyhow, signed_record) result \<times> u32 \<times> 'e) option" where
  "resolve X E name e = resolve_loop X E name (ne_mono E e + RESOLVE_TIMEOUT) 0 e"

text \<open>Dialing the advertised addresses; failures are ignored.\<close>

fun dial_all :: "'e net_env \<Rightarrow> string list \<Rightarrow> 'e \<Rightarrow> 'e" where
  "dial_all E [] e = e"
| "dial_all E (a # as) e =
     (case parse_multiaddr (ne_multiaddr E) a of
        Ok addr \<Rightarrow> dial_all E as (snd (ne_dial E e addr))
      | Err _ \<Rightarrow> dial_all E as e)"

definition establish_with ::
  "'e net_env \<Rightarrow> signed_record \<Rightarrow> 'e \<Rightarrow> (anyhow, peer_id) result \<times> 'e" where
  "establish_with E rec e =
     (case peer_id_from_ed25519 (ne_ed25519_peer E) (body_pubkey (rec_body rec)) of
        Err m \<Rightarrow> (Err m, e)
      | Ok peer \<Rightarrow>
          if peer \<noteq> body_peer_id (rec_body rec)
          then (Err (''record peer_id does not match its signed pubkey '' @ em_dash @ '' refusing to connect''), e)
          else (Ok peer, dial_all E (body_addrs (rec_body rec)) e))"

definition establish ::
  "'a externs_scheme \<Rightarrow> 'e net_env \<Rightarrow> name \<Rightarrow> 'e \<Rightarrow> ((anyhow, peer_id) result \<times> 'e) option" where
  "establish X E name e =
     (case resolve X E name e of
        None \<Rightarrow> None
      | Some (Err m, _, e) \<Rightarrow> Some (Err m, e)
      | Some (Ok rec, _, e) \<Rightarrow> Some (establish_with E rec e))"

text \<open>\<^verbatim>\<open>publish\<close> up to its two tasks (the republishing loop and \<^verbatim>\<open>run_publish\<close>): the name, the DHT key
  and the peer id they run with. \<open>spawned\<close> is what \<^verbatim>\<open>net::spawn\<close> returned, the node's peer id.\<close>

definition publish_start ::
  "'a crypto_scheme \<Rightarrow> (anyhow, peer_id) result \<Rightarrow> identity \<Rightarrow> nat \<Rightarrow> string
     \<Rightarrow> (anyhow, name \<times> bytes \<times> peer_id) result" where
  "publish_start X spawned self keyid_len vanity =
     tryq spawned (\<lambda>peer_id.
     let keyid = keyid_from_pubkey X (public_bytes X self) keyid_len in
     tryq (map_err (\<lambda>_. ''deriving name'') (Identity_name X self vanity keyid_len)) (\<lambda>name.
     Ok (name, dht_key X keyid, peer_id)))"

text \<open>\<^verbatim>\<open>connect\<close> up to \<^verbatim>\<open>run_connect\<close>: the peer and the bound listener.\<close>

definition connect_start ::
  "'a externs_scheme \<Rightarrow> 'e net_env \<Rightarrow> (anyhow, unit) result \<Rightarrow> (string \<Rightarrow> (string, 'l) result)
     \<Rightarrow> string \<Rightarrow> string \<Rightarrow> 'e \<Rightarrow> ((anyhow, peer_id \<times> 'l) result \<times> 'e) option" where
  "connect_start X E spawned bind name_str listen e =
     (case Name_parse name_str of
        Err _ \<Rightarrow> Some (Err ''invalid address'', e)
      | Ok name \<Rightarrow>
          (case spawned of
             Err m \<Rightarrow> Some (Err m, e)
           | Ok _ \<Rightarrow>
               (case establish X E name e of
                  None \<Rightarrow> None
                | Some (Err m, e) \<Rightarrow> Some (Err m, e)
                | Some (Ok peer, e) \<Rightarrow>
                    Some (map_err (\<lambda>_. ''binding local listen address '' @ listen)
                      (tryq (bind listen) (\<lambda>l. Ok (peer, l))), e))))"

text \<open>The line \<^verbatim>\<open>doctor --json\<close> prints.\<close>

definition quoted :: "string \<Rightarrow> string" where
  "quoted s = CHR 0x22 # s @ [CHR 0x22]"

definition doctor_json :: "doctor_info \<Rightarrow> string" where
  "doctor_json info =
     ''{'' @ quoted ''peer_id'' @ '':'' @ quoted (di_peer_id info) @
     '','' @ quoted ''connected_peers'' @ '':'' @ dec_string (di_connected_peers info) @
     '','' @ quoted ''nat_status'' @ '':'' @ quoted (di_nat_status info) @
     '','' @ quoted ''listen_addrs'' @ '':['' @ join_strs '','' (map quoted (di_listen_addrs info)) @
     ''],'' @ quoted ''external_addrs'' @ '':['' @ join_strs '','' (map quoted (di_external_addrs info)) @
     '']}''"

section \<open>The resolve loop\<close>

text \<open>Time does not run backwards, and sleeping takes at least as long as asked.\<close>

definition clock_laws :: "'e net_env \<Rightarrow> bool" where
  "clock_laws E \<longleftrightarrow>
     (\<forall>d e. ne_mono E e + d \<le> ne_mono E (ne_sleep E d e)) \<and>
     (\<forall>k e. ne_mono E e \<le> ne_mono E (snd (ne_get_record E e k)))"

lemma clock_lawsD:
  assumes "clock_laws E"
  shows "ne_mono E e + d \<le> ne_mono E (ne_sleep E d e)"
    and "ne_get_record E e k = (r, e') \<Longrightarrow> ne_mono E e \<le> ne_mono E e'"
  using assms unfolding clock_laws_def by (blast, metis snd_conv)

lemma resolve_loop_returns:
  assumes "clock_laws E" and "deadline \<le> ne_mono E e + n * from_secs 2"
    and "unat attempt + n + 1 < 2 ^ 32"
  shows "\<exists>r a e'. resolve_loop X E name deadline attempt e = Some (r, a, e') \<and>
    unat attempt < unat a \<and> unat a \<le> unat attempt + n + 1"
  using assms(2,3)
proof (induction n arbitrary: attempt e)
  case 0
  have a: "unat (attempt + 1) = unat attempt + 1"
    using "0.prems" by (simp add: unat_word_ariths)
  obtain r e1 where get: "ne_get_record E e (dht_key X (name_keyid name)) = (r, e1)" by fastforce
  then have "deadline \<le> ne_mono E e1"
    using "0.prems" clock_lawsD(2) [OF assms(1)] by fastforce
  with get a show ?case
    by (subst resolve_loop.simps) (auto simp: Let_def split: sum.split option.split)
next
  case (Suc n)
  have a: "unat (attempt + 1) = unat attempt + 1"
    using Suc.prems by (simp add: unat_word_ariths)
  obtain r e1 where get: "ne_get_record E e (dht_key X (name_keyid name)) = (r, e1)" by fastforce
  let ?e2 = "ne_sleep E (from_secs 2) e1"
  have "ne_mono E e + from_secs 2 \<le> ne_mono E ?e2"
    using clock_lawsD(1) [OF assms(1), of e1 "from_secs 2"] clock_lawsD(2) [OF assms(1) get]
    by linarith
  then have "\<exists>r b e'. resolve_loop X E name deadline (attempt + 1) ?e2 = Some (r, b, e') \<and>
      unat (attempt + 1) < unat b \<and> unat b \<le> unat (attempt + 1) + n + 1"
    using Suc.prems a by (intro Suc.IH) simp_all
  with get a show ?case
    by (subst resolve_loop.simps) (auto simp: Let_def split: sum.split option.split)
qed

text \<open>How the loop can end: with a record selected among the candidates of one lookup, with an
  error of the network task, or after the deadline with no candidate that verifies.\<close>

definition resolve_outcome ::
  "'a externs_scheme \<Rightarrow> 'e net_env \<Rightarrow> name \<Rightarrow> instant \<Rightarrow> (anyhow, signed_record) result \<Rightarrow> 'e \<Rightarrow> bool" where
  "resolve_outcome X E name deadline r e' \<longleftrightarrow>
     (\<exists>e1 answer. ne_get_record E e1 (dht_key X (name_keyid name)) = (answer, e') \<and>
        (case r of
           Ok rec \<Rightarrow> \<exists>cs. answer = Ok cs \<and>
             select_verified X cs (name_keyid name) (now_secs E e') MAX_SKEW = Some rec
         | Err m \<Rightarrow> answer = Err m \<or>
             m = unresolved name \<and> deadline \<le> ne_mono E e' \<and>
             (\<exists>cs. answer = Ok cs \<and>
                select_verified X cs (name_keyid name) (now_secs E e') MAX_SKEW = None)))"

lemma resolve_loop_outcome:
  assumes "resolve_loop X E name deadline attempt e = Some y"
  shows "resolve_outcome X E name deadline (fst y) (snd (snd y))"
proof (rule resolve_loop.raw_induct [OF _ assms,
    where P = "\<lambda>X E name deadline attempt e y. resolve_outcome X E name deadline (fst y) (snd (snd y))"],
    goal_cases)
  case (1 f X E name deadline attempt e y)
  obtain answer e1 where get: "ne_get_record E e (dht_key X (name_keyid name)) = (answer, e1)"
    by fastforce
  have now: "resolve_outcome X E name deadline r e1"
    if "case r of
        Ok rec \<Rightarrow> \<exists>cs. answer = Ok cs \<and>
          select_verified X cs (name_keyid name) (now_secs E e1) MAX_SKEW = Some rec
      | Err m \<Rightarrow> answer = Err m \<or> m = unresolved name \<and> deadline \<le> ne_mono E e1 \<and>
          (\<exists>cs. answer = Ok cs \<and>
             select_verified X cs (name_keyid name) (now_secs E e1) MAX_SKEW = None)" for r
    unfolding resolve_outcome_def using get that by blast
  show ?case
  proof (cases answer)
    case (Inl m)
    with 1(2) get show ?thesis by (auto simp: Let_def intro!: now)
  next
    case (Inr cs)
    show ?thesis
    proof (cases "select_verified X cs (name_keyid name) (now_secs E e1) MAX_SKEW")
      case None
      note facts = this 1(2) get Inr
      show ?thesis
      proof (cases "deadline \<le> ne_mono E e1")
        case True
        with facts show ?thesis by (auto simp: Let_def intro!: now)
      next
        case False
        with facts show ?thesis by (auto simp: Let_def dest!: 1(1))
      qed
    next
      case (Some rec)
      with 1(2) get Inr show ?thesis by (auto simp: Let_def intro!: now)
    qed
  qed
qed

lemma resolve_total:
  assumes "clock_laws E"
  obtains r a e' where "resolve X E name e = Some (r, a, e')" "1 \<le> unat a" "unat a \<le> 24"
proof -
  let ?d = "ne_mono E e + RESOLVE_TIMEOUT"
  have "?d \<le> ne_mono E e + 23 * from_secs 2" by (simp add: RESOLVE_TIMEOUT_def from_secs_def)
  then show thesis
    using resolve_loop_returns [OF assms, of ?d e 23 0 X name] that
    by (auto simp: resolve_def Suc_le_eq)
qed

text \<open>C21. Resolution always returns: under the laws of the clock \<^verbatim>\<open>resolve\<close> ends after at most 24 lookups
  (45 seconds, two seconds apart), so its attempt counter cannot overflow; and it ends in
  one of three ways: with a record that verified at that moment, with the error of the
  network task, or with the time-out error, at a time past the deadline and with no
  verifiable candidate in the last lookup.\<close>

theorem resolve_returns:
  assumes "clock_laws E"
  shows "\<exists>r a e'. resolve X E name e = Some (r, a, e') \<and> 1 \<le> unat a \<and> unat a \<le> 24 \<and>
    resolve_outcome X E name (ne_mono E e + RESOLVE_TIMEOUT) r e'"
proof -
  from assms obtain r a e' where "resolve X E name e = Some (r, a, e')" "1 \<le> unat a" "unat a \<le> 24"
    by (rule resolve_total)
  with resolve_loop_outcome [OF this(1) [unfolded resolve_def]] show ?thesis by auto
qed

lemma resolve_first:
  assumes "ne_get_record E e (dht_key X (name_keyid name)) = (Ok cs, e1)"
    and "bs \<in> set cs" and "accepts X (name_keyid name) (now_secs E e1) MAX_SKEW bs r"
  obtains rec where "resolve X E name e = Some (Ok rec, 1, e1)"
    "select_verified X cs (name_keyid name) (now_secs E e1) MAX_SKEW = Some rec"
proof -
  obtain rec where sel: "select_verified X cs (name_keyid name) (now_secs E e1) MAX_SKEW = Some rec"
    using assms(2,3) select_verified_None_iff [of X cs "name_keyid name" "now_secs E e1" MAX_SKEW]
    by (cases "select_verified X cs (name_keyid name) (now_secs E e1) MAX_SKEW") auto
  then have "resolve X E name e = Some (Ok rec, 1, e1)"
    unfolding resolve_def by (subst resolve_loop.simps) (simp add: assms(1) Let_def)
  then show thesis by (rule that [OF _ sel])
qed

text \<open>Poisoning cannot hide a published record: as soon as a lookup returns, among anything else, bytes
  that verify for the name, \<^verbatim>\<open>resolve\<close> returns on that attempt, with a verified record at least
  as new.\<close>

lemma resolve_finds:
  assumes "ne_get_record E e (dht_key X (name_keyid name)) = (Ok cs, e1)"
    and "bs \<in> set cs" and "accepts X (name_keyid name) (now_secs E e1) MAX_SKEW bs r"
  shows "\<exists>rec bs'. resolve X E name e = Some (Ok rec, 1, e1) \<and> rec_ts r \<le> rec_ts rec \<and>
    bs' \<in> set cs \<and> accepts X (name_keyid name) (now_secs E e1) MAX_SKEW bs' rec"
proof -
  from assms obtain rec where "resolve X E name e = Some (Ok rec, 1, e1)"
    "select_verified X cs (name_keyid name) (now_secs E e1) MAX_SKEW = Some rec"
    by (rule resolve_first)
  with select_verified_SomeD [OF this(2)] assms(2,3) show ?thesis by blast
qed

section \<open>Establishing\<close>

text \<open>The record behind a success, and the peer that follows from it.\<close>

lemma establish_record:
  assumes "establish X E name e = Some (Ok peer, e')"
  obtains rec e1 bs where "accepts X (name_keyid name) (now_secs E e1) MAX_SKEW bs rec"
    "ne_ed25519_peer E (body_pubkey (rec_body rec)) = Ok peer"
    "body_peer_id (rec_body rec) = peer" "e' = dial_all E (body_addrs (rec_body rec)) e1"
proof -
  obtain rec a e1 where res: "resolve X E name e = Some (Ok rec, a, e1)"
    and est: "establish_with E rec e1 = (Ok peer, e')"
    using assms by (auto simp: establish_def split: option.splits prod.splits sum.splits)
  obtain cs where "select_verified X cs (name_keyid name) (now_secs E e1) MAX_SKEW = Some rec"
    using resolve_loop_outcome [OF res [unfolded resolve_def]] by (auto simp: resolve_outcome_def)
  then obtain bs where "accepts X (name_keyid name) (now_secs E e1) MAX_SKEW bs rec"
    using select_verified_SomeD(1) by blast
  with est show thesis
    by (intro that [of e1 bs rec]) (auto simp: establish_with_def peer_id_from_ed25519_def
        map_err_def split: sum.splits if_splits)
qed

lemma establish_owner:
  assumes "keyid_binds X (name_keyid name) pk" and "establish X E name e = Some (Ok peer, e')"
  shows "ne_ed25519_peer E pk = Ok peer"
  using assms(2)
proof (rule establish_record)
  fix rec e1 bs
  assume "accepts X (name_keyid name) (now_secs E e1) MAX_SKEW bs rec"
    and "ne_ed25519_peer E (body_pubkey (rec_body rec)) = Ok peer"
  with assms(1) show ?thesis by (auto simp: accepts_def Record_verify_Ok_iff keyid_binds_def)
qed

text \<open>C3. The peer a client tunnels to is the name's owner: whatever records the network returns, when
  \<^verbatim>\<open>establish\<close> succeeds for a name that belongs to the public key \<open>pk\<close>, the peer is the one
  derived from \<open>pk\<close>, and the record that led there was signed by the owner, names that peer,
  and was at most 300 seconds off the client's clock.\<close>

theorem establish_authentic:
  assumes "keyid_binds X (name_keyid name) pk" and "unforgeable X pk issued"
    and "establish X E name e = Some (Ok peer, e')"
  shows "ne_ed25519_peer E pk = Ok peer \<and>
    (\<exists>rec e1. canonical_bytes X (rec_body rec) \<in> issued \<and> body_peer_id (rec_body rec) = peer \<and>
       \<bar>uint (now_secs E e1) - uint (rec_ts rec)\<bar> \<le> 300 \<and>
       e' = dial_all E (body_addrs (rec_body rec)) e1)"
proof -
  from assms(3) obtain rec e1 bs where
    rec: "accepts X (name_keyid name) (now_secs E e1) MAX_SKEW bs rec"
      "body_peer_id (rec_body rec) = peer" "e' = dial_all E (body_addrs (rec_body rec)) e1"
    by (rule establish_record)
  then have acc: "signature_valid X rec" "body_pubkey (rec_body rec) = pk"
    "abs_diff (now_secs E e1) (rec_ts rec) \<le> MAX_SKEW"
    using assms(1) by (auto simp: accepts_def Record_verify_Ok_iff keyid_binds_def)
  then have "canonical_bytes X (rec_body rec) \<in> issued"
    using signature_valid_issued [OF assms(2)] by blast
  moreover have "\<bar>uint (now_secs E e1) - uint (rec_ts rec)\<bar> \<le> 300"
    using acc(3) by (simp add: word_le_def uint_abs_diff MAX_SKEW_def)
  ultimately show ?thesis
    using establish_owner [OF assms(1,3)] rec(2,3) by blast
qed

section \<open>Publishing\<close>

lemma sorted_remdups_adj_distinct: "sorted xs \<Longrightarrow> distinct (remdups_adj (xs :: 'b :: linorder list))"
proof (induction xs rule: remdups_adj.induct)
  case (3 x y xs)
  show ?case
  proof (cases "x = y")
    case False
    with 3(3) have "\<forall>z \<in> set (y # xs). x < z" by auto
    then have "x \<notin> set (remdups_adj (y # xs))" by (metis less_irrefl remdups_adj_set)
    with 3 False show ?thesis by simp
  qed (use 3 in simp)
qed simp_all

text \<open>The addresses a publisher advertises: exactly the dialable ones among the listen addresses and
  the confirmed external ones, each once, in lexicographic order; in particular the
  result does not depend on the order or multiplicity in which the swarm reports them.\<close>

lemma advertised_addrs_exact:
  assumes "ne_doctor E e = (Ok info, e')"
  shows "advertised_addrs E e =
    (Ok (sorted_list_of_set {a. (a \<in> set (di_listen_addrs info) \<or> a \<in> set (di_external_addrs info)) \<and>
       \<not> sublist ''/0.0.0.0/'' a \<and> \<not> sublist ''/::/'' a}), e')"
proof -
  let ?xs = "filter dialable (di_listen_addrs info @ di_external_addrs info)"
  have "remdups_adj (sort ?xs) = sorted_list_of_set (set (remdups_adj (sort ?xs)))"
    by (rule sorted_list_of_set.idem_if_sorted_distinct [symmetric])
      (simp_all add: sorted_remdups_adj_distinct sorted_remdups_adj)
  also have "set (remdups_adj (sort ?xs)) =
      {a. (a \<in> set (di_listen_addrs info) \<or> a \<in> set (di_external_addrs info)) \<and>
         \<not> sublist ''/0.0.0.0/'' a \<and> \<not> sublist ''/::/'' a}"
    by (auto simp: dialable_def contains_str_iff_sublist)
  finally show ?thesis using assms by (simp add: advertised_addrs_def advertised_def)
qed

lemma build_record_simps [simp]:
  "rec_ts (build_record X now i v p as) = now"
  "body_pubkey (rec_body (build_record X now i v p as)) = public_bytes X i"
  "body_peer_id (rec_body (build_record X now i v p as)) = p"
  "body_addrs (rec_body (build_record X now i v p as)) = as"
  "body_ttl (rec_body (build_record X now i v p as)) = RECORD_TTL"
  by (simp_all add: build_record_def Record_sign_def Let_def)

lemma build_record_valid: "ed25519_law X \<Longrightarrow> signature_valid X (build_record X now i v p as)"
  unfolding build_record_def
  by (rule signature_valid_sign) (simp_all add: public_bytes_def signing_key_def)

text \<open>What \<open>publish_start\<close> hands to its tasks.\<close>

lemma publish_start_Ok:
  assumes "sha256_law X" and "base32_law X" and "publish_start X spawned i n v = Ok (name, dk, peer)"
  shows "spawned = Ok peer" and "name_keyid name = keyid_from_pubkey X (public_bytes X i) n"
    and "dk = dht_key X (name_keyid name)" and "name_keyid name \<noteq> []"
    and "prefix (name_keyid name) (keyid_full_from_pubkey X (public_bytes X i))"
proof -
  from assms(3) have n: "16 \<le> n" "n \<le> 52"
    and nm: "name = \<lparr>name_vanity = v, name_keyid = keyid_from_pubkey X (public_bytes X i) n\<rparr>"
      "dk = dht_key X (keyid_from_pubkey X (public_bytes X i) n)" "spawned = Ok peer"
    by (auto simp: publish_start_def Identity_name_def Name_from_pubkey_def tryq_eq_Ok_iff
        map_err_def validate_Ok_iffs split: sum.splits)
  show "spawned = Ok peer" and "name_keyid name = keyid_from_pubkey X (public_bytes X i) n"
    and "dk = dht_key X (name_keyid name)"
    by (simp_all add: nm)
  show "name_keyid name \<noteq> []"
    using keyid_from_pubkey_wf(2) [OF assms(1,2) n, of "public_bytes X i"] n
    by (auto simp: nm)
  show "prefix (name_keyid name) (keyid_full_from_pubkey X (public_bytes X i))"
    by (simp add: nm keyid_from_pubkey_def Let_def take_is_prefix)
qed

text \<open>A published record on the wire.\<close>

lemma published_accepts:
  assumes "signature_valid X (build_record X now i v p as)" and "prefix kid (keyid_full_from_pubkey X (public_bytes X i))"
    and "cbor_roundtrip X (build_record X now i v p as)"
    and "length (Record_to_bytes X (build_record X now i v p as)) \<le> MAX_RECORD_BYTES"
  shows "accepts X kid now' skew (Record_to_bytes X (build_record X now i v p as))
      (build_record X now i v p as) \<longleftrightarrow> abs_diff now' now \<le> skew"
  using assms
  by (simp add: accepts_def Record_verify_Ok_iff Record_from_bytes_def Record_to_bytes_def
      cbor_roundtrip_def)

text \<open>C22. A published record serves its name: the record a publisher puts is stored by every storage node
  under the key clients look up, and a client accepts it exactly when its clock is
  within 300 seconds of the publisher's at signing time. (As the publisher re-signs no sooner than
  300 seconds after a put, a client reads the last record as stale from second 301 until the next
  put.)\<close>

theorem published_record_serves:
  assumes "sha256_law X" and "base32_law X" and "ed25519_law X"
    and "publish_start X spawned i n v = Ok (name, dk, peer)"
    and "rec = build_record X now i v peer addrs"
    and "cbor_roundtrip X rec" and "length (Record_to_bytes X rec) \<le> MAX_RECORD_BYTES"
  shows "dk = dht_key X (name_keyid name) \<and> authorizes_storage_key X rec dk \<and>
    (accepts X (name_keyid name) now' MAX_SKEW (Record_to_bytes X rec) rec \<longleftrightarrow>
       \<bar>uint now' - uint now\<bar> \<le> 300)"
proof -
  note start = publish_start_Ok [OF assms(1,2,4)]
  have "authorizes_storage_key X rec dk"
    unfolding authorizes_storage_key_iff start(3) assms(5)
    using build_record_valid [OF assms(3)] start(4,5) by auto
  moreover have "accepts X (name_keyid name) now' MAX_SKEW (Record_to_bytes X rec) rec \<longleftrightarrow>
      abs_diff now' now \<le> MAX_SKEW"
    using published_accepts [OF build_record_valid [OF assms(3)] start(5)] assms(5-7) by simp
  ultimately show ?thesis
    using start(3) by (simp add: word_le_def uint_abs_diff MAX_SKEW_def)
qed

text \<open>The publisher's loop: a round puts a record only when there is an address to advertise, and
  then exactly one, freshly signed at that moment, under its DHT key; it sleeps 300 seconds (half the
  record's lifetime) when the put succeeded and 5 seconds in every other case.\<close>

lemma republish_round_exact:
  "republish_round X E signer v peer dk e =
     (case advertised_addrs E e of
        (Ok (a # as), e1) \<Rightarrow>
          (case ne_put_record E e1 dk
              (Record_to_bytes X (build_record X (now_secs E e1) signer v peer (a # as))) of
             (Ok _, e2) \<Rightarrow> (from_secs 300, ne_sleep E (from_secs 300) e2)
           | (Err _, e2) \<Rightarrow> (from_secs 5, ne_sleep E (from_secs 5) e2))
      | (_, e1) \<Rightarrow> (from_secs 5, ne_sleep E (from_secs 5) e1))"
  by (auto simp: republish_round_def REFRESH_def RETRY_def RECORD_TTL_def Let_def
      split: prod.splits sum.splits list.splits)

section \<open>A concrete world\<close>

text \<open>The state is the time in nanoseconds since the start; the DHT answers every lookup with junk and
  one record of the owner.\<close>

definition demo_env :: "nat net_env" where
  "demo_env = \<lparr>
     ne_system_time = (\<lambda>e. 1900000100000000000 + int e),
     ne_mono = (\<lambda>e. e),
     ne_sleep = (\<lambda>d e. e + d),
     ne_get_record = (\<lambda>e k. (Ok [[0xde, 0xad], Record_to_bytes owner_externs (demo_record 1900000000)], e)),
     ne_put_record = (\<lambda>e k v. (Ok (), e)),
     ne_dial = (\<lambda>e a. (Ok (), e)),
     ne_doctor = (\<lambda>e. (Ok \<lparr>di_peer_id = ''12D3'', di_listen_addrs = [''/ip4/0.0.0.0/tcp/1'', ''/ip4/10.0.0.2/tcp/1''],
        di_external_addrs = [''/ip4/10.0.0.2/tcp/1''], di_connected_peers = 1, di_nat_status = ''Unknown''\<rparr>, e)),
     ne_ed25519_peer = (\<lambda>pk. Ok ''12D3''),
     ne_multiaddr = (\<lambda>s. Ok [OtherProtocol s])\<rparr>"

lemma demo_env_simps [simp]:
  "now_secs demo_env 0 = 1900000100"
  "ne_get_record demo_env e k =
     (Ok [[0xde, 0xad], Record_to_bytes owner_externs (demo_record 1900000000)], e)"
  "ne_ed25519_peer demo_env pk = Ok ''12D3''"
  by (simp_all add: demo_env_def now_secs_def)

lemma demo_env_clock: "clock_laws demo_env"
  by (simp add: clock_laws_def demo_env_def)

definition owner_name :: name where
  "owner_name = \<lparr>name_vanity = [], name_keyid = owner_keyid\<rparr>"

lemma owner_name_parse: "Name_parse (Name_to_string owner_name) = Ok owner_name"
proof (rule name_text.parse_print)
  show "name_wf owner_name"
    by (simp add: name_wf_def owner_name_def vanity_wf_def keyid_wf_def owner_keyid_def list_all_iff
        is_base32_lower_def)
qed

lemma owner_accepts:
  "accepts owner_externs (name_keyid owner_name) (now_secs demo_env 0) MAX_SKEW
     (Record_to_bytes owner_externs (demo_record 1900000000)) (demo_record 1900000000)"
  using owner_record_accepts by (simp add: owner_name_def MAX_SKEW_def)

theorem resolve_returns_witness:
  "clock_laws demo_env \<and> (\<exists>r a e'. resolve owner_externs demo_env owner_name 0 = Some (r, a, e') \<and>
     unat a \<le> 24)"
  using resolve_returns [OF demo_env_clock, of owner_externs owner_name 0] demo_env_clock by blast

lemma demo_selected:
  "select_verified owner_externs [[0xde, 0xad], Record_to_bytes owner_externs (demo_record 1900000000)]
     owner_keyid 1900000100 300 = Some (demo_record 1900000000)"
proof -
  have "\<not> accepts owner_externs owner_keyid 1900000100 300 [0xde, 0xad] r" for r
    by (simp add: accepts_def owner_codec demo_junk)
  then show ?thesis
    unfolding select_verified_Some_iff using owner_record_accepts
    by (intro exI [of _ "[[0xde, 0xad]]"] exI [of _ "[]"] exI) auto
qed

lemma demo_establish:
  "establish owner_externs demo_env owner_name 0 = Some (Ok ''12D3'', 0)"
proof -
  have "resolve owner_externs demo_env owner_name 0 = Some (Ok (demo_record 1900000000), 1, 0)"
    unfolding resolve_def
    by (subst resolve_loop.simps)
      (simp add: Let_def demo_selected owner_name_def MAX_SKEW_def)
  moreover have "body_peer_id (rec_body (demo_record t)) = ''12D3''"
    and "body_addrs (rec_body (demo_record t)) = [''/ip4/127.0.0.1/tcp/4001'']" for t
    by (simp_all add: demo_record_def Record_sign_def demo_body_def)
  moreover have "ne_dial demo_env 0 a = (Ok (), 0)" and "ne_multiaddr demo_env s = Ok [OtherProtocol s]"
    for a s
    by (simp_all add: demo_env_def)
  ultimately show ?thesis
    by (simp add: establish_def establish_with_def peer_id_from_ed25519_def parse_multiaddr_def)
qed

theorem establish_authentic_witness:
  "establish owner_externs demo_env owner_name 0 = Some (Ok ''12D3'', 0) \<and>
   (\<exists>rec :: signed_record. canonical_bytes owner_externs (rec_body rec) \<in> owner_issued \<and>
      body_peer_id (rec_body rec) = ''12D3'')"
proof -
  have "keyid_binds owner_externs (name_keyid owner_name) (replicate 32 7)"
    using owner_assumptions(1) by (simp add: owner_name_def)
  from establish_authentic [OF this owner_assumptions(3) demo_establish] demo_establish
  show ?thesis by blast
qed

definition demo_published :: signed_record where
  "demo_published = build_record demo_externs 1900000000 (from_secret_bytes (replicate 32 7)) ''survival''
     ''12D3'' [''/ip4/10.0.0.2/tcp/1'']"

lemma demo_publish_start:
  "\<exists>name dk. publish_start demo_externs (Ok ''12D3'') (from_secret_bytes (replicate 32 7)) 26 ''survival''
     = Ok (name, dk, ''12D3'')"
proof -
  have "validate_vanity ''survival'' = Ok ()" "check_keyid_len 26 = Ok ()"
    by (simp_all add: validate_defs list_all_iff is_base32_lower_def)
  then show ?thesis
    by (simp add: publish_start_def Identity_name_def Name_from_pubkey_def Let_def)
qed

lemma demo_published_length:
  "length (Record_to_bytes demo_externs demo_published) \<le> MAX_RECORD_BYTES"
  by (simp add: Record_to_bytes_def length_enc_fields demo_published_def build_record_def
      Record_sign_def body_fields_def bytes_of_word_def as_bytes_def demo_crypto_def
      MAX_RECORD_BYTES_def public_bytes_def signing_key_def from_secret_bytes_def)

theorem published_record_serves_witness:
  "\<exists>name dk. publish_start demo_externs (Ok ''12D3'') (from_secret_bytes (replicate 32 7)) 26 ''survival''
       = Ok (name, dk, ''12D3'') \<and>
     authorizes_storage_key demo_externs demo_published dk \<and>
     accepts demo_externs (name_keyid name) 1900000300 MAX_SKEW
       (Record_to_bytes demo_externs demo_published) demo_published \<and>
     \<not> accepts demo_externs (name_keyid name) 1900000301 MAX_SKEW
       (Record_to_bytes demo_externs demo_published) demo_published"
proof -
  obtain name dk where start: "publish_start demo_externs (Ok ''12D3'')
      (from_secret_bytes (replicate 32 7)) 26 ''survival'' = Ok (name, dk, ''12D3'')"
    using demo_publish_start by blast
  note serves = published_record_serves [OF demo_externs_laws start demo_published_def
      demo_cbor_roundtrip demo_published_length]
  from start serves [of 1900000300] serves [of 1900000301] show ?thesis by auto
qed

end
