(* ===== verification/Cli_Agent.thy ===== *)
theory Cli_Agent
  imports Cli_Tunnel
begin

text \<open>
  \<^verbatim>\<open>crates/cli/src/agent.rs\<close>: the local control endpoint. Requests arrive as lines of JSON; the JSON
  reader and writer (\<^verbatim>\<open>serde_json\<close>) are the parameters \<open>from_json\<close> and \<open>to_json\<close>. The shared state
  is the map from printed names to the local port and the peer of their tunnel; resolving uses
  the world of \<^verbatim>\<open>Cli_Tunnel\<close>, and the ephemeral port comes from the operating system
  (\<open>bind_ephemeral\<close>: the result of \<^verbatim>\<open>TcpListener::bind\<close>, and inside it that of \<^verbatim>\<open>local_addr\<close>).

  The second half treats the connections as concurrent: a resolve request looks its name up,
  awaits the network, and only then inserts, with other requests in between.
\<close>

section \<open>Data\<close>

record request =
  rq_op :: string
  rq_name :: string
  rq_token :: string

datatype response =
    Pong \<comment> \<open>\<^verbatim>\<open>{"ok":true}\<close>\<close>
  | Resolved string string \<comment> \<open>name and listen address\<close>
  | Rtt int
  | Failed string

type_synonym tunnel_map = "string \<rightharpoonup> u16 \<times> peer_id"

definition MAX_CONN_BYTES :: nat where
  "MAX_CONN_BYTES = 64 * 1024"

section \<open>The token\<close>

definition hex_digit :: "nat \<Rightarrow> char" where
  "hex_digit n = (if n < 10 then char_of (48 + n) else char_of (87 + n))"

definition hex_byte :: "u8 \<Rightarrow> string" where
  "hex_byte b = [hex_digit (unat b div 16), hex_digit (unat b mod 16)]"

text \<open>\<open>os_random\<close> is what \<^verbatim>\<open>getrandom\<close> returned: 16 bytes or an error.\<close>

definition random_token :: "(string, bytes) result \<Rightarrow> (anyhow, string) result" where
  "random_token os_random =
     tryq (map_err (\<lambda>e. ''getrandom failed: '' @ e) os_random) (\<lambda>bs.
     Ok (concat (map hex_byte bs)))"

definition token_ok :: "string \<Rightarrow> string \<Rightarrow> bool" where
  "token_ok expected given \<longleftrightarrow>
     length expected = length given \<and>
     foldl (\<lambda>acc (a, b). or acc (xor a b)) 0 (zip (as_bytes expected) (as_bytes given)) = (0 :: u8)"

section \<open>Requests\<close>

text \<open>The part of \<^verbatim>\<open>resolve_and_tunnel\<close> before it awaits: an answer, or the name to resolve and its key.\<close>

definition resolve_lookup ::
  "string \<Rightarrow> tunnel_map \<Rightarrow> (anyhow, u16) result + name \<times> string" where
  "resolve_lookup name_str tunnels =
     (case Name_parse name_str of
        Err _ \<Rightarrow> Inl (Err ''invalid address'')
      | Ok name \<Rightarrow>
          let key = Name_to_string name in
          (case tunnels key of
             Some (port, _) \<Rightarrow> Inl (Ok port)
           | None \<Rightarrow> Inr (name, key)))"

definition resolve_and_tunnel ::
  "'a externs_scheme \<Rightarrow> 'e net_env \<Rightarrow> ('e \<Rightarrow> (string, (string, u16) result) result \<times> 'e) \<Rightarrow> string
     \<Rightarrow> tunnel_map \<Rightarrow> 'e \<Rightarrow> ((anyhow, u16) result \<times> tunnel_map \<times> 'e) option" where
  "resolve_and_tunnel X E bind_ephemeral name_str tunnels e =
     (case resolve_lookup name_str tunnels of
        Inl r \<Rightarrow> Some (r, tunnels, e)
      | Inr (name, key) \<Rightarrow>
          (case establish X E name e of
             None \<Rightarrow> None
           | Some (Err m, e) \<Rightarrow> Some (Err m, tunnels, e)
           | Some (Ok peer, e) \<Rightarrow>
               (case bind_ephemeral e of
                  (Err _, e) \<Rightarrow> Some (Err ''binding ephemeral local port'', tunnels, e)
                | (Ok (Err m), e) \<Rightarrow> Some (Err m, tunnels, e)
                | (Ok (Ok port), e) \<Rightarrow> Some (Ok port, tunnels(key \<mapsto> (port, peer)), e))))"

definition handle_request ::
  "'a externs_scheme \<Rightarrow> 'e net_env \<Rightarrow> ('e \<Rightarrow> (string, (string, u16) result) result \<times> 'e)
     \<Rightarrow> (peer_id \<Rightarrow> u64 option) \<Rightarrow> string \<Rightarrow> request \<Rightarrow> tunnel_map \<Rightarrow> 'e
     \<Rightarrow> (response \<times> tunnel_map \<times> 'e) option" where
  "handle_request X E bind_ephemeral rtt_ms token req tunnels e =
     (if rq_op req = ''ping'' then Some (Pong, tunnels, e)
      else if rq_op req = ''resolve'' then
        if \<not> token_ok token (rq_token req)
        then Some (Failed ''unauthorized (bad or missing token)'', tunnels, e)
        else (case resolve_and_tunnel X E bind_ephemeral (rq_name req) tunnels e of
                None \<Rightarrow> None
              | Some (Ok port, tunnels, e) \<Rightarrow>
                  Some (Resolved (rq_name req) (''127.0.0.1:'' @ dec_string (unat port)), tunnels, e)
              | Some (Err m, tunnels, e) \<Rightarrow> Some (Failed m, tunnels, e))
      else if rq_op req = ''rtt'' then
        if \<not> token_ok token (rq_token req) then Some (Failed ''unauthorized'', tunnels, e)
        else
          let peer = (case Name_parse (rq_name req) of
                Ok n \<Rightarrow> map_option snd (tunnels (Name_to_string n))
              | Err _ \<Rightarrow> None)
          in (case Option.bind peer rtt_ms of
                Some ms \<Rightarrow> Some (Rtt (uint ms), tunnels, e)
              | None \<Rightarrow> Some (Rtt (- 1), tunnels, e))
      else Some (Failed (''unknown op: '' @ rq_op req), tunnels, e))"

section \<open>A connection\<close>

text \<open>\<^verbatim>\<open>AsyncBufReadExt::lines\<close>: a line ends at a newline, less a carriage return before it; what is left
  when the input has ended is a line if it is not empty, and no line as long as more may come.\<close>

definition strip_cr :: "bytes \<Rightarrow> bytes" where
  "strip_cr l = (if l \<noteq> [] \<and> last l = 13 then butlast l else l)"

fun read_lines :: "bool \<Rightarrow> bytes \<Rightarrow> bytes \<Rightarrow> bytes list" where
  "read_lines ended acc [] = (if ended \<and> acc \<noteq> [] then [acc] else [])"
| "read_lines ended acc (b # bs) =
     (if b = 10 then strip_cr acc # read_lines ended [] bs else read_lines ended (acc @ [b]) bs)"

text \<open>The loop of \<^verbatim>\<open>serve_conn\<close>: \<open>written i\<close> is the result of the \<open>i\<close>-th write to the socket. The result has
  the bytes written so far.\<close>

fun serve_lines ::
  "(string \<Rightarrow> (string, request) result) \<Rightarrow> (response \<Rightarrow> bytes) \<Rightarrow> (nat \<Rightarrow> (anyhow, unit) result)
     \<Rightarrow> (request \<Rightarrow> tunnel_map \<Rightarrow> 'e \<Rightarrow> (response \<times> tunnel_map \<times> 'e) option)
     \<Rightarrow> bytes list \<Rightarrow> nat \<Rightarrow> tunnel_map \<Rightarrow> 'e
     \<Rightarrow> ((anyhow, unit) result \<times> bytes list \<times> tunnel_map \<times> 'e) option" where
  "serve_lines from_json to_json written handle [] i tunnels e = Some (Ok (), [], tunnels, e)"
| "serve_lines from_json to_json written handle (l # ls) i tunnels e =
     (case from_utf8 l of
        None \<Rightarrow> Some (Err ''stream did not contain valid UTF-8'', [], tunnels, e)
      | Some line \<Rightarrow>
          let line = trim line in
          if line = [] then serve_lines from_json to_json written handle ls i tunnels e
          else
            (case (case from_json line of
                     Ok req \<Rightarrow> handle req tunnels e
                   | Err m \<Rightarrow> Some (Failed (''bad request: '' @ m), tunnels, e)) of
               None \<Rightarrow> None
             | Some (resp, tunnels, e) \<Rightarrow>
                 let out = to_json resp @ [10] in
                 (case written i of
                    Err m \<Rightarrow> Some (Err m, [], tunnels, e)
                  | Ok _ \<Rightarrow>
                      (case serve_lines from_json to_json written handle ls (Suc i) tunnels e of
                         None \<Rightarrow> None
                       | Some (r, outs, tunnels, e) \<Rightarrow> Some (r, out # outs, tunnels, e)))))"

text \<open>What a client does after the bytes it sends: it closes its side, the connection breaks, or it stays
  connected and sends nothing more. There is no timeout, so the last makes \<^verbatim>\<open>next_line\<close> wait for ever.\<close>

datatype socket_end = ClientClosed | ReadFailed anyhow | ClientSilent

datatype conn_state = ConnReturned "(anyhow, unit) result" | ConnWaiting

text \<open>The adapter \<^verbatim>\<open>take\<close> reports the end of the input after \<open>MAX_CONN_BYTES\<close> bytes, whatever the client does.\<close>

definition conn_ended :: "bytes \<Rightarrow> socket_end \<Rightarrow> bool" where
  "conn_ended input final \<longleftrightarrow> MAX_CONN_BYTES \<le> length input \<or> final = ClientClosed"

definition serve_conn ::
  "'a externs_scheme \<Rightarrow> 'e net_env \<Rightarrow> ('e \<Rightarrow> (string, (string, u16) result) result \<times> 'e)
     \<Rightarrow> (peer_id \<Rightarrow> u64 option) \<Rightarrow> (string \<Rightarrow> (string, request) result) \<Rightarrow> (response \<Rightarrow> bytes)
     \<Rightarrow> (nat \<Rightarrow> (anyhow, unit) result) \<Rightarrow> string \<Rightarrow> bytes \<Rightarrow> socket_end \<Rightarrow> tunnel_map \<Rightarrow> 'e
     \<Rightarrow> (conn_state \<times> bytes list \<times> tunnel_map \<times> 'e) option" where
  "serve_conn X E bind_ephemeral rtt_ms from_json to_json written token input final tunnels e =
     (case serve_lines from_json to_json written (handle_request X E bind_ephemeral rtt_ms token)
         (read_lines (conn_ended input final) [] (take MAX_CONN_BYTES input)) 0 tunnels e of
        None \<Rightarrow> None
      | Some (Err m, outs, tunnels, e) \<Rightarrow> Some (ConnReturned (Err m), outs, tunnels, e)
      | Some (Ok _, outs, tunnels, e) \<Rightarrow>
          Some (if conn_ended input final then ConnReturned (Ok ())
                else (case final of ReadFailed m \<Rightarrow> ConnReturned (Err m) | _ \<Rightarrow> ConnWaiting),
            outs, tunnels, e))"

section \<open>Starting and stopping\<close>

text \<open>\<^verbatim>\<open>json!({"port": .., "token": ..}).to_string()\<close>.\<close>

definition control_json :: "u16 \<Rightarrow> string \<Rightarrow> string" where
  "control_json port token =
     ''{'' @ quoted ''port'' @ '':'' @ dec_string (unat port) @ '','' @ quoted ''token'' @ '':'' @
     quoted token @ ''}''"

text \<open>\<^verbatim>\<open>run\<close> up to its loop: \<open>spawned\<close> is the result of \<^verbatim>\<open>net::spawn\<close>, \<open>bound\<close> that of binding the control
  port and reading it back. It yields the port, the token and the path of the control file. (The result
  of \<^verbatim>\<open>create_dir_all\<close> is ignored by the code.)\<close>

definition agent_start ::
  "(anyhow, unit) result \<Rightarrow> (string, (string, u16) result) result \<Rightarrow> (string, bytes) result
     \<Rightarrow> u16 \<Rightarrow> 'a os_scheme \<Rightarrow> (anyhow, u16 \<times> string \<times> path) result \<times> 'a os_scheme" where
  "agent_start spawned bound os_random control_port w =
     (case (tryq spawned (\<lambda>_.
            tryq (map_err (\<lambda>_. ''binding agent control port 127.0.0.1:'' @ dec_string (unat control_port))
              bound) (\<lambda>local_addr.
            tryq local_addr (\<lambda>port.
            tryq (random_token os_random) (\<lambda>token.
            tryq (config_dir w) (\<lambda>d. Ok (port, token, join_path d ''control.json''))))))) of
        Err m \<Rightarrow> (Err m, w)
      | Ok (port, token, control_path) \<Rightarrow>
          (case write_owner_only w control_path (as_bytes (control_json port token)) of
             (Err _, w) \<Rightarrow> (Err ''writing control.json'', w)
           | (Ok _, w) \<Rightarrow> (Ok (port, token, control_path), w)))"

text \<open>The end of \<^verbatim>\<open>run\<close>, after the loop has ended with \<open>result\<close>.\<close>

definition agent_stop ::
  "(anyhow, unit) result \<Rightarrow> path \<Rightarrow> 'a os_scheme \<Rightarrow> (anyhow, unit) result \<times> 'a os_scheme" where
  "agent_stop result control_path w = (result, snd (fs_remove_file w control_path))"

section \<open>The token check\<close>

lemma or_eq_0_iff: "or a b = 0 \<longleftrightarrow> a = 0 \<and> b = (0 :: u8)"
  by (auto simp: bit_eq_iff bit_simps)

lemma fold_xor_zip:
  "foldl (\<lambda>acc (a, b). or acc (xor a b)) acc (zip xs ys) = (0 :: u8) \<longleftrightarrow>
     acc = 0 \<and> list_all2 (=) (take (length ys) xs) (take (length xs) ys)"
proof (induction xs arbitrary: ys acc)
  case (Cons x xs)
  have "xor x y = 0 \<longleftrightarrow> x = y" for y :: u8 by (auto simp: bit_eq_iff bit_simps)
  with Cons show ?case by (cases ys) (auto simp: or_eq_0_iff)
qed simp

lemma token_ok_iff: "token_ok expected given \<longleftrightarrow> expected = given"
proof -
  have "list_all2 (=) (as_bytes s) (as_bytes t) \<longleftrightarrow> s = t" for s t
    by (simp add: list.rel_eq)
  then show ?thesis
    by (auto simp: token_ok_def fold_xor_zip as_bytes_def)
qed

section \<open>Requests change state only with the token\<close>

lemma handle_request_local:
  assumes "rq_op req \<noteq> ''resolve'' \<or> rq_token req \<noteq> token"
  shows "\<exists>resp. handle_request X E b ping token req tunnels e = Some (resp, tunnels, e)"
  using assms by (auto simp: handle_request_def token_ok_iff Let_def split: option.split)

lemma handle_request_resolve:
  assumes "rq_op req = ''resolve''" and "rq_token req = token"
  shows "handle_request X E b ping token req tunnels e =
    map_option (\<lambda>(r, t, e). (case r of
        Ok port \<Rightarrow> Resolved (rq_name req) (''127.0.0.1:'' @ dec_string (unat port))
      | Err m \<Rightarrow> Failed m, t, e)) (resolve_and_tunnel X E b (rq_name req) tunnels e)"
  using assms
  by (cases "resolve_and_tunnel X E b (rq_name req) tunnels e")
    (auto simp: handle_request_def token_ok_iff split: sum.split)

lemma resolve_and_tunnel_hit:
  "resolve_lookup s tunnels = Inl r \<Longrightarrow>
   resolve_and_tunnel X E b s tunnels e = Some (r, tunnels, e)"
  by (simp add: resolve_and_tunnel_def)

text \<open>C12. The control endpoint acts only for holders of the token: a request changes the tunnel table or
  touches the network only if it is a \<^verbatim>\<open>resolve\<close> with exactly the agent's token for a valid name that has
  no tunnel yet; and without the token, \<^verbatim>\<open>resolve\<close> and \<^verbatim>\<open>rtt\<close> get an error and nothing else.\<close>

theorem agent_effects_authorized:
  "(handle_request X E b ping token req tunnels e = Some (resp, tunnels', e') \<and>
      (tunnels' \<noteq> tunnels \<or> e' \<noteq> e) \<longrightarrow>
      rq_op req = ''resolve'' \<and> rq_token req = token \<and>
      (\<exists>n. Name_parse (rq_name req) = Ok n \<and> tunnels (Name_to_string n) = None)) \<and>
   (rq_token req \<noteq> token \<and> (rq_op req = ''resolve'' \<or> rq_op req = ''rtt'') \<longrightarrow>
      (\<exists>m. handle_request X E b ping token req tunnels e = Some (Failed m, tunnels, e)))"
proof (intro conjI impI)
  assume change: "handle_request X E b ping token req tunnels e = Some (resp, tunnels', e') \<and>
    (tunnels' \<noteq> tunnels \<or> e' \<noteq> e)"
  then show auth: "rq_op req = ''resolve''" "rq_token req = token"
    using handle_request_local [of req token X E b ping tunnels e] by auto
  obtain r where "resolve_and_tunnel X E b (rq_name req) tunnels e = Some (r, tunnels', e')"
    using change handle_request_resolve [OF auth, of X E b ping tunnels e] by auto
  then obtain x where "resolve_lookup (rq_name req) tunnels = Inr x"
    using change by (cases "resolve_lookup (rq_name req) tunnels") (auto simp: resolve_and_tunnel_hit)
  then show "\<exists>n. Name_parse (rq_name req) = Ok n \<and> tunnels (Name_to_string n) = None"
    by (auto simp: resolve_lookup_def Let_def split: sum.splits option.splits)
next
  assume "rq_token req \<noteq> token \<and> (rq_op req = ''resolve'' \<or> rq_op req = ''rtt'')"
  then show "\<exists>m. handle_request X E b ping token req tunnels e = Some (Failed m, tunnels, e)"
    by (auto simp: handle_request_def token_ok_iff)
qed

text \<open>Every request is answered when the clock behaves: the only await without a bound of its own is the
  resolve loop, which returns.\<close>

lemma establish_returns:
  assumes "clock_laws E"
  shows "establish X E name e \<noteq> None"
  using assms
proof (rule resolve_total)
  fix r a e'
  assume "resolve X E name e = Some (r, a, e')"
  then show ?thesis by (simp add: establish_def split: sum.split)
qed

lemma handle_request_returns:
  assumes "clock_laws E"
  shows "handle_request X E b ping token req tunnels e \<noteq> None"
proof -
  have "resolve_and_tunnel X E b s tunnels e \<noteq> None" for s
    by (auto simp: resolve_and_tunnel_def establish_returns [OF assms] simp del: not_None_eq
        split: sum.split option.split prod.split)
  then show ?thesis
    using handle_request_local [of req token X E b ping tunnels e]
      handle_request_resolve [of req token X E b ping tunnels e]
    by (cases "rq_op req = ''resolve'' \<and> rq_token req = token") auto
qed

text \<open>The lines of a connection and what they hold together.\<close>

lemma read_lines_size: "sum_list (map length (read_lines ended acc bs)) \<le> length acc + length bs"
proof (induction ended acc bs rule: read_lines.induct)
  case (2 ended acc b bs)
  then show ?case by (cases "b = 10") (auto simp: strip_cr_def)
qed simp

definition blank :: "bytes \<Rightarrow> bool" where
  "blank l \<longleftrightarrow> (\<exists>s. from_utf8 l = Some s \<and> trim s = [])"

lemma serve_lines_total:
  assumes "\<And>req t e. handle req t e \<noteq> None"
  shows "\<exists>r outs t' e'. serve_lines from_json to_json written handle ls i t e = Some (r, outs, t', e') \<and>
    length outs \<le> length (filter (\<lambda>l. \<not> blank l) ls) \<and>
    ((\<forall>i. written i = Ok ()) \<and> list_all utf8_valid ls \<longrightarrow>
       r = Ok () \<and> length outs = length (filter (\<lambda>l. \<not> blank l) ls))"
proof (induction ls arbitrary: i t e)
  case (Cons l ls)
  show ?case
  proof (cases "from_utf8 l")
    case None
    then show ?thesis by (simp add: from_utf8_def split: if_splits)
  next
    case (Some s)
    show ?thesis
    proof (cases "trim s = []")
      case True
      then have "blank l" using Some by (simp add: blank_def)
      with True Some Cons [of i t e] show ?thesis by auto
    next
      case False
      with Some have nb: "\<not> blank l" by (simp add: blank_def)
      obtain resp t1 e1 where h: "(case from_json (trim s) of
          Ok req \<Rightarrow> handle req t e | Err m \<Rightarrow> Some (Failed (''bad request: '' @ m), t, e)) =
          Some (resp, t1, e1)"
        using assms [of "projr (from_json (trim s))" t e] by (cases "from_json (trim s)") auto
      show ?thesis
      proof (cases "written i")
        case (Inl m)
        with Some False nb h show ?thesis by (simp add: Let_def) (metis sum.distinct(1))
      next
        case (Inr u)
        with Some False nb h Cons [of "Suc i" t1 e1] show ?thesis by (auto simp: Let_def)
      qed
    qed
  qed
qed simp

text \<open>C30. A control connection is bounded and answered: whatever a client sends and whether it then closes its side,
  breaks the connection or stays silent, \<^verbatim>\<open>serve_conn\<close> looks at 64 KiB at most and writes at most one response
  per non-blank line. If the lines are UTF-8 and the socket takes the responses, every complete line that was sent is
  answered, without waiting for more, and the connection ends regularly when the client closes it or has sent 64
  KiB, with an error when reading fails; only for a client that stays connected, has sent less and sends nothing
  more does it wait.\<close>

theorem serve_conn_answers:
  assumes "clock_laws E"
  shows "\<exists>st outs t' e' lines.
    serve_conn X E b ping from_json to_json written token input final t e = Some (st, outs, t', e') \<and>
    lines = read_lines (65536 \<le> length input \<or> final = ClientClosed) [] (take 65536 input) \<and>
    sum_list (map length lines) \<le> 65536 \<and>
    length outs \<le> length (filter (\<lambda>l. \<not> blank l) lines) \<and>
    (st = ConnWaiting \<longrightarrow> final = ClientSilent \<and> length input < 65536) \<and>
    ((\<forall>i. written i = Ok ()) \<and> list_all utf8_valid lines \<longrightarrow>
       length outs = length (filter (\<lambda>l. \<not> blank l) lines) \<and>
       st = (if 65536 \<le> length input \<or> final = ClientClosed then ConnReturned (Ok ())
             else case final of ReadFailed m \<Rightarrow> ConnReturned (Err m) | _ \<Rightarrow> ConnWaiting))"
proof -
  have ended: "conn_ended input final \<longleftrightarrow> 65536 \<le> length input \<or> final = ClientClosed"
    by (simp add: conn_ended_def MAX_CONN_BYTES_def)
  let ?ls = "read_lines (65536 \<le> length input \<or> final = ClientClosed) [] (take 65536 input)"
  have size: "sum_list (map length ?ls) \<le> 65536"
    using read_lines_size [of _ "[]" "take 65536 input"] by (rule order_trans) simp
  obtain r outs t' e' where lines:
    "serve_lines from_json to_json written (handle_request X E b ping token) ?ls 0 t e = Some (r, outs, t', e')"
    "length outs \<le> length (filter (\<lambda>l. \<not> blank l) ?ls)"
    "(\<forall>i. written i = Ok ()) \<and> list_all utf8_valid ?ls \<longrightarrow>
       r = Ok () \<and> length outs = length (filter (\<lambda>l. \<not> blank l) ?ls)"
    using serve_lines_total [where handle = "handle_request X E b ping token" and ls = ?ls,
        OF handle_request_returns [OF assms], of from_json to_json written 0 t e] by blast
  let ?st = "case r of Err m \<Rightarrow> ConnReturned (Err m)
    | Ok _ \<Rightarrow> if 65536 \<le> length input \<or> final = ClientClosed then ConnReturned (Ok ())
        else (case final of ReadFailed m \<Rightarrow> ConnReturned (Err m) | _ \<Rightarrow> ConnWaiting)"
  have "serve_conn X E b ping from_json to_json written token input final t e = Some (?st, outs, t', e')"
    using lines(1) unfolding serve_conn_def ended MAX_CONN_BYTES_def by (simp split: sum.split)
  moreover have "?st = ConnWaiting \<longrightarrow> final = ClientSilent \<and> length input < 65536"
    by (auto split: sum.split socket_end.split)
  moreover have "(\<forall>i. written i = Ok ()) \<and> list_all utf8_valid ?ls \<longrightarrow>
      ?st = (if 65536 \<le> length input \<or> final = ClientClosed then ConnReturned (Ok ())
             else case final of ReadFailed m \<Rightarrow> ConnReturned (Err m) | _ \<Rightarrow> ConnWaiting)"
    using lines(3) by auto
  ultimately show ?thesis using lines(2,3) size by blast
qed

section \<open>Concurrent requests\<close>

text \<open>The tunnel table with the resolves in flight, each with its name and key. A resolve that
  finds its name in the table ends at once; one that does not runs \<^verbatim>\<open>establish\<close> in some state of the
  world, while other requests proceed, and then inserts.\<close>

record agent =
  ag_tunnels :: tunnel_map
  ag_pending :: "(name \<times> string) list"

datatype agent_action =
    BeginResolve string
  | EndResolve nat peer_id u16
  | FailResolve nat

inductive agent_step ::
  "'a externs_scheme \<Rightarrow> 'e net_env \<Rightarrow> agent \<Rightarrow> agent_action \<Rightarrow> agent \<Rightarrow> bool"
  for X :: "'a externs_scheme" and E :: "'e net_env" where
  resolve_hit: "resolve_lookup s (ag_tunnels a) = Inl r \<Longrightarrow> agent_step X E a (BeginResolve s) a"
| resolve_miss: "resolve_lookup s (ag_tunnels a) = Inr nk \<Longrightarrow>
     agent_step X E a (BeginResolve s) (a\<lparr>ag_pending := ag_pending a @ [nk]\<rparr>)"
| resolve_done: "i < length (ag_pending a) \<Longrightarrow> ag_pending a ! i = (name, key) \<Longrightarrow>
     establish X E name e = Some (Ok peer, e') \<Longrightarrow>
     agent_step X E a (EndResolve i peer port)
       (a\<lparr>ag_tunnels := (ag_tunnels a)(key \<mapsto> (port, peer)),
          ag_pending := take i (ag_pending a) @ drop (Suc i) (ag_pending a)\<rparr>)"
| resolve_failed: "i < length (ag_pending a) \<Longrightarrow>
     agent_step X E a (FailResolve i)
       (a\<lparr>ag_pending := take i (ag_pending a) @ drop (Suc i) (ag_pending a)\<rparr>)"

definition agent_initial :: agent where
  "agent_initial = \<lparr>ag_tunnels = Map.empty, ag_pending = []\<rparr>"

definition agent_inv :: "'a externs_scheme \<Rightarrow> 'e net_env \<Rightarrow> agent \<Rightarrow> bool" where
  "agent_inv X E a \<longleftrightarrow>
     (\<forall>(name, key) \<in> set (ag_pending a). name_wf name \<and> key = Name_to_string name) \<and>
     (\<forall>key port peer. ag_tunnels a key = Some (port, peer) \<longrightarrow>
        (\<exists>name e e'. name_wf name \<and> key = Name_to_string name \<and>
           establish X E name e = Some (Ok peer, e')))"

lemma resolve_lookup_miss:
  "resolve_lookup s t = Inr (name, key) \<Longrightarrow> name_wf name \<and> key = Name_to_string name"
  by (auto simp: resolve_lookup_def Let_def name_text.parse_valid split: sum.splits option.splits)

lemma agent_inv_step:
  assumes "agent_inv X E a" and "agent_step X E a act a'"
  shows "agent_inv X E a'"
  using assms(2)
proof cases
  case (resolve_miss s nk)
  then show ?thesis
    using assms(1) resolve_lookup_miss [of s "ag_tunnels a" "fst nk" "snd nk"]
    by (auto simp: agent_inv_def)
next
  case (resolve_done i name key e peer e' port)
  then have "(name, key) \<in> set (ag_pending a)" by (metis nth_mem)
  with resolve_done assms(1) show ?thesis
    by (fastforce simp: agent_inv_def dest: in_set_takeD in_set_dropD)
next
  case (resolve_failed i)
  then show ?thesis
    using assms(1) by (fastforce simp: agent_inv_def dest: in_set_takeD in_set_dropD)
qed (use assms(1) in simp)

lemma agent_inv_initial: "agent_inv X E agent_initial"
  by (simp add: agent_inv_def agent_initial_def)

lemma agent_inv_owner:
  assumes "agent_inv X E a" and "Name_parse s = Ok name"
    and "ag_tunnels a (Name_to_string name) = Some (port, peer)" and "keyid_binds X (name_keyid name) pk"
  shows "ne_ed25519_peer E pk = Ok peer"
proof -
  obtain name' e e' where n': "name_wf name'" "Name_to_string name = Name_to_string name'"
    "establish X E name' e = Some (Ok peer, e')"
    using assms(1,3) unfolding agent_inv_def by metis
  then have "name' = name"
    using name_text.print_inject name_text.parse_valid [OF assms(2)] by metis
  with n'(3) have "establish X E name e = Some (Ok peer, e')" by simp
  then show ?thesis by (rule establish_owner [OF assms(4)])
qed

text \<open>A name that has its tunnel and no resolve in flight.\<close>

definition settled :: "string \<Rightarrow> u16 \<Rightarrow> peer_id \<Rightarrow> agent \<Rightarrow> bool" where
  "settled key port peer a \<longleftrightarrow> ag_tunnels a key = Some (port, peer) \<and> key \<notin> snd ` set (ag_pending a)"

lemma settled_step:
  assumes "settled key port peer a" and "agent_step X E a act a'"
  shows "settled key port peer a'"
  using assms(2)
proof cases
  case (resolve_miss s nk)
  then have "ag_tunnels a (snd nk) = None"
    by (auto simp: resolve_lookup_def Let_def split: sum.splits option.splits)
  with assms(1) resolve_miss show ?thesis by (auto simp: settled_def)
next
  case (resolve_done i name key' e peer' e' port')
  then have "key' \<in> snd ` set (ag_pending a)" using nth_mem [of i "ag_pending a"] by force
  with assms(1) resolve_done show ?thesis
    by (auto simp: settled_def dest: in_set_takeD in_set_dropD)
next
  case (resolve_failed i)
  with assms(1) show ?thesis by (auto simp: settled_def dest: in_set_takeD in_set_dropD)
qed (use assms(1) in simp)

text \<open>C31. Reuse of tunnels: once a name has a tunnel and no resolve of it that began before is still in flight, the
  name keeps this tunnel under every interleaving of later requests, and every \<^verbatim>\<open>resolve\<close> of a spelling of the
  name (other case, surrounding spaces) is answered with its port at once, without using the network.\<close>

theorem agent_reuses_tunnel:
  assumes "ag_tunnels a (Name_to_string name) = Some (port, peer)"
    and "Name_to_string name \<notin> snd ` set (ag_pending a)"
    and "trace (agent_step X E) a acts a'" and "Name_parse s = Ok name"
  shows "ag_tunnels a' (Name_to_string name) = Some (port, peer) \<and>
    handle_request X E b ping token \<lparr>rq_op = ''resolve'', rq_name = s, rq_token = token\<rparr> (ag_tunnels a') e =
      Some (Resolved s (''127.0.0.1:'' @ dec_string (unat port)), ag_tunnels a', e)"
proof -
  have "settled (Name_to_string name) port peer a'"
    using assms(3)
  proof (rule trace_invariant [where I = "settled (Name_to_string name) port peer"])
    show "settled (Name_to_string name) port peer a" using assms(1,2) by (simp add: settled_def)
  qed (rule settled_step)
  then have kept: "ag_tunnels a' (Name_to_string name) = Some (port, peer)" by (simp add: settled_def)
  then have "resolve_lookup s (ag_tunnels a') = Inl (Ok port)"
    using assms(4) by (simp add: resolve_lookup_def)
  with kept show ?thesis by (simp add: handle_request_def token_ok_iff resolve_and_tunnel_hit)
qed

text \<open>C32. What happens otherwise: two requests that ask for the same name before either is done both establish a
  tunnel, and the second replaces the first in the table. The first client was told one port, everyone after
  is told another, and the agent has two listeners for the name.\<close>

theorem agent_duplicates_tunnel:
  assumes "Name_parse s = Ok name" and "ag_tunnels a (Name_to_string name) = None"
    and "establish X E name e1 = Some (Ok peer1, e1')" and "establish X E name e2 = Some (Ok peer2, e2')"
  shows "\<exists>i a1 a2. trace (agent_step X E) a [BeginResolve s, BeginResolve s, EndResolve i peer1 port1] a1 \<and>
    ag_tunnels a1 (Name_to_string name) = Some (port1, peer1) \<and>
    trace (agent_step X E) a1 [EndResolve i peer2 port2] a2 \<and>
    ag_tunnels a2 (Name_to_string name) = Some (port2, peer2)"
proof -
  let ?k = "Name_to_string name" and ?i = "length (ag_pending a)"
  let ?p = "\<lambda>n. a\<lparr>ag_pending := ag_pending a @ replicate n (name, ?k)\<rparr>"
  have miss: "resolve_lookup s (ag_tunnels (?p n)) = Inr (name, ?k)" for n
    using assms(1,2) by (simp add: resolve_lookup_def)
  have ask: "agent_step X E (?p n) (BeginResolve s) (?p (Suc n))" for n
    using resolve_miss [OF miss, of X E n] by (simp add: replicate_append_same)
  have first: "agent_step X E (?p 2) (EndResolve ?i peer1 port1) ((?p 1)\<lparr>ag_tunnels := (ag_tunnels a)(?k \<mapsto> (port1, peer1))\<rparr>)"
    using resolve_done [of ?i "?p 2" name ?k, OF _ _ assms(3), of port1] by (cases a) (simp add: numeral_2_eq_2)
  have second: "agent_step X E ((?p 1)\<lparr>ag_tunnels := (ag_tunnels a)(?k \<mapsto> (port1, peer1))\<rparr>) (EndResolve ?i peer2 port2)
      ((?p 0)\<lparr>ag_tunnels := (ag_tunnels a)(?k \<mapsto> (port2, peer2))\<rparr>)"
    using resolve_done [of ?i "(?p 1)\<lparr>ag_tunnels := (ag_tunnels a)(?k \<mapsto> (port1, peer1))\<rparr>" name ?k, OF _ _ assms(4), of port2]
    by (cases a) simp
  have "a = ?p 0" by simp
  with ask [of 0] ask [of 1] first have
    begun: "trace (agent_step X E) a [BeginResolve s, BeginResolve s, EndResolve ?i peer1 port1]
       ((?p 1)\<lparr>ag_tunnels := (ag_tunnels a)(?k \<mapsto> (port1, peer1))\<rparr>)"
    unfolding trace_simps numeral_2_eq_2 One_nat_def by metis
  show ?thesis
  proof (intro exI conjI)
    show "trace (agent_step X E) a [BeginResolve s, BeginResolve s, EndResolve ?i peer1 port1]
       ((?p 1)\<lparr>ag_tunnels := (ag_tunnels a)(?k \<mapsto> (port1, peer1))\<rparr>)" by (rule begun)
    show "trace (agent_step X E) ((?p 1)\<lparr>ag_tunnels := (ag_tunnels a)(?k \<mapsto> (port1, peer1))\<rparr>)
      [EndResolve ?i peer2 port2] ((?p 0)\<lparr>ag_tunnels := (ag_tunnels a)(?k \<mapsto> (port2, peer2))\<rparr>)"
      using second by blast
  qed simp_all
qed

text \<open>C13. Every tunnel of the agent leads to the owner of its name, under every interleaving of concurrent
  requests: if the table has an entry for a name that belongs to \<open>pk\<close>, its peer is the one derived
  from \<open>pk\<close>.\<close>

theorem agent_tunnels_authentic:
  assumes "trace (agent_step X E) agent_initial acts a"
    and "Name_parse s = Ok name" and "ag_tunnels a (Name_to_string name) = Some (port, peer)"
    and "keyid_binds X (name_keyid name) pk"
  shows "ne_ed25519_peer E pk = Ok peer"
proof -
  have "agent_inv X E a"
    using trace_invariant [where I = "agent_inv X E", OF assms(1) agent_inv_initial] agent_inv_step
    by blast
  then show ?thesis using assms(2-4) by (rule agent_inv_owner)
qed

section \<open>A concrete agent\<close>

definition demo_bind :: "nat \<Rightarrow> (string, (string, u16) result) result \<times> nat" where
  "demo_bind e = (Ok (Ok 5000), e)"

definition demo_request :: "string \<Rightarrow> request" where
  "demo_request tok = \<lparr>rq_op = ''resolve'', rq_name = Name_to_string owner_name, rq_token = tok\<rparr>"

lemma demo_resolve:
  "handle_request owner_externs demo_env demo_bind (\<lambda>_. None) ''t'' (demo_request ''t'') Map.empty 0 =
     Some (Resolved (Name_to_string owner_name) ''127.0.0.1:5000'',
       [Name_to_string owner_name \<mapsto> (5000, ''12D3'')], 0)"
proof -
  have "resolve_lookup (Name_to_string owner_name) Map.empty =
      Inr (owner_name, Name_to_string owner_name)"
    by (simp add: resolve_lookup_def owner_name_parse)
  moreover have "dec_string 5000 = ''5000''"
    by code_simp
  ultimately show ?thesis
    by (simp add: handle_request_def demo_request_def token_ok_iff resolve_and_tunnel_def
        demo_establish demo_bind_def)
qed

theorem agent_effects_authorized_witness:
  "(\<exists>m. handle_request owner_externs demo_env demo_bind (\<lambda>_. None) ''t'' (demo_request ''x'') Map.empty 0
      = Some (Failed m, Map.empty, 0)) \<and>
   (\<exists>n. Name_parse (rq_name (demo_request ''t'')) = Ok n \<and>
      (Map.empty :: tunnel_map) (Name_to_string n) = None)"
  using agent_effects_authorized [of owner_externs demo_env demo_bind "\<lambda>_. None" "''t''" "demo_request ''x''"
      Map.empty 0]
    agent_effects_authorized [of owner_externs demo_env demo_bind "\<lambda>_. None" "''t''" "demo_request ''t''"
      Map.empty 0 "Resolved (Name_to_string owner_name) ''127.0.0.1:5000''"
      "[Name_to_string owner_name \<mapsto> (5000, ''12D3'')]" 0] demo_resolve
  by (auto simp: demo_request_def)

theorem serve_conn_answers_witness:
  "\<exists>outs t' e'. serve_conn owner_externs demo_env demo_bind (\<lambda>_. None) (\<lambda>s. Err ''no'')
     (\<lambda>r. [123, 125]) (\<lambda>i. Ok ()) ''t'' [120, 10, 10, 121] ClientSilent Map.empty 0 = Some (ConnWaiting, outs, t', e') \<and>
     length outs = length (filter (\<lambda>l. \<not> blank l) [[120], []])"
  using serve_conn_answers [OF demo_env_clock, of owner_externs demo_bind "\<lambda>_. None" "\<lambda>s. Err ''no''"
      "\<lambda>r. [123, 125]" "\<lambda>i. Ok ()" "''t''" "[120, 10, 10, 121]" ClientSilent Map.empty 0]
  by (auto simp: strip_cr_def)

definition demo_agent :: agent where
  "demo_agent = \<lparr>ag_tunnels = [Name_to_string owner_name \<mapsto> (5000, ''12D3'')], ag_pending = []\<rparr>"

lemma demo_agent_trace:
  "trace (agent_step owner_externs demo_env) agent_initial
     [BeginResolve (Name_to_string owner_name), EndResolve 0 ''12D3'' 5000] demo_agent"
proof -
  let ?p = "agent_initial\<lparr>ag_pending := [(owner_name, Name_to_string owner_name)]\<rparr>"
  have "resolve_lookup (Name_to_string owner_name) (ag_tunnels agent_initial) =
      Inr (owner_name, Name_to_string owner_name)"
    by (simp add: resolve_lookup_def owner_name_parse agent_initial_def)
  from resolve_miss [OF this] have
    "agent_step owner_externs demo_env agent_initial (BeginResolve (Name_to_string owner_name)) ?p"
    by (simp add: agent_initial_def)
  moreover have "agent_step owner_externs demo_env ?p (EndResolve 0 ''12D3'' 5000) demo_agent"
    using resolve_done [of 0 ?p owner_name "Name_to_string owner_name", OF _ _ demo_establish, of 5000]
    by (simp add: demo_agent_def agent_initial_def)
  ultimately show ?thesis by (metis trace_Cons trace_Nil)
qed

theorem agent_tunnels_authentic_witness:
  "ag_tunnels demo_agent (Name_to_string owner_name) = Some (5000, ''12D3'') \<and>
   ne_ed25519_peer demo_env (replicate 32 7) = Ok ''12D3''"
proof -
  have "keyid_binds owner_externs (name_keyid owner_name) (replicate 32 7)"
    using owner_assumptions(1) by (simp add: owner_name_def)
  moreover have "ag_tunnels demo_agent (Name_to_string owner_name) = Some (5000, ''12D3'')"
    by (simp add: demo_agent_def)
  ultimately show ?thesis
    using agent_tunnels_authentic [OF demo_agent_trace owner_name_parse] by blast
qed

theorem agent_reuses_tunnel_witness:
  "handle_request owner_externs demo_env demo_bind (\<lambda>_. None) ''t''
     \<lparr>rq_op = ''resolve'', rq_name = Name_to_string owner_name, rq_token = ''t''\<rparr> (ag_tunnels demo_agent) 7 =
   Some (Resolved (Name_to_string owner_name) (''127.0.0.1:'' @ dec_string (unat (5000 :: u16))), ag_tunnels demo_agent, 7)"
proof -
  have "ag_tunnels demo_agent (Name_to_string owner_name) = Some (5000, ''12D3'')"
    and "Name_to_string owner_name \<notin> snd ` set (ag_pending demo_agent)"
    by (simp_all add: demo_agent_def)
  moreover have "agent_step owner_externs demo_env demo_agent (BeginResolve (Name_to_string owner_name)) demo_agent"
    by (rule resolve_hit [where r = "Ok 5000"]) (simp add: resolve_lookup_def owner_name_parse demo_agent_def)
  then have "trace (agent_step owner_externs demo_env) demo_agent [BeginResolve (Name_to_string owner_name)] demo_agent"
    by blast
  ultimately show ?thesis by (rule conjunct2 [OF agent_reuses_tunnel [OF _ _ _ owner_name_parse]])
qed

theorem agent_duplicates_tunnel_witness:
  "\<exists>i a1 a2. trace (agent_step owner_externs demo_env) agent_initial
      [BeginResolve (Name_to_string owner_name), BeginResolve (Name_to_string owner_name), EndResolve i ''12D3'' 5000] a1 \<and>
    ag_tunnels a1 (Name_to_string owner_name) = Some (5000, ''12D3'') \<and>
    trace (agent_step owner_externs demo_env) a1 [EndResolve i ''12D3'' 5001] a2 \<and>
    ag_tunnels a2 (Name_to_string owner_name) = Some (5001, ''12D3'')"
  by (rule agent_duplicates_tunnel [OF owner_name_parse _ demo_establish demo_establish])
    (simp add: agent_initial_def)

end
