(* ===== verification/F64.thy ===== *)
theory F64
  imports Complex_Main "HOL-Library.Log_Nat"
begin

text \<open>
  Rust's \<^verbatim>\<open>f64\<close> as the rate limiter of \<^verbatim>\<open>crates/proxy/src/lib.rs\<close> uses it. A finite double is a
  rational number, and each operation is the exact one followed by rounding to nearest, ties to
  even, with 53 significant bits. The exponent is not bounded here: every non-zero value the
  limiter computes lies between \<open>2 ^ -60\<close> and \<open>2 ^ 100\<close>, far inside the range of normal doubles,
  so neither overflow nor gradual underflow occurs.

  The locale \<open>rounding\<close> states what the limiter's correctness needs of the arithmetic; it is
  interpreted on the definitions below.
\<close>

section \<open>Rounding to 53 bits\<close>

text \<open>The binary exponent of a positive rational: \<open>2 powi ilog2 x \<le> x < 2 powi (ilog2 x + 1)\<close>.\<close>

definition ilog2 :: "rat \<Rightarrow> int" where
  "ilog2 x = (let (p, q) = quotient_of x; k = bitlen p - bitlen q
     in if 2 powi k \<le> x then k else k - 1)"

definition round_even :: "rat \<Rightarrow> int" where
  "round_even m = (let f = \<lfloor>m\<rfloor>; d = m - of_int f
     in if d < 1 / 2 then f else if d > 1 / 2 then f + 1 else if even f then f else f + 1)"

definition f64_round_pos :: "rat \<Rightarrow> rat" where
  "f64_round_pos x = (let u = 2 powi (ilog2 x - 52) in of_int (round_even (x / u)) * u)"

definition f64_round :: "rat \<Rightarrow> rat" where
  "f64_round x = (if x = 0 then 0 else if x > 0 then f64_round_pos x else - f64_round_pos (- x))"

section \<open>The operations\<close>

definition f64_add :: "rat \<Rightarrow> rat \<Rightarrow> rat" where
  "f64_add x y = f64_round (x + y)"

definition f64_sub :: "rat \<Rightarrow> rat \<Rightarrow> rat" where
  "f64_sub x y = f64_round (x - y)"

definition f64_mul :: "rat \<Rightarrow> rat \<Rightarrow> rat" where
  "f64_mul x y = f64_round (x * y)"

definition f64_div :: "rat \<Rightarrow> rat \<Rightarrow> rat" where
  "f64_div x y = f64_round (x / y)"

text \<open>\<^verbatim>\<open>n as f64\<close> for an unsigned integer.\<close>

definition f64_of_nat :: "nat \<Rightarrow> rat" where
  "f64_of_nat n = f64_round (of_nat n)"

text \<open>\<^verbatim>\<open>Duration::as_secs_f64\<close>, on a number of nanoseconds.\<close>

definition as_secs_f64 :: "nat \<Rightarrow> rat" where
  "as_secs_f64 d = f64_add (f64_of_nat (d div 1000000000))
     (f64_div (f64_of_nat (d mod 1000000000)) (f64_of_nat 1000000000))"

section \<open>The exponent\<close>

lemma powi_2_le: "(2 :: rat) powi a \<le> 2 powi b \<longleftrightarrow> a \<le> b"
  using power_int_strict_increasing [of b a "2 :: rat"] power_int_increasing [of a b "2 :: rat"]
  by (auto simp: not_le [symmetric])

lemma bitlen_powi:
  assumes "0 < p"
  shows "2 powi (bitlen p - 1) \<le> (of_int p :: rat)" and "of_int p < (2 :: rat) powi bitlen p"
proof -
  have b: "1 \<le> bitlen p"
    using assms bitlen_nonneg [of p] by (simp add: bitlen_alt_def)
  note bounds = bitlen_bounds [OF assms]
  have "of_int (2 ^ nat (bitlen p - 1)) \<le> (of_int p :: rat)"
    using bounds by (simp only: of_int_le_iff)
  then show "2 powi (bitlen p - 1) \<le> (of_int p :: rat)"
    using b by (simp add: power_int_nonneg_exp)
  have "of_int p < (of_int (2 ^ nat (bitlen p)) :: rat)"
    using bounds by (simp only: of_int_less_iff)
  then show "of_int p < (2 :: rat) powi bitlen p"
    using b by (simp add: power_int_nonneg_exp)
qed

lemma ilog2_bounds:
  assumes "0 < x"
  shows "2 powi ilog2 x \<le> x" and "x < 2 powi (ilog2 x + 1)"
proof -
  obtain p q where pq: "quotient_of x = (p, q)" by fastforce
  then have q: "0 < q" and x: "x = of_int p / of_int q"
    using quotient_of_denom_pos quotient_of_div by auto
  with assms have p: "0 < p" by (simp add: zero_less_divide_iff)
  define k where "k = bitlen p - bitlen q"
  have "(2 :: rat) powi (k - 1) = 2 powi (bitlen p - 1) / 2 powi bitlen q"
    by (simp add: k_def algebra_simps flip: power_int_diff)
  also have "\<dots> \<le> x"
    unfolding x using bitlen_powi [OF p] bitlen_powi [OF q] q p
    by (intro frac_le) (auto intro: less_imp_le)
  finally have low: "2 powi (k - 1) \<le> x" .
  have "x < 2 powi bitlen p / 2 powi (bitlen q - 1)"
    unfolding x using bitlen_powi [OF p] bitlen_powi [OF q] q p
    by (intro frac_less) (auto intro: less_imp_le)
  also have "\<dots> = 2 powi (k + 1)"
    by (simp add: k_def algebra_simps flip: power_int_diff)
  finally have high: "x < 2 powi (k + 1)" .
  have l: "ilog2 x = (if 2 powi k \<le> x then k else k - 1)"
    by (simp add: ilog2_def pq k_def)
  show "2 powi ilog2 x \<le> x" using low l by simp
  show "x < 2 powi (ilog2 x + 1)" using high l by (simp split: if_splits)
qed

lemma ilog2_mono:
  assumes "0 < x" and "x \<le> y"
  shows "ilog2 x \<le> ilog2 y"
proof -
  have "2 powi ilog2 x < (2 :: rat) powi (ilog2 y + 1)"
    using ilog2_bounds [of x] ilog2_bounds [of y] assms by linarith
  then show ?thesis
    using powi_2_le [of "ilog2 y + 1" "ilog2 x"] by (simp add: not_le)
qed

section \<open>Rounding\<close>

lemma round_even_of_int [simp]: "round_even (of_int k) = k"
  by (simp add: round_even_def)

lemma round_even_error: "\<bar>of_int (round_even m) - m\<bar> \<le> 1 / 2"
proof -
  have "of_int \<lfloor>m\<rfloor> \<le> m" "m < of_int \<lfloor>m\<rfloor> + 1" by linarith+
  then show ?thesis by (simp add: round_even_def Let_def abs_le_iff)
qed

lemma round_even_mono: "m \<le> n \<Longrightarrow> round_even m \<le> round_even n"
proof -
  assume le: "m \<le> n"
  show ?thesis
  proof (cases "\<lfloor>m\<rfloor> = \<lfloor>n\<rfloor>")
    case True
    with le show ?thesis by (auto simp: round_even_def Let_def)
  next
    case False
    with le have "\<lfloor>m\<rfloor> + 1 \<le> \<lfloor>n\<rfloor>" using floor_mono [OF le] by linarith
    then show ?thesis by (auto simp: round_even_def Let_def)
  qed
qed

lemma round_pos_range:
  assumes "0 < x"
  shows "2 powi ilog2 x \<le> f64_round_pos x" and "f64_round_pos x \<le> 2 powi (ilog2 x + 1)"
proof -
  define u :: rat where "u = 2 powi (ilog2 x - 52)"
  have u: "0 < u" by (simp add: u_def)
  have lo: "2 powi ilog2 x = of_int (2 ^ 52) * u"
    by (simp add: u_def power_int_diff)
  have hi: "2 powi (ilog2 x + 1) = of_int (2 ^ 53) * u"
    by (simp add: u_def power_int_diff power_int_add)
  have "of_int (2 ^ 52) \<le> x / u" and "x / u \<le> of_int (2 ^ 53)"
    using ilog2_bounds [OF assms] u unfolding lo hi by (simp_all add: field_simps)
  then have "round_even (of_int (2 ^ 52)) \<le> round_even (x / u)"
    and "round_even (x / u) \<le> round_even (of_int (2 ^ 53))"
    by (simp_all only: round_even_mono)
  then have "2 ^ 52 \<le> round_even (x / u)" and "round_even (x / u) \<le> 2 ^ 53"
    by (simp_all only: round_even_of_int)
  then have "of_int (2 ^ 52) * u \<le> of_int (round_even (x / u)) * u"
    and "of_int (round_even (x / u)) * u \<le> of_int (2 ^ 53) * u"
    using u by (simp_all only: mult_le_cancel_right_pos of_int_le_iff)
  then show "2 powi ilog2 x \<le> f64_round_pos x" and "f64_round_pos x \<le> 2 powi (ilog2 x + 1)"
    by (simp_all only: f64_round_pos_def Let_def u_def [symmetric] lo hi)
qed

lemma f64_round_pos_mono:
  assumes "0 < x" and "x \<le> y"
  shows "f64_round_pos x \<le> f64_round_pos y"
proof (cases "ilog2 x = ilog2 y")
  case True
  then show ?thesis
    using assms by (simp add: f64_round_pos_def Let_def round_even_mono divide_right_mono)
next
  case False
  then have "2 powi (ilog2 x + 1) \<le> (2 :: rat) powi ilog2 y"
    using ilog2_mono [OF assms] by (simp add: powi_2_le)
  then show ?thesis
    using round_pos_range [of x] round_pos_range [of y] assms by linarith
qed

lemma f64_round_pos_error:
  assumes "0 < x"
  shows "\<bar>f64_round_pos x - x\<bar> \<le> x / 2 ^ 53"
proof -
  define u :: rat where "u = 2 powi (ilog2 x - 52)"
  have u: "0 < u" by (simp add: u_def)
  have "u * 2 ^ 52 \<le> x"
    using ilog2_bounds(1) [OF assms] by (simp add: u_def power_int_diff)
  moreover have "f64_round_pos x - x = (of_int (round_even (x / u)) - x / u) * u"
    using u by (simp add: f64_round_pos_def u_def [symmetric] Let_def left_diff_distrib)
  then have "\<bar>f64_round_pos x - x\<bar> \<le> 1 / 2 * u"
    using round_even_error [of "x / u"] u by (simp add: abs_mult)
  ultimately show ?thesis by (simp add: field_simps)
qed

lemma f64_round_pos_nat:
  assumes "0 < n" and "n \<le> 2 ^ 53"
  shows "f64_round_pos (of_nat n) = of_nat n"
proof -
  let ?x = "of_nat n :: rat" and ?l = "ilog2 (of_nat n)"
  have x: "0 < ?x" using assms by simp
  have "(2 :: rat) powi ?l \<le> 2 powi 53"
    using ilog2_bounds(1) [OF x] assms(2) of_nat_mono [OF assms(2), where 'a = rat]
    by (simp only: of_nat_power of_nat_numeral power_int_numeral)
  then have "?l \<le> 53" by (simp only: powi_2_le)
  then consider "?l \<le> 52" | "?l = 53" by linarith
  then obtain k :: int where k: "?x / 2 powi (?l - 52) = of_int k"
  proof cases
    case 1
    then have "?x / 2 powi (?l - 52) = of_int (int n * 2 ^ nat (52 - ?l))"
      using power_int_minus_divide [of "2 :: rat" "52 - ?l"] by (simp add: power_int_nonneg_exp)
    then show ?thesis by (rule that)
  next
    case 2
    then have "of_nat (2 ^ 53) \<le> ?x" using ilog2_bounds(1) [OF x] by simp
    then have "n = 2 ^ 53" using assms(2) by (simp only: of_nat_le_iff)
    then have "?x / 2 powi (?l - 52) = of_int (2 ^ 52)" using 2 by simp
    then show ?thesis by (rule that)
  qed
  have "of_int k * 2 powi (?l - 52) = ?x"
    by (simp flip: k)
  then show ?thesis by (simp add: f64_round_pos_def Let_def k)
qed

section \<open>The contract of the arithmetic\<close>

text \<open>A rounding that is monotone and exact on the integers of up to 53 bits, with relative
  error at most \<open>2 ^ -53\<close>. The lemmas follow what the limiter computes from these laws.\<close>

locale rounding =
  fixes rnd :: "rat \<Rightarrow> rat"
  assumes rnd_nat: "n \<le> 2 ^ 53 \<Longrightarrow> rnd (of_nat n) = of_nat n"
    and rnd_mono: "0 \<le> x \<Longrightarrow> x \<le> y \<Longrightarrow> rnd x \<le> rnd y"
    and rnd_error: "0 \<le> x \<Longrightarrow> \<bar>rnd x - x\<bar> \<le> x / 2 ^ 53"
begin

lemma rnd_nonneg: "0 \<le> x \<Longrightarrow> 0 \<le> rnd x"
  using rnd_mono [of 0 x] rnd_nat [of 0] by simp

lemma rnd_le_nat: "0 \<le> x \<Longrightarrow> x \<le> of_nat n \<Longrightarrow> n \<le> 2 ^ 53 \<Longrightarrow> rnd x \<le> of_nat n"
  using rnd_mono [of x "of_nat n"] rnd_nat [of n] by simp

lemma rnd_ge_nat: "of_nat n \<le> x \<Longrightarrow> n \<le> 2 ^ 53 \<Longrightarrow> of_nat n \<le> rnd x"
  using rnd_mono [of "of_nat n" x] rnd_nat [of n] by simp

lemma rnd_upper: "0 \<le> x \<Longrightarrow> rnd x \<le> x * (1 + 1 / 2 ^ 53)"
proof -
  assume "0 \<le> x"
  then have "rnd x - x \<le> x / 2 ^ 53"
    using rnd_error by (meson abs_ge_self order_trans)
  then show ?thesis by (simp add: field_simps)
qed

text \<open>A chain of rounded operations: each adds one factor \<open>1 + 2 ^ -53\<close>.\<close>

lemma rnd_upper_trans:
  assumes "0 \<le> x" and "x \<le> y * (1 + 1 / 2 ^ 53) ^ k"
  shows "rnd x \<le> y * (1 + 1 / 2 ^ 53) ^ Suc k"
proof -
  have "rnd x \<le> x * (1 + 1 / 2 ^ 53)" by (rule rnd_upper [OF assms(1)])
  also have "\<dots> \<le> y * (1 + 1 / 2 ^ 53) ^ k * (1 + 1 / 2 ^ 53)"
    by (rule mult_right_mono [OF assms(2)]) simp
  finally show ?thesis by (simp add: ac_simps)
qed

end

interpretation f64: rounding f64_round
proof unfold_locales
  show "f64_round (of_nat n) = of_nat n" if "n \<le> 2 ^ 53" for n
    using that by (simp add: f64_round_def f64_round_pos_nat)
  show "f64_round x \<le> f64_round y" if "0 \<le> x" "x \<le> y" for x y
  proof (cases "x = 0")
    case True
    then show ?thesis
      using that round_pos_range(1) [of y] order_trans [OF zero_le_power_int [of "2 :: rat" "ilog2 y"]]
      by (simp add: f64_round_def)
  next
    case False
    then show ?thesis using that by (simp add: f64_round_def f64_round_pos_mono)
  qed
  show "\<bar>f64_round x - x\<bar> \<le> x / 2 ^ 53" if "0 \<le> x" for x
    using that f64_round_pos_error [of x] by (simp add: f64_round_def)
qed

section \<open>Seconds\<close>

lemma as_secs_f64_nonneg: "0 \<le> as_secs_f64 d"
  by (simp add: as_secs_f64_def f64_add_def f64_div_def f64_of_nat_def f64.rnd_nonneg)

lemma as_secs_f64_0: "as_secs_f64 0 = 0"
  by (simp add: as_secs_f64_def f64_add_def f64_div_def f64_of_nat_def f64_round_def)

text \<open>The conversion overestimates a duration by two roundings at most.\<close>

lemma as_secs_f64_upper:
  "as_secs_f64 d \<le> of_nat d / 1000000000 * (1 + 1 / 2 ^ 53) ^ 2"
proof -
  let ?w = "1 + 1 / 2 ^ 53 :: rat" and ?s = "d div 1000000000" and ?n = "d mod 1000000000"
  have G: "f64_of_nat 1000000000 = 1000000000"
    using f64.rnd_nat [of 1000000000] by (simp add: f64_of_nat_def)
  have S: "0 \<le> f64_of_nat ?s" "f64_of_nat ?s \<le> of_nat ?s * ?w"
    unfolding f64_of_nat_def by (simp add: f64.rnd_nonneg) (rule f64.rnd_upper, simp)
  have N: "f64_of_nat ?n = of_nat ?n"
    unfolding f64_of_nat_def
    by (rule f64.rnd_nat, rule order_trans [OF less_imp_le [OF mod_less_divisor]]) simp_all
  have D: "0 \<le> f64_div (of_nat ?n) 1000000000"
    "f64_div (of_nat ?n) 1000000000 \<le> of_nat ?n / 1000000000 * ?w"
    unfolding f64_div_def by (simp add: f64.rnd_nonneg) (rule f64.rnd_upper, simp)
  have "f64_of_nat ?s + f64_div (of_nat ?n) 1000000000 \<le> (of_nat ?s + of_nat ?n / 1000000000) * ?w ^ 1"
    using add_mono [OF S(2) D(2)] by (simp only: distrib_right power_one_right)
  also have "of_nat ?s + of_nat ?n / 1000000000 = (of_nat d / 1000000000 :: rat)"
  proof -
    have "(of_nat d :: rat) = of_nat (?s * 1000000000 + ?n)" by (simp only: div_mult_mod_eq)
    then have "(of_nat d :: rat) = of_nat ?s * 1000000000 + of_nat ?n"
      by (simp only: of_nat_add of_nat_mult of_nat_numeral)
    then show ?thesis by (simp only: add_divide_distrib)
  qed
  finally show ?thesis
    unfolding as_secs_f64_def G N f64_add_def
    using f64.rnd_upper_trans [of _ _ 1] S D by (metis Suc_1 add_nonneg_nonneg)
qed

end
