(* ===== verification/Proxy_Rate.thy ===== *)
theory Proxy_Rate
  imports F64 Tunnel_Prelude
begin

text \<open>
  The token bucket of \<^verbatim>\<open>crates/proxy/src/lib.rs\<close> (\<^verbatim>\<open>RateLimiter\<close>) over the doubles of
  \<^verbatim>\<open>F64\<close>. An \<^verbatim>\<open>Instant\<close> is a number of nanoseconds and \<^verbatim>\<open>duration_since\<close> saturates at zero,
  as subtraction of naturals does. The lemmas bound what the bucket lets through from both
  sides, rounding included.
\<close>

section \<open>The limiter\<close>

record rate_limiter =
  rl_tokens :: rat
  rl_capacity :: rat
  rl_refill_per_sec :: rat
  rl_last :: nat

definition RateLimiter_new :: "u32 \<Rightarrow> nat \<Rightarrow> rate_limiter" where
  "RateLimiter_new per_sec now =
     (let cap = f64_of_nat (unat (max per_sec 1))
      in \<lparr>rl_tokens = cap, rl_capacity = cap, rl_refill_per_sec = cap, rl_last = now\<rparr>)"

definition allow :: "nat \<Rightarrow> rate_limiter \<Rightarrow> bool \<times> rate_limiter" where
  "allow now rl =
     (let elapsed = as_secs_f64 (now - rl_last rl);
          rl = rl\<lparr>rl_last := now\<rparr>;
          rl = rl\<lparr>rl_tokens :=
            min (f64_add (rl_tokens rl) (f64_mul elapsed (rl_refill_per_sec rl))) (rl_capacity rl)\<rparr>
      in if rl_tokens rl \<ge> 1
         then (True, rl\<lparr>rl_tokens := f64_sub (rl_tokens rl) 1\<rparr>)
         else (False, rl))"

text \<open>The answers to a sequence of calls, and the limiter after it.\<close>

fun allows :: "rate_limiter \<Rightarrow> nat list \<Rightarrow> bool list \<times> rate_limiter" where
  "allows rl [] = ([], rl)"
| "allows rl (t # ts) =
     (let (b, rl') = allow t rl; (bs, rl'') = allows rl' ts in (b # bs, rl''))"

section \<open>Its invariant\<close>

lemma unat_32: "unat (w :: u32) < 2 ^ 32"
  using unsigned_less [of w] by simp

definition rl_ok :: "rate_limiter \<Rightarrow> bool" where
  "rl_ok rl \<longleftrightarrow> (\<exists>c. 1 \<le> c \<and> c < 2 ^ 32 \<and> rl_capacity rl = of_nat c \<and>
     rl_refill_per_sec rl = of_nat c) \<and> 0 \<le> rl_tokens rl \<and> rl_tokens rl \<le> rl_capacity rl"

lemma rl_okE [elim]:
  assumes "rl_ok rl"
  obtains c where "1 \<le> c" "c \<le> 2 ^ 53" "rl_capacity rl = of_nat c"
    "rl_refill_per_sec rl = of_nat c" "0 \<le> rl_tokens rl" "rl_tokens rl \<le> of_nat c"
  using assms by (auto simp: rl_ok_def)

lemma new_capacity: "f64_of_nat (unat (max (p :: u32) 1)) = of_nat (unat (max p 1))"
  unfolding f64_of_nat_def
  by (rule f64.rnd_nat) (use unat_32 [of "max p 1"] in simp)

lemma RateLimiter_new_simps:
  "rl_tokens (RateLimiter_new p t) = of_nat (unat (max p 1))"
  "rl_capacity (RateLimiter_new p t) = of_nat (unat (max p 1))"
  "rl_refill_per_sec (RateLimiter_new p t) = of_nat (unat (max p 1))"
  "rl_last (RateLimiter_new p t) = t"
  by (simp_all add: RateLimiter_new_def new_capacity Let_def)

lemma rl_ok_new: "rl_ok (RateLimiter_new p t)"
proof -
  have "1 \<le> unat (max p 1)" by (simp add: max_def word_le_nat_alt)
  moreover have "unat (max p 1) < 2 ^ 32" using unat_32 [of "max p 1"] by simp
  ultimately show ?thesis by (auto simp: rl_ok_def RateLimiter_new_simps simp del: of_nat_unat)
qed

text \<open>The bucket after the refill of a call.\<close>

definition refilled :: "nat \<Rightarrow> rate_limiter \<Rightarrow> rat" where
  "refilled now rl = min (f64_add (rl_tokens rl)
     (f64_mul (as_secs_f64 (now - rl_last rl)) (rl_refill_per_sec rl))) (rl_capacity rl)"

lemma allow_alt:
  "allow now rl =
     (1 \<le> refilled now rl,
      rl\<lparr>rl_last := now, rl_tokens :=
        if 1 \<le> refilled now rl then f64_sub (refilled now rl) 1 else refilled now rl\<rparr>)"
  by (simp add: allow_def refilled_def Let_def)

lemma allow_frame [simp]:
  "rl_capacity (snd (allow now rl)) = rl_capacity rl"
  "rl_refill_per_sec (snd (allow now rl)) = rl_refill_per_sec rl"
  "rl_last (snd (allow now rl)) = now"
  by (simp_all add: allow_alt)

lemma refill_nonneg:
  assumes "rl_ok rl"
  shows "0 \<le> f64_mul (as_secs_f64 d) (rl_refill_per_sec rl)"
  using assms by (auto simp: f64_mul_def as_secs_f64_nonneg elim!: rl_okE intro!: f64.rnd_nonneg)

lemma refilled_bounds:
  assumes "rl_ok rl"
  shows "0 \<le> refilled now rl" and "refilled now rl \<le> rl_capacity rl"
  using assms refill_nonneg [OF assms]
  by (auto simp: refilled_def f64_add_def elim!: rl_okE intro!: f64.rnd_nonneg)

text \<open>Refilling keeps every whole token.\<close>

lemma refilled_ge:
  assumes "rl_ok rl" and "of_nat m \<le> rl_tokens rl"
  shows "of_nat m \<le> refilled now rl"
proof -
  from assms(1) obtain c where c: "c \<le> 2 ^ 53" "rl_capacity rl = of_nat c" "rl_tokens rl \<le> of_nat c"
    by blast
  with assms(2) have "m \<le> c" by (metis of_nat_le_iff order_trans)
  moreover have "of_nat m \<le> f64_add (rl_tokens rl)
      (f64_mul (as_secs_f64 (now - rl_last rl)) (rl_refill_per_sec rl))"
    unfolding f64_add_def
    using assms(2) refill_nonneg [OF assms(1), of "now - rl_last rl"] c \<open>m \<le> c\<close>
    by (intro f64.rnd_ge_nat) auto
  ultimately show ?thesis using c by (simp add: refilled_def)
qed

lemma spend_bounds:
  assumes "rl_ok rl" and "1 \<le> refilled now rl"
  shows "0 \<le> f64_sub (refilled now rl) 1" and "f64_sub (refilled now rl) 1 \<le> rl_capacity rl"
  using assms refilled_bounds [OF assms(1), of now]
  by (auto simp: f64_sub_def elim!: rl_okE intro!: f64.rnd_nonneg f64.rnd_le_nat)

lemma rl_ok_allow: "rl_ok rl \<Longrightarrow> rl_ok (snd (allow now rl))"
  using refilled_bounds [of rl now] spend_bounds [of rl now]
  unfolding rl_ok_def by (auto simp: allow_alt)

lemma rl_ok_allows: "rl_ok rl \<Longrightarrow> rl_ok (snd (allows rl ts))"
  by (induction ts arbitrary: rl) (auto simp: Let_def case_prod_beta rl_ok_allow)

section \<open>Bursts\<close>

lemma allow_of_token:
  assumes "rl_ok rl" and "of_nat (Suc m) \<le> rl_tokens rl"
  shows "fst (allow now rl)" and "of_nat m \<le> rl_tokens (snd (allow now rl))"
proof -
  note ref = refilled_ge [OF assms, of now]
  then have one: "1 \<le> refilled now rl" by simp
  then show "fst (allow now rl)" by (simp add: allow_alt)
  obtain c where "c \<le> 2 ^ 53" "rl_capacity rl = of_nat c" using assms(1) by blast
  then have "m \<le> 2 ^ 53"
    using ref refilled_bounds(2) [OF assms(1), of now]
    by (metis Suc_leD of_nat_le_iff order_trans)
  then have "of_nat m \<le> f64_sub (refilled now rl) 1"
    unfolding f64_sub_def using ref by (intro f64.rnd_ge_nat) simp_all
  then show "of_nat m \<le> rl_tokens (snd (allow now rl))"
    using one by (simp add: allow_alt)
qed

lemma allows_of_tokens:
  "rl_ok rl \<Longrightarrow> of_nat (length ts) \<le> rl_tokens rl \<Longrightarrow>
   fst (allows rl ts) = replicate (length ts) True"
proof (induction ts arbitrary: rl)
  case (Cons t ts)
  then show ?case
    using allow_of_token [of rl "length ts" t] rl_ok_allow [of rl t]
    by (auto simp: Let_def case_prod_beta)
qed simp

text \<open>Without time passing the bucket counts down exactly.\<close>

lemma allow_same_instant:
  assumes "rl_ok rl" and "rl_tokens rl = of_nat m" and "rl_last rl = t"
  shows "allow t rl = (0 < m, rl\<lparr>rl_tokens := of_nat (m - 1)\<rparr>)"
proof -
  obtain c where c: "c \<le> 2 ^ 53" "rl_capacity rl = of_nat c" "m \<le> c"
    using assms(1,2) by (auto elim!: rl_okE)
  have "refilled t rl = of_nat m"
    using c assms(2,3) f64.rnd_nat [of m] f64.rnd_nat [of 0]
    by (simp add: refilled_def f64_add_def f64_mul_def as_secs_f64_0)
  moreover have "f64_sub (of_nat m) 1 = of_nat (m - 1)" if "0 < m"
    using that c f64.rnd_nat [of "m - 1"] by (simp add: f64_sub_def of_nat_diff)
  ultimately show ?thesis using assms(2,3) by (auto simp: allow_alt)
qed

lemma allows_same_instant:
  assumes "rl_ok rl" and "rl_tokens rl = of_nat m" and "rl_last rl = t"
  shows "fst (allows rl (replicate n t)) = replicate (min m n) True @ replicate (n - m) False"
  using assms
proof (induction n arbitrary: rl m)
  case (Suc n)
  let ?rl = "rl\<lparr>rl_tokens := of_nat (m - 1) :: rat\<rparr>"
  have step: "allow t rl = (0 < m, ?rl)" by (rule allow_same_instant [OF Suc.prems])
  with rl_ok_allow [OF Suc.prems(1), of t] have "rl_ok ?rl" by simp
  then have "fst (allows ?rl (replicate n t)) =
      replicate (min (m - 1) n) True @ replicate (n - (m - 1)) False"
    by (rule Suc.IH) (simp_all add: Suc.prems)
  with step show ?case by (cases m) (simp_all add: Let_def case_prod_beta)
qed simp

text \<open>The burst of \<^verbatim>\<open>RateLimiter\<close>: a fresh limiter grants the first \<^verbatim>\<open>per_sec.max(1)\<close> calls whenever
  they come, in spite of rounding; and calls that all come at the instant of its creation
  are granted exactly that many times and refused from then on.\<close>

lemma limiter_burst:
  "(\<forall>ts. length ts \<le> unat (max p 1) \<longrightarrow>
        fst (allows (RateLimiter_new p t0) ts) = replicate (length ts) True) \<and>
   fst (allows (RateLimiter_new p t0) (replicate n t0)) =
        replicate (min (unat (max p 1)) n) True @ replicate (n - unat (max p 1)) False"
  using allows_of_tokens [OF rl_ok_new] allows_same_instant [OF rl_ok_new]
  by (simp add: RateLimiter_new_simps del: of_nat_unat)

section \<open>The long-run rate\<close>

text \<open>What one call can add to the bucket and the number of grants together: the refill, with
  its three roundings, and one rounding each for the sum and the difference.\<close>

lemma refill_upper:
  assumes "rl_ok rl"
  shows "f64_mul (as_secs_f64 d) (rl_refill_per_sec rl)
     \<le> rl_capacity rl * (of_nat d / 1000000000) * (1 + 1 / 2 ^ 53) ^ 3"
proof -
  obtain c where c: "rl_capacity rl = of_nat c" "rl_refill_per_sec rl = of_nat c"
    using assms by blast
  have "as_secs_f64 d * of_nat c \<le> of_nat c * (of_nat d / 1000000000) * (1 + 1 / 2 ^ 53) ^ 2"
    using mult_right_mono [OF as_secs_f64_upper, of "of_nat c" d] by (simp only: ac_simps)
  then have "f64_round (as_secs_f64 d * of_nat c)
      \<le> of_nat c * (of_nat d / 1000000000) * (1 + 1 / 2 ^ 53) ^ Suc 2"
    by (intro f64.rnd_upper_trans) (simp_all add: as_secs_f64_nonneg)
  then show ?thesis by (simp only: f64_mul_def c numeral_3_eq_3 numeral_2_eq_2)
qed

lemma allow_potential:
  assumes "rl_ok rl"
  shows "of_bool (fst (allow now rl)) + rl_tokens (snd (allow now rl))
     \<le> rl_tokens rl + rl_capacity rl * (of_nat (now - rl_last rl) / 1000000000) * (1 + 1 / 2 ^ 53) ^ 3
        + 2 * rl_capacity rl / 2 ^ 53"
proof -
  let ?e = "f64_mul (as_secs_f64 (now - rl_last rl)) (rl_refill_per_sec rl)"
    and ?c = "rl_capacity rl" and ?r = "refilled now rl"
  have pos: "0 \<le> ?c" "0 \<le> rl_tokens rl + ?e"
    using assms refill_nonneg [OF assms, of "now - rl_last rl"] by (auto elim!: rl_okE)
  have "?r \<le> rl_tokens rl + ?e + ?c / 2 ^ 53"
  proof (cases "rl_tokens rl + ?e \<le> ?c")
    case True
    have "?r \<le> (rl_tokens rl + ?e) * (1 + 1 / 2 ^ 53)"
      unfolding refilled_def f64_add_def using f64.rnd_upper [OF pos(2)] by linarith
    with True show ?thesis by (simp add: field_simps)
  next
    case False
    with pos refilled_bounds(2) [OF assms, of now] show ?thesis by simp
  qed
  moreover have "f64_sub ?r 1 \<le> ?r - 1 + ?c / 2 ^ 53" if "1 \<le> ?r"
    using f64.rnd_upper [of "?r - 1"] that refilled_bounds(2) [OF assms, of now]
    by (simp add: f64_sub_def field_simps)
  ultimately show ?thesis
    using refill_upper [OF assms, of "now - rl_last rl"] pos(1) by (auto simp: allow_alt)
qed

text \<open>Summing up over calls at non-decreasing instants, the refills telescope.\<close>

lemma allows_potential:
  assumes "rl_ok rl" and "sorted (rl_last rl # ts)"
  shows "of_nat (count_list (fst (allows rl ts)) True) + rl_tokens (snd (allows rl ts))
     \<le> rl_tokens rl
        + rl_capacity rl * (of_nat (last (rl_last rl # ts) - rl_last rl) / 1000000000)
            * (1 + 1 / 2 ^ 53) ^ 3
        + of_nat (length ts) * (2 * rl_capacity rl / 2 ^ 53)"
  using assms
proof (induction ts arbitrary: rl)
  case (Cons t ts)
  let ?rl = "snd (allow t rl)" and ?c = "rl_capacity rl" and ?z = "last (t # ts)"
  define w :: rat where "w = (1 + 1 / 2 ^ 53) ^ 3"
  have order: "rl_last rl \<le> t" "t \<le> ?z"
    using Cons.prems(2) by (auto simp: last_in_set)
  then have split: "of_nat (?z - rl_last rl) = of_nat (?z - t) + (of_nat (t - rl_last rl) :: rat)"
    by (simp flip: of_nat_add)
  have IH: "of_nat (count_list (fst (allows ?rl ts)) True) + rl_tokens (snd (allows ?rl ts))
     \<le> rl_tokens ?rl + ?c * (of_nat (?z - t) / 1000000000) * w
        + of_nat (length ts) * (2 * ?c / 2 ^ 53)"
    unfolding w_def using Cons.IH [of ?rl] Cons.prems by (simp add: rl_ok_allow del: last.simps)
  have step: "of_bool (fst (allow t rl)) + rl_tokens ?rl
     \<le> rl_tokens rl + ?c * (of_nat (t - rl_last rl) / 1000000000) * w + 2 * ?c / 2 ^ 53"
    unfolding w_def by (rule allow_potential [OF Cons.prems(1)])
  have "of_nat (count_list (fst (allows rl (t # ts))) True) =
      of_bool (fst (allow t rl)) + (of_nat (count_list (fst (allows ?rl ts)) True) :: rat)"
    by (simp add: Let_def case_prod_beta)
  moreover have "snd (allows rl (t # ts)) = snd (allows ?rl ts)"
    by (simp add: Let_def case_prod_beta)
  moreover have "?c * (of_nat (?z - rl_last rl) / 1000000000) * w =
      ?c * (of_nat (?z - t) / 1000000000) * w + ?c * (of_nat (t - rl_last rl) / 1000000000) * w"
    unfolding split by (simp only: add_divide_distrib distrib_left distrib_right)
  moreover have "of_nat (length (t # ts)) * (2 * ?c / 2 ^ 53) =
      of_nat (length ts) * (2 * ?c / 2 ^ 53) + 2 * ?c / 2 ^ 53"
    by (simp add: distrib_right)
  moreover have "last (rl_last rl # t # ts) = ?z" by simp
  moreover have "ob + n + z \<le> x + (a + b) + (l + e)"
    if "n + z \<le> y + a + l" and "ob + y \<le> x + b + e" for ob n x y z a b e l :: rat
    using that by linarith
  note this [OF IH step]
  ultimately show ?case
    unfolding w_def [symmetric] by (simp only:)
qed simp

text \<open>The rate bound in the form the proxies use.\<close>

definition rate_bound :: "nat \<Rightarrow> nat \<Rightarrow> nat \<Rightarrow> rat" where
  "rate_bound cap dur calls =
     of_nat cap * (1 + of_nat dur / 1000000000 * (1 + 1 / 2 ^ 53) ^ 3)
       + of_nat calls * (of_nat cap / 2 ^ 52)"

lemma rate_bound_mono: "dur \<le> dur' \<Longrightarrow> rate_bound cap dur calls \<le> rate_bound cap dur' calls"
  by (simp add: rate_bound_def mult_left_mono mult_right_mono divide_right_mono)

lemma allows_rate:
  assumes "rl_ok rl" and "sorted (rl_last rl # ts)" and "rl_capacity rl = of_nat c"
  shows "of_nat (count_list (fst (allows rl ts)) True)
     \<le> rate_bound c (last (rl_last rl # ts) - rl_last rl) (length ts)"
proof -
  have "rl_tokens rl \<le> of_nat c" and "0 \<le> rl_tokens (snd (allows rl ts))"
    using assms(1,3) rl_ok_allows [OF assms(1), of ts] by (auto elim!: rl_okE)
  with allows_potential [OF assms(1,2)] assms(3) show ?thesis
    by (simp add: rate_bound_def algebra_simps del: last.simps)
qed

text \<open>A second of quiet always earns a token.\<close>

lemma allow_after_second:
  assumes "rl_ok rl" and "rl_last rl + 1000000000 \<le> now"
  shows "fst (allow now rl)"
proof -
  obtain c where c: "1 \<le> c" "c \<le> 2 ^ 53" "rl_capacity rl = of_nat c"
    "rl_refill_per_sec rl = of_nat c" "0 \<le> rl_tokens rl" using assms(1) by blast
  let ?d = "now - rl_last rl"
  have "1 \<le> ?d div 1000000000"
    using assms(2) by (simp add: less_eq_div_iff_mult_less_eq)
  then have "1 \<le> f64_of_nat (?d div 1000000000)"
    using f64.rnd_ge_nat [of 1 "of_nat (?d div 1000000000)"] by (simp add: f64_of_nat_def)
  moreover have "0 \<le> f64_div (f64_of_nat (?d mod 1000000000)) (f64_of_nat 1000000000)"
    by (simp add: f64_div_def f64_of_nat_def f64.rnd_nonneg)
  ultimately have "1 \<le> as_secs_f64 ?d"
    unfolding as_secs_f64_def f64_add_def using f64.rnd_ge_nat [of 1] by simp
  then have "1 \<le> as_secs_f64 ?d * of_nat c"
    using c(1) mult_mono [of 1 "as_secs_f64 ?d" 1 "of_nat c"] by simp
  then have "1 \<le> f64_mul (as_secs_f64 ?d) (of_nat c)"
    using f64.rnd_ge_nat [of 1] by (simp add: f64_mul_def)
  then have "1 \<le> refilled now rl"
    using c f64.rnd_ge_nat [of 1] by (simp add: refilled_def f64_add_def)
  then show ?thesis by (simp add: allow_alt)
qed

text \<open>The rate of \<^verbatim>\<open>RateLimiter\<close>, over any window of its life: in a window that starts in a state
  reached by earlier calls and holds \<open>ts\<close>, the number of grants is at most one burst plus the
  rate times the length of the window, up to a relative rounding error of less than
  \<open>2 ^ -51\<close> on the time and an error of \<open>cap / 2 ^ 52\<close> tokens per call; and a call that comes
  a second or more after the previous one is always granted.\<close>

lemma limiter_rate:
  assumes "rl = snd (allows (RateLimiter_new p t0) earlier)"
    and "sorted (rl_last rl # ts)"
  shows "of_nat (count_list (fst (allows rl ts)) True)
       \<le> rate_bound (unat (max p 1)) (last (rl_last rl # ts) - rl_last rl) (length ts) \<and>
     (rl_last rl + 1000000000 \<le> now \<longrightarrow> fst (allow now rl))"
proof -
  have ok: "rl_ok rl" unfolding assms(1) by (rule rl_ok_allows [OF rl_ok_new])
  have "rl_capacity (snd (allows r us)) = rl_capacity r" for r us
    by (induction us arbitrary: r) (simp_all add: Let_def case_prod_beta)
  then have "rl_capacity rl = of_nat (unat (max p 1))"
    unfolding assms(1) by (simp only: RateLimiter_new_simps)
  with ok assms(2) show ?thesis
    using allows_rate allow_after_second by blast
qed

end
