(* ===== verification/Proxy.thy ===== *)
theory Proxy
  imports Proxy_Rate
begin

text \<open>
  The two proxies of \<^verbatim>\<open>crates/proxy/src/lib.rs\<close>, \<^verbatim>\<open>run_publish\<close> and \<^verbatim>\<open>run_connect\<close>, with the tasks they
  spawn. The accept loop and the tunnel tasks run concurrently and share only the atomic counter
  \<^verbatim>\<open>live\<close>, so a state has the loop's program counter, its limiter, the counter at its machine
  width and the phase of every task spawned so far, and a step is the code between two accesses
  of the counter (or two await points). The labels of the steps are the scheduling and the
  outcomes of the operations awaited; the copying of bytes inside \<^verbatim>\<open>splice\<close> is tokio's.

  The locale \<open>admission\<close> states what keeps the number of tunnels within the cap; it is
  interpreted on both loops.
\<close>

section \<open>State\<close>

type_synonym proxy_error = string

text \<open>Where the accept loop is: waiting at \<^verbatim>\<open>incoming.next()\<close> or \<^verbatim>\<open>listener.accept()\<close>, past the checks
  and before \<^verbatim>\<open>fetch_add\<close>, past it and before \<^verbatim>\<open>tokio::spawn\<close>, or returned.\<close>

datatype accept_pc = Accepting | Admitted | Counted | Returned "(proxy_error, unit) result"

text \<open>Where a tunnel task is: opening its second half (\<^verbatim>\<open>TcpStream::connect\<close> or \<^verbatim>\<open>open_stream\<close>), in
  \<^verbatim>\<open>splice\<close> with it, before its \<^verbatim>\<open>fetch_sub\<close>, or finished.\<close>

datatype endpoint =
    LocalServer string \<comment> \<open>the \<^verbatim>\<open>target\<close> of \<^verbatim>\<open>TcpStream::connect\<close>\<close>
  | RemotePeer string \<comment> \<open>the \<^verbatim>\<open>peer\<close> of \<^verbatim>\<open>open_stream\<close>\<close>

datatype tunnel_task = Opening endpoint | Splicing endpoint | Closing | Finished

record proxy =
  px_pc :: accept_pc
  px_rate :: rate_limiter
  px_live :: usize
  px_tunnels :: "tunnel_task list"

datatype proxy_action =
    Arrival nat \<comment> \<open>a stream or connection, at an instant\<close>
  | NoMoreStreams
  | AcceptFailed proxy_error
  | FetchAdd
  | Spawn
  | Opened nat
  | OpenFailed nat
  | SpliceEnded nat "(proxy_error, u64 \<times> u64) result"
  | FetchSub nat

section \<open>The tunnel tasks\<close>

text \<open>The body of both \<^verbatim>\<open>tokio::spawn\<close> blocks, for the task with index \<open>i\<close>.\<close>

inductive tunnel_step :: "proxy \<Rightarrow> proxy_action \<Rightarrow> proxy \<Rightarrow> bool" where
  opened: "i < length (px_tunnels s) \<Longrightarrow> px_tunnels s ! i = Opening d \<Longrightarrow>
     tunnel_step s (Opened i) (s\<lparr>px_tunnels := (px_tunnels s)[i := Splicing d]\<rparr>)"
| open_failed: "i < length (px_tunnels s) \<Longrightarrow> px_tunnels s ! i = Opening d \<Longrightarrow>
     tunnel_step s (OpenFailed i) (s\<lparr>px_tunnels := (px_tunnels s)[i := Closing]\<rparr>)"
| splice_ended: "i < length (px_tunnels s) \<Longrightarrow> px_tunnels s ! i = Splicing d \<Longrightarrow>
     tunnel_step s (SpliceEnded i r) (s\<lparr>px_tunnels := (px_tunnels s)[i := Closing]\<rparr>)"
| fetch_sub: "i < length (px_tunnels s) \<Longrightarrow> px_tunnels s ! i = Closing \<Longrightarrow>
     tunnel_step s (FetchSub i)
       (s\<lparr>px_live := px_live s - 1, px_tunnels := (px_tunnels s)[i := Finished]\<rparr>)"

section \<open>The publish side\<close>

text \<open>\<^verbatim>\<open>run_publish\<close> up to its loop: \<open>proto\<close> and \<open>registered\<close> are the results of
  \<^verbatim>\<open>StreamProtocol::try_from_owned\<close> and \<^verbatim>\<open>control.accept\<close>.\<close>

definition run_publish_start ::
  "(string, unit) result \<Rightarrow> (string, unit) result \<Rightarrow> u32 \<Rightarrow> nat \<Rightarrow> (proxy_error, proxy) result" where
  "run_publish_start proto registered new_conn_per_sec now =
     tryq (map_err (\<lambda>e. ''bad protocol string: '' @ e) proto) (\<lambda>_.
     tryq (map_err (\<lambda>e. ''failed to register tunnel protocol: '' @ e) registered) (\<lambda>_.
     Ok \<lparr>px_pc = Accepting, px_rate = RateLimiter_new new_conn_per_sec now, px_live = 0,
          px_tunnels = []\<rparr>))"

text \<open>One inbound stream, from \<^verbatim>\<open>rate.allow()\<close> to the comparison with the cap. A stream that is not
  admitted is dropped.\<close>

definition publish_inbound :: "usize \<Rightarrow> nat \<Rightarrow> proxy \<Rightarrow> proxy" where
  "publish_inbound max_conns now s =
     (let (allowed, rate) = allow now (px_rate s);
          s = s\<lparr>px_rate := rate\<rparr>
      in if \<not> allowed then s
         else let n = px_live s
              in if n \<ge> max_conns then s else s\<lparr>px_pc := Admitted\<rparr>)"

inductive run_publish :: "string \<Rightarrow> usize \<Rightarrow> proxy \<Rightarrow> proxy_action \<Rightarrow> proxy \<Rightarrow> bool"
  for target :: string and max_conns :: usize where
  publish_stream: "px_pc s = Accepting \<Longrightarrow>
     run_publish target max_conns s (Arrival now) (publish_inbound max_conns now s)"
| publish_end: "px_pc s = Accepting \<Longrightarrow>
     run_publish target max_conns s NoMoreStreams (s\<lparr>px_pc := Returned (Ok ())\<rparr>)"
| publish_count: "px_pc s = Admitted \<Longrightarrow>
     run_publish target max_conns s FetchAdd (s\<lparr>px_live := px_live s + 1, px_pc := Counted\<rparr>)"
| publish_spawn: "px_pc s = Counted \<Longrightarrow>
     run_publish target max_conns s Spawn (s\<lparr>px_tunnels := px_tunnels s @ [Opening (LocalServer target)], px_pc := Accepting\<rparr>)"
| publish_tunnel: "tunnel_step s a s' \<Longrightarrow> run_publish target max_conns s a s'"

section \<open>The connect side\<close>

definition CONNECT_MAX_CONNS :: usize where
  "CONNECT_MAX_CONNS = 128"

definition CONNECT_MAX_CONN_RATE :: u32 where
  "CONNECT_MAX_CONN_RATE = 64"

definition run_connect_start ::
  "(string, unit) result \<Rightarrow> nat \<Rightarrow> (proxy_error, proxy) result" where
  "run_connect_start proto now =
     tryq (map_err (\<lambda>e. ''bad protocol string: '' @ e) proto) (\<lambda>_.
     Ok \<lparr>px_pc = Accepting, px_rate = RateLimiter_new CONNECT_MAX_CONN_RATE now, px_live = 0,
          px_tunnels = []\<rparr>)"

definition connect_inbound :: "nat \<Rightarrow> proxy \<Rightarrow> proxy" where
  "connect_inbound now s =
     (let (allowed, rate) = allow now (px_rate s);
          s = s\<lparr>px_rate := rate\<rparr>
      in if \<not> allowed then s
         else if px_live s \<ge> CONNECT_MAX_CONNS then s
         else s\<lparr>px_pc := Admitted\<rparr>)"

inductive run_connect :: "string \<Rightarrow> proxy \<Rightarrow> proxy_action \<Rightarrow> proxy \<Rightarrow> bool"
  for peer :: string where
  connect_tcp: "px_pc s = Accepting \<Longrightarrow> run_connect peer s (Arrival now) (connect_inbound now s)"
| connect_error: "px_pc s = Accepting \<Longrightarrow>
     run_connect peer s (AcceptFailed e) (s\<lparr>px_pc := Returned (Err e)\<rparr>)"
| connect_count: "px_pc s = Admitted \<Longrightarrow>
     run_connect peer s FetchAdd (s\<lparr>px_live := px_live s + 1, px_pc := Counted\<rparr>)"
| connect_spawn: "px_pc s = Counted \<Longrightarrow>
     run_connect peer s Spawn (s\<lparr>px_tunnels := px_tunnels s @ [Opening (RemotePeer peer)], px_pc := Accepting\<rparr>)"
| connect_tunnel: "tunnel_step s a s' \<Longrightarrow> run_connect peer s a s'"

inductive_cases tunnel_stepE: "tunnel_step s a s'"
inductive_cases run_publishE: "run_publish target m s a s'"
inductive_cases run_connectE: "run_connect peer s a s'"

section \<open>Slots\<close>

text \<open>The slots in use: tasks that have not finished, and the one the loop has admitted or
  counted and not yet spawned.\<close>

definition unfinished :: "tunnel_task list \<Rightarrow> nat" where
  "unfinished ts = length (filter (\<lambda>t. t \<noteq> Finished) ts)"

definition pending :: "accept_pc \<Rightarrow> nat" where
  "pending pc = (case pc of Admitted \<Rightarrow> 1 | Counted \<Rightarrow> 1 | _ \<Rightarrow> 0)"

definition counted :: "accept_pc \<Rightarrow> nat" where
  "counted pc = (case pc of Counted \<Rightarrow> 1 | _ \<Rightarrow> 0)"

definition slots :: "proxy \<Rightarrow> nat" where
  "slots s = unfinished (px_tunnels s) + pending (px_pc s)"

lemma unfinished_simps [simp]:
  "unfinished [] = 0"
  "unfinished (t # ts) = of_bool (t \<noteq> Finished) + unfinished ts"
  "unfinished (ts @ [t]) = unfinished ts + of_bool (t \<noteq> Finished)"
  by (simp_all add: unfinished_def)

lemma unfinished_update:
  "i < length ts \<Longrightarrow>
   unfinished (ts[i := t]) + of_bool (ts ! i \<noteq> Finished) = unfinished ts + of_bool (t \<noteq> Finished)"
proof (induction ts arbitrary: i)
  case (Cons x ts)
  then show ?case by (cases i) (simp_all add: add.assoc)
qed simp

lemma unfinished_same [simp]:
  "i < length ts \<Longrightarrow> ts ! i \<noteq> Finished \<Longrightarrow> t \<noteq> Finished \<Longrightarrow> unfinished (ts[i := t]) = unfinished ts"
  using unfinished_update [of i ts t] by simp

lemma unfinished_0: "unfinished ts = 0 \<longleftrightarrow> set ts \<subseteq> {Finished}"
  by (auto simp: unfinished_def filter_empty_conv)

text \<open>The counter is exact: it never wraps and never drifts from the tasks it counts.\<close>

definition live_exact :: "nat \<Rightarrow> proxy \<Rightarrow> bool" where
  "live_exact cap s \<longleftrightarrow> unat (px_live s) = unfinished (px_tunnels s) + counted (px_pc s) \<and> slots s \<le> cap"

text \<open>Where the tunnels of a proxy lead.\<close>

fun tunnel_dest :: "tunnel_task \<Rightarrow> endpoint set" where
  "tunnel_dest (Opening d) = {d}"
| "tunnel_dest (Splicing d) = {d}"
| "tunnel_dest _ = {}"

definition leads_to :: "endpoint \<Rightarrow> proxy \<Rightarrow> bool" where
  "leads_to d s \<longleftrightarrow> (\<forall>t \<in> set (px_tunnels s). tunnel_dest t \<subseteq> {d})"

lemma leads_to_tunnel:
  assumes "leads_to d s" and "tunnel_step s a s'"
  shows "leads_to d s'"
proof -
  have upd: "leads_to d (s\<lparr>px_live := n, px_tunnels := (px_tunnels s)[i := t]\<rparr>)" if "tunnel_dest t \<subseteq> {d}" for i n t
    using assms(1) that set_update_subset_insert [of "px_tunnels s" i t] by (auto simp: leads_to_def)
  show ?thesis
    using assms(2)
  proof cases
    case (opened i e)
    then have "tunnel_dest (Splicing e) \<subseteq> {d}"
      using assms(1) nth_mem [of i "px_tunnels s"] by (force simp: leads_to_def)
    from upd [OF this, of i "px_live s"] opened show ?thesis by simp
  qed (use upd [of Closing _ "px_live s"] upd [of Finished] in auto)
qed

text \<open>
  The contract behind the cap: a step adds at most one slot, and only below the cap. The
  check of the counter and its increment are separate steps, with tasks ending in between.
\<close>

locale admission =
  fixes step :: "proxy \<Rightarrow> proxy_action \<Rightarrow> proxy \<Rightarrow> bool"
    and cap :: nat
    and dest :: endpoint
  assumes cap_word: "cap < 2 ^ 64"
    and loop_step: "step s a s' \<Longrightarrow>
      tunnel_step s a s' \<or>
      (px_live s' = px_live s \<and> px_tunnels s' = px_tunnels s \<and> px_pc s = Accepting \<and>
        (pending (px_pc s') = 0 \<or> px_pc s' = Admitted \<and> unat (px_live s) < cap)) \<or>
      (px_pc s = Admitted \<and> s' = s\<lparr>px_live := px_live s + 1, px_pc := Counted\<rparr>) \<or>
      (px_pc s = Counted \<and> s' = s\<lparr>px_tunnels := px_tunnels s @ [Opening dest], px_pc := Accepting\<rparr>)"
begin

lemma live_exact_tunnel:
  assumes "live_exact cap s" and "tunnel_step s a s'"
  shows "live_exact cap s'"
  using assms(2)
proof cases
  case (fetch_sub i)
  have u: "unfinished (px_tunnels s) = Suc (unfinished ((px_tunnels s)[i := Finished]))"
    using unfinished_update [of i "px_tunnels s" Finished] fetch_sub by simp
  with assms(1) have "1 \<le> unat (px_live s)" by (simp add: live_exact_def)
  then have "unat (px_live s - 1) = unat (px_live s) - 1"
    by (simp add: unat_sub word_le_nat_alt)
  with assms(1) u fetch_sub show ?thesis by (simp add: live_exact_def slots_def)
qed (use assms(1) in \<open>simp_all add: live_exact_def slots_def\<close>)

lemma live_exact_step:
  assumes "live_exact cap s" and "step s a s'"
  shows "live_exact cap s'"
proof -
  have inc: "unat (px_live s + 1) = Suc (unat (px_live s))" if "px_pc s = Admitted"
    using assms(1) that cap_word
    by (simp add: live_exact_def slots_def pending_def counted_def unat_word_ariths)
  from loop_step [OF assms(2)] show ?thesis
    using assms(1) inc live_exact_tunnel [OF assms(1)]
    by (elim disjE) (auto simp: live_exact_def slots_def pending_def counted_def split: accept_pc.splits)
qed

lemma trace_live_exact:
  "live_exact cap s \<Longrightarrow> trace step s as s' \<Longrightarrow> live_exact cap s'"
  using trace_invariant [where I = "live_exact cap"] live_exact_step by metis

text \<open>Nothing leaks: when every task has finished and the loop waits, the counter is zero.\<close>

lemma drained:
  "live_exact cap s \<Longrightarrow> set (px_tunnels s) \<subseteq> {Finished} \<Longrightarrow> px_pc s = Accepting \<Longrightarrow> px_live s = 0"
  unfolding live_exact_def unfinished_0 [symmetric] by (simp add: counted_def unat_eq_zero)

text \<open>Every tunnel leads to the one destination of the proxy.\<close>

lemma leads_to_step:
  assumes "leads_to dest s" and "step s a s'"
  shows "leads_to dest s'"
  using loop_step [OF assms(2)] leads_to_tunnel [OF assms(1)] assms(1)
  by (elim disjE) (auto simp: leads_to_def)

lemma trace_leads_to: "leads_to dest s \<Longrightarrow> trace step s as s' \<Longrightarrow> leads_to dest s'"
  using trace_invariant [where I = "leads_to dest"] leads_to_step by metis

end

text \<open>The instants at which the loop received something.\<close>

fun arrival_times :: "proxy_action list \<Rightarrow> nat list" where
  "arrival_times [] = []"
| "arrival_times (Arrival t # as) = t # arrival_times as"
| "arrival_times (_ # as) = arrival_times as"

text \<open>The contract with the rate: only an arrival consults the limiter, and nothing is admitted that
  the limiter does not grant.\<close>

locale rated_admission = admission +
  assumes rate_step: "step s a s' \<Longrightarrow>
      px_rate s' = (case a of Arrival t \<Rightarrow> snd (allow t (px_rate s)) | _ \<Rightarrow> px_rate s)"
    and granted_step: "step s a s' \<Longrightarrow>
      length (px_tunnels s') + pending (px_pc s') \<le> length (px_tunnels s) + pending (px_pc s) +
        (case a of Arrival t \<Rightarrow> of_bool (fst (allow t (px_rate s))) | _ \<Rightarrow> 0)"
begin

lemma trace_granted:
  assumes "trace step s as s'"
  shows "length (px_tunnels s') + pending (px_pc s') \<le> length (px_tunnels s) + pending (px_pc s) +
      count_list (fst (allows (px_rate s) (arrival_times as))) True \<and>
    px_rate s' = snd (allows (px_rate s) (arrival_times as))"
  using assms
proof induction
  case (trace_Cons s a s' as s'')
  note steps = rate_step [OF trace_Cons.hyps(1)] granted_step [OF trace_Cons.hyps(1)]
  show ?case
    using trace_Cons.IH steps by (cases a) (auto simp: case_prod_beta Let_def)
qed simp

lemma trace_rate:
  assumes "trace step s as s'" and "px_rate s = RateLimiter_new p t0"
    and "px_tunnels s = []" and "px_pc s = Accepting" and "sorted (t0 # arrival_times as)"
  shows "of_nat (length (px_tunnels s')) \<le>
    rate_bound (unat (max p 1)) (last (t0 # arrival_times as) - t0) (length (arrival_times as))"
proof -
  let ?n = "count_list (fst (allows (RateLimiter_new p t0) (arrival_times as))) True"
  have "length (px_tunnels s') \<le> ?n"
    using trace_granted [OF assms(1)] assms(2-4) by (simp add: pending_def)
  then have "(of_nat (length (px_tunnels s')) :: rat) \<le> of_nat ?n" by (simp only: of_nat_le_iff)
  also have "\<dots> \<le> rate_bound (unat (max p 1)) (last (t0 # arrival_times as) - t0)
      (length (arrival_times as))"
    using allows_rate [OF rl_ok_new, of p t0 "arrival_times as" "unat (max p 1)"] assms(5)
    by (simp only: RateLimiter_new_simps)
  finally show ?thesis .
qed

lemma trace_rl_ok:
  "trace step s as s' \<Longrightarrow> rl_ok (px_rate s) \<Longrightarrow> rl_ok (px_rate s')"
  using trace_granted rl_ok_allows by metis

end

section \<open>Both loops meet the contract\<close>

lemma publish_inbound_frame [simp]:
  "px_rate (publish_inbound m now s) = snd (allow now (px_rate s))"
  "px_live (publish_inbound m now s) = px_live s"
  "px_tunnels (publish_inbound m now s) = px_tunnels s"
  "px_pc (publish_inbound m now s) =
     (if fst (allow now (px_rate s)) \<and> px_live s < m then Admitted else px_pc s)"
  by (auto simp: publish_inbound_def case_prod_beta Let_def)

lemma connect_inbound_publish: "connect_inbound now s = publish_inbound CONNECT_MAX_CONNS now s"
  by (simp add: connect_inbound_def publish_inbound_def Let_def case_prod_beta)

lemma tunnel_step_frame:
  "tunnel_step s a s' \<Longrightarrow> px_rate s' = px_rate s \<and> px_pc s' = px_pc s \<and>
     length (px_tunnels s') = length (px_tunnels s) \<and> (\<forall>t. a \<noteq> Arrival t)"
  by (auto elim!: tunnel_stepE)

lemma admission_run_publish: "admission (run_publish target m) (unat m) (LocalServer target)"
proof
  show "unat m < 2 ^ 64" using unsigned_less [of m] by simp
qed (auto elim!: run_publishE simp: pending_def word_less_nat_alt split: if_splits)

lemma admission_run_connect: "admission (run_connect peer) (unat CONNECT_MAX_CONNS) (RemotePeer peer)"
proof
  show "unat CONNECT_MAX_CONNS < 2 ^ 64" by (simp add: CONNECT_MAX_CONNS_def)
qed (auto elim!: run_connectE simp: pending_def word_less_nat_alt connect_inbound_publish split: if_splits)

interpretation publish: rated_admission "run_publish target m" "unat m" "LocalServer target" for target m
  by (rule rated_admission.intro [OF admission_run_publish], unfold_locales)
    (auto elim!: run_publishE simp: pending_def dest!: tunnel_step_frame split: proxy_action.splits)

interpretation connect: rated_admission "run_connect peer" "unat CONNECT_MAX_CONNS" "RemotePeer peer" for peer
  by (rule rated_admission.intro [OF admission_run_connect], unfold_locales)
    (auto elim!: run_connectE simp: pending_def connect_inbound_publish
      dest!: tunnel_step_frame split: proxy_action.splits)

lemma run_publish_start_Ok:
  assumes "run_publish_start proto registered p now = Ok s"
  shows "s = \<lparr>px_pc = Accepting, px_rate = RateLimiter_new p now, px_live = 0, px_tunnels = []\<rparr>"
  using assms by (auto simp: run_publish_start_def tryq_eq_Ok_iff)

lemma run_connect_start_Ok:
  assumes "run_connect_start proto now = Ok s"
  shows "s = \<lparr>px_pc = Accepting, px_rate = RateLimiter_new CONNECT_MAX_CONN_RATE now,
     px_live = 0, px_tunnels = []\<rparr>"
  using assms by (auto simp: run_connect_start_def tryq_eq_Ok_iff)

lemma live_exact_initial:
  "live_exact cap \<lparr>px_pc = Accepting, px_rate = rl, px_live = 0, px_tunnels = []\<rparr>"
  by (simp add: live_exact_def slots_def pending_def counted_def)

text \<open>The way of an admitted stream to its tunnel task.\<close>

lemma publish_admit_trace:
  assumes "px_pc s = Accepting" and "fst (allow now (px_rate s))" and "px_live s < max_conns"
  shows "trace (run_publish target max_conns) s [Arrival now, FetchAdd, Spawn]
    (s\<lparr>px_rate := snd (allow now (px_rate s)), px_live := px_live s + 1,
       px_tunnels := px_tunnels s @ [Opening (LocalServer target)]\<rparr>)" (is "trace _ _ _ ?v")
proof -
  let ?t = "publish_inbound max_conns now s"
  let ?u = "?t\<lparr>px_live := px_live ?t + 1, px_pc := Counted\<rparr>"
  have "run_publish target max_conns s (Arrival now) ?t" by (rule publish_stream [OF assms(1)])
  moreover have "run_publish target max_conns ?t FetchAdd ?u" using assms by (intro publish_count) simp
  moreover have "run_publish target max_conns ?u Spawn
      (?u\<lparr>px_tunnels := px_tunnels ?u @ [Opening (LocalServer target)], px_pc := Accepting\<rparr>)"
    by (intro publish_spawn) simp
  moreover have "?u\<lparr>px_tunnels := px_tunnels ?u @ [Opening (LocalServer target)], px_pc := Accepting\<rparr> = ?v"
    using assms by (cases s) (simp add: publish_inbound_def case_prod_beta Let_def)
  ultimately show ?thesis by (metis trace_Cons trace_Nil)
qed

lemma connect_admit_trace:
  assumes "px_pc s = Accepting" and "fst (allow now (px_rate s))" and "px_live s < CONNECT_MAX_CONNS"
  shows "trace (run_connect peer) s [Arrival now, FetchAdd, Spawn]
    (s\<lparr>px_rate := snd (allow now (px_rate s)), px_live := px_live s + 1,
       px_tunnels := px_tunnels s @ [Opening (RemotePeer peer)]\<rparr>)" (is "trace _ _ _ ?v")
proof -
  let ?t = "connect_inbound now s"
  let ?u = "?t\<lparr>px_live := px_live ?t + 1, px_pc := Counted\<rparr>"
  have "run_connect peer s (Arrival now) ?t" by (rule connect_tcp [OF assms(1)])
  moreover have "run_connect peer ?t FetchAdd ?u" using assms by (intro connect_count) (simp add: connect_inbound_publish)
  moreover have "run_connect peer ?u Spawn
      (?u\<lparr>px_tunnels := px_tunnels ?u @ [Opening (RemotePeer peer)], px_pc := Accepting\<rparr>)"
    by (intro connect_spawn) simp
  moreover have "?u\<lparr>px_tunnels := px_tunnels ?u @ [Opening (RemotePeer peer)], px_pc := Accepting\<rparr> = ?v"
    using assms by (cases s) (simp add: connect_inbound_def case_prod_beta Let_def)
  ultimately show ?thesis by (metis trace_Cons trace_Nil)
qed

section \<open>Properties\<close>

text \<open>C9. The connection cap of \<^verbatim>\<open>run_publish\<close> under every interleaving of the accept loop with the tunnel
  tasks: the atomic counter equals the number of unfinished tasks (plus the one just counted
  and not yet spawned), so it never wraps; the tunnels that exist or are being set up never
  exceed \<^verbatim>\<open>max_conns\<close>; and when all tasks have finished the counter is back at zero, so no
  slot leaks on any path, errors included.\<close>

theorem publish_cap:
  assumes "run_publish_start proto registered p t0 = Ok s0"
    and "trace (run_publish target max_conns) s0 as s"
  shows "unat (px_live s) = unfinished (px_tunnels s) + counted (px_pc s) \<and>
    slots s \<le> unat max_conns \<and>
    (set (px_tunnels s) \<subseteq> {Finished} \<and> px_pc s = Accepting \<longrightarrow> px_live s = 0)"
proof -
  have "live_exact (unat max_conns) s"
    using publish.trace_live_exact [OF live_exact_initial] assms run_publish_start_Ok by metis
  then show ?thesis using publish.drained by (auto simp: live_exact_def)
qed

text \<open>C10. The rate of new tunnels of \<^verbatim>\<open>run_publish\<close>: however many streams peers open, the number of
  connections made towards the local server up to some instant is at most one burst plus the
  configured rate times the time since the start (up to the rounding error of the limiter).\<close>

theorem publish_rate:
  assumes "run_publish_start proto registered p t0 = Ok s0"
    and "trace (run_publish target max_conns) s0 as s"
    and "sorted (t0 # arrival_times as)"
  shows "of_nat (length (px_tunnels s)) \<le>
    rate_bound (unat (max p 1)) (last (t0 # arrival_times as) - t0) (length (arrival_times as))"
  using publish.trace_rate [OF assms(2) _ _ _ assms(3)] run_publish_start_Ok [OF assms(1)] by simp

text \<open>The connect proxy has the same guarantees with its built-in limits: at most 128 tunnels at a
  time, counted exactly, and at most 64 new ones per second after a burst of 64.\<close>

lemma connect_limits:
  assumes "run_connect_start proto t0 = Ok s0"
    and "trace (run_connect peer) s0 as s"
    and "sorted (t0 # arrival_times as)"
  shows "unat (px_live s) = unfinished (px_tunnels s) + counted (px_pc s) \<and> slots s \<le> 128 \<and>
    of_nat (length (px_tunnels s)) \<le>
      rate_bound 64 (last (t0 # arrival_times as) - t0) (length (arrival_times as))"
proof -
  note s0 = run_connect_start_Ok [OF assms(1)]
  have "live_exact (unat CONNECT_MAX_CONNS) s"
    using connect.trace_live_exact [OF live_exact_initial] assms(2) s0 by metis
  moreover have "unat (max CONNECT_MAX_CONN_RATE 1) = 64"
    by (simp add: CONNECT_MAX_CONN_RATE_def max_def word_le_nat_alt)
  ultimately show ?thesis
    using connect.trace_rate [OF assms(2), of CONNECT_MAX_CONN_RATE t0] assms(3) s0
    by (simp add: live_exact_def CONNECT_MAX_CONNS_def del: last.simps)
qed

text \<open>C29. What \<^verbatim>\<open>run_publish\<close> does with an inbound stream. The limiter is consulted first, so a stream
  refused by the cap has spent its token; a stream is admitted exactly when a token was
  there and fewer than \<^verbatim>\<open>max_conns\<close> tunnels are live. In particular no peer is shut out: a stream
  that comes a second or more after the previous one, while there is a free slot, gets a
  tunnel task of its own.\<close>

theorem publish_serves:
  assumes "run_publish_start proto registered p t0 = Ok s0"
    and "trace (run_publish target max_conns) s0 as s" and "px_pc s = Accepting"
  shows "run_publish target max_conns s (Arrival now) (publish_inbound max_conns now s) \<and>
    px_rate (publish_inbound max_conns now s) = snd (allow now (px_rate s)) \<and>
    (px_pc (publish_inbound max_conns now s) = Admitted \<longleftrightarrow>
       fst (allow now (px_rate s)) \<and> unfinished (px_tunnels s) < unat max_conns) \<and>
    (rl_last (px_rate s) + 1000000000 \<le> now \<and> unfinished (px_tunnels s) < unat max_conns \<longrightarrow>
       (\<exists>s'. trace (run_publish target max_conns) s [Arrival now, FetchAdd, Spawn] s' \<and>
          px_tunnels s' = px_tunnels s @ [Opening (LocalServer target)] \<and> px_pc s' = Accepting))"
proof -
  note s0 = run_publish_start_Ok [OF assms(1)]
  have live: "px_live s < max_conns \<longleftrightarrow> unfinished (px_tunnels s) < unat max_conns"
    using publish.trace_live_exact [OF live_exact_initial assms(2) [unfolded s0]] assms(3)
    by (simp add: live_exact_def counted_def word_less_nat_alt)
  have ok: "rl_ok (px_rate s)"
    using publish.trace_rl_ok [OF assms(2)] s0 rl_ok_new by simp
  have "\<exists>s'. trace (run_publish target max_conns) s [Arrival now, FetchAdd, Spawn] s' \<and>
      px_tunnels s' = px_tunnels s @ [Opening (LocalServer target)] \<and> px_pc s' = Accepting"
    if "fst (allow now (px_rate s))" and "px_live s < max_conns"
    by (rule exI, rule conjI [OF publish_admit_trace [OF assms(3) that]]) (simp add: assms(3))
  then show ?thesis
    using assms(3) live allow_after_second [OF ok, of now] publish_stream [of s target max_conns now]
    by auto
qed

section \<open>A concrete run\<close>

text \<open>One stream arrives at once, is admitted, and its server cannot be reached.\<close>

definition demo_proxy :: "u32 \<Rightarrow> proxy" where
  "demo_proxy p = \<lparr>px_pc = Accepting, px_rate = RateLimiter_new p 0, px_live = 0, px_tunnels = []\<rparr>"

lemma demo_allow: "fst (allow t (RateLimiter_new p t))"
proof -
  have "(1 :: u32) \<le> max p 1" by simp
  then have "Suc 0 \<le> unat (max p 1)" by (simp add: word_le_nat_alt)
  then show ?thesis
    using allow_same_instant [OF rl_ok_new, of p t "unat (max p 1)" t]
    by (simp add: RateLimiter_new_simps del: of_nat_unat)
qed

lemma demo_proxy_start:
  "run_publish_start (Ok ()) (Ok ()) p 0 = Ok (demo_proxy p)"
  "run_connect_start (Ok ()) 0 = Ok (demo_proxy CONNECT_MAX_CONN_RATE)"
  by (simp_all add: run_publish_start_def run_connect_start_def demo_proxy_def)

definition demo_proxy_after :: "endpoint \<Rightarrow> u32 \<Rightarrow> proxy" where
  "demo_proxy_after d p = \<lparr>px_pc = Accepting, px_rate = snd (allow 0 (RateLimiter_new p 0)),
     px_live = 1, px_tunnels = [Opening d]\<rparr>"

lemma demo_proxy_trace:
  "trace (run_publish ''127.0.0.1:25565'' 1) (demo_proxy p) [Arrival 0, FetchAdd, Spawn] (demo_proxy_after (LocalServer ''127.0.0.1:25565'') p)"
  using publish_admit_trace [of "demo_proxy p" 0 1] demo_allow [of 0 p]
  by (simp add: demo_proxy_def demo_proxy_after_def)

lemma demo_connect_admit:
  "trace (run_connect peer) (demo_proxy CONNECT_MAX_CONN_RATE) [Arrival 0, FetchAdd, Spawn]
     (demo_proxy_after (RemotePeer peer) CONNECT_MAX_CONN_RATE)"
  using connect_admit_trace [of "demo_proxy CONNECT_MAX_CONN_RATE" 0] demo_allow [of 0 CONNECT_MAX_CONN_RATE]
  by (simp add: demo_proxy_def demo_proxy_after_def CONNECT_MAX_CONNS_def)

theorem publish_cap_witness:
  "trace (run_publish ''127.0.0.1:25565'' 1) (demo_proxy 16) [Arrival 0, FetchAdd, Spawn] (demo_proxy_after (LocalServer ''127.0.0.1:25565'') 16) \<and>
   slots (demo_proxy_after (LocalServer ''127.0.0.1:25565'') 16) \<le> unat (1 :: usize) \<and> px_live (demo_proxy_after (LocalServer ''127.0.0.1:25565'') 16) = 1"
  using publish_cap [OF demo_proxy_start(1) demo_proxy_trace, of 16] demo_proxy_trace [of 16]
  by (simp add: demo_proxy_after_def)

theorem publish_rate_witness:
  "of_nat (length (px_tunnels (demo_proxy_after (LocalServer ''127.0.0.1:25565'') 16))) \<le> rate_bound (unat (max 16 1 :: u32)) 0 1"
  using publish_rate [OF demo_proxy_start(1) demo_proxy_trace, of 16] by simp

theorem publish_serves_witness:
  "px_pc (demo_proxy_after (LocalServer ''127.0.0.1:25565'') 16) = Accepting \<and>
   (\<exists>s'. trace (run_publish ''127.0.0.1:25565'' 2) (demo_proxy 16) [Arrival 1000000000, FetchAdd, Spawn] s' \<and>
      px_tunnels s' = [Opening (LocalServer ''127.0.0.1:25565'')])"
  using publish_serves [OF demo_proxy_start(1) trace_Nil, of 16 "''127.0.0.1:25565''" 2 1000000000]
  by (auto simp: demo_proxy_after_def demo_proxy_def RateLimiter_new_simps)

end
