(* ===== verification/Std_Net.thy ===== *)
theory Std_Net
  imports Cli_Os
begin

text \<open>
  What \<^verbatim>\<open>crates/cli/src/tunnel.rs\<close> uses of \<^verbatim>\<open>std::net\<close>: \<^verbatim>\<open>str::parse::<SocketAddr>\<close> and \<^verbatim>\<open>IpAddr::is_loopback\<close>. The
  parser follows the standard library's \<^verbatim>\<open>core::net::parser\<close>: each reader takes the remaining text and
  returns its value with what is left, or \<open>None\<close>, after which the caller is where it was before
  (\<^verbatim>\<open>read_atomically\<close>).
\<close>

section \<open>Readers\<close>

type_synonym 'a reader = "string \<Rightarrow> ('a \<times> string) option"

fun read_given_char :: "char \<Rightarrow> string \<Rightarrow> string option" where
  "read_given_char c [] = None"
| "read_given_char c (x # s) = (if x = c then Some s else None)"

text \<open>\<^verbatim>\<open>read_separator\<close>: the separator comes before every item but the first.\<close>

definition read_separator :: "char \<Rightarrow> bool \<Rightarrow> 'a reader \<Rightarrow> 'a reader" where
  "read_separator sep at_start inner s =
     (if at_start then inner s else Option.bind (read_given_char sep s) inner)"

text \<open>\<^verbatim>\<open>char::to_digit\<close> for radix 10 and 16.\<close>

definition radix_digit :: "nat \<Rightarrow> char \<Rightarrow> nat option" where
  "radix_digit radix c =
     (let n = of_char c;
          d = (if 48 \<le> n \<and> n \<le> 57 then n - 48
               else if 97 \<le> n \<and> n \<le> 122 then n - 87
               else if 65 \<le> n \<and> n \<le> 90 then n - 55
               else radix)
      in if d < radix then Some d else None)"

definition digits_value :: "nat \<Rightarrow> string \<Rightarrow> nat" where
  "digits_value radix ds = foldl (\<lambda>v c. radix * v + the (radix_digit radix c)) 0 ds"

text \<open>\<^verbatim>\<open>read_number\<close>: as many digits as there are; too many of them or a value over \<open>max_value\<close> (what the
  type holds) is a failure, and so is a leading zero where it is not allowed. (The code adds up
  the digits as it reads them and stops at the first overflow; the value of the digits read only
  grows with more of them, so the outcome is the same.)\<close>

definition read_number :: "nat \<Rightarrow> nat option \<Rightarrow> bool \<Rightarrow> nat \<Rightarrow> nat reader" where
  "read_number radix max_digits allow_zero_prefix max_value s =
     (let ds = takeWhile (\<lambda>c. radix_digit radix c \<noteq> None) s;
          rest = dropWhile (\<lambda>c. radix_digit radix c \<noteq> None) s;
          n = digits_value radix ds
      in if ds = [] then None
         else if (case max_digits of Some m \<Rightarrow> length ds > m | None \<Rightarrow> False) then None
         else if n > max_value then None
         else if \<not> allow_zero_prefix \<and> hd ds = CHR ''0'' \<and> length ds > 1 then None
         else Some (n, rest))"

section \<open>Addresses\<close>

text \<open>An IPv4 address is its four octets, an IPv6 address its eight groups.\<close>

datatype socket_addr =
    V4 nat nat nat nat nat \<comment> \<open>octets, port\<close>
  | V6 "nat list" nat nat \<comment> \<open>groups, scope id, port\<close>

definition read_octet :: "bool \<Rightarrow> nat reader" where
  "read_octet at_start = read_separator CHR ''.'' at_start (read_number 10 (Some 3) False 255)"

definition read_ipv4_addr :: "(nat \<times> nat \<times> nat \<times> nat) reader" where
  "read_ipv4_addr s =
     Option.bind (read_octet True s) (\<lambda>(a, s).
     Option.bind (read_octet False s) (\<lambda>(b, s).
     Option.bind (read_octet False s) (\<lambda>(c, s).
     Option.bind (read_octet False s) (\<lambda>(d, s). Some ((a, b, c, d), s)))))"

text \<open>\<^verbatim>\<open>read_groups\<close> for at most \<open>n\<close> more groups; the flag says that the last two came as an IPv4 address.\<close>

fun read_groups :: "nat \<Rightarrow> bool \<Rightarrow> string \<Rightarrow> nat list \<times> bool \<times> string" where
  "read_groups 0 at_start s = ([], False, s)"
| "read_groups (Suc n) at_start s =
     (case (if n > 0 then read_separator CHR '':'' at_start read_ipv4_addr s else None) of
        Some ((a, b, c, d), s) \<Rightarrow> ([256 * a + b, 256 * c + d], True, s)
      | None \<Rightarrow>
          (case read_separator CHR '':'' at_start (read_number 16 (Some 4) True 65535) s of
             Some (g, s) \<Rightarrow> (case read_groups n False s of (gs, v4, s) \<Rightarrow> (g # gs, v4, s))
           | None \<Rightarrow> ([], False, s)))"

definition read_ipv6_addr :: "nat list reader" where
  "read_ipv6_addr s =
     (case read_groups 8 True s of (head, head_ipv4, s) \<Rightarrow>
        if length head = 8 then Some (head, s)
        else if head_ipv4 then None
        else Option.bind (read_given_char CHR '':'' s) (\<lambda>s.
             Option.bind (read_given_char CHR '':'' s) (\<lambda>s.
             case read_groups (8 - (length head + 1)) True s of (tail, _, s) \<Rightarrow>
               Some (head @ replicate (8 - length head - length tail) 0 @ tail, s))))"

definition read_port :: "nat reader" where
  "read_port s = Option.bind (read_given_char CHR '':'' s) (read_number 10 None True 65535)"

definition read_scope_id :: "nat reader" where
  "read_scope_id s = Option.bind (read_given_char CHR ''%'' s) (read_number 10 None True 4294967295)"

definition read_socket_addr_v4 :: "socket_addr reader" where
  "read_socket_addr_v4 s =
     Option.bind (read_ipv4_addr s) (\<lambda>((a, b, c, d), s).
     Option.bind (read_port s) (\<lambda>(p, s). Some (V4 a b c d p, s)))"

definition read_socket_addr_v6 :: "socket_addr reader" where
  "read_socket_addr_v6 s =
     Option.bind (read_given_char CHR ''['' s) (\<lambda>s.
     Option.bind (read_ipv6_addr s) (\<lambda>(gs, s).
     case (case read_scope_id s of Some (i, s') \<Rightarrow> (i, s') | None \<Rightarrow> (0, s)) of (scope, s) \<Rightarrow>
     Option.bind (read_given_char CHR '']'' s) (\<lambda>s.
     Option.bind (read_port s) (\<lambda>(p, s). Some (V6 gs scope p, s)))))"

definition read_socket_addr :: "socket_addr reader" where
  "read_socket_addr s =
     (case read_socket_addr_v4 s of Some r \<Rightarrow> Some r | None \<Rightarrow> read_socket_addr_v6 s)"

text \<open>\<^verbatim>\<open>parse_with\<close>: nothing may be left over.\<close>

definition parse_with :: "'a reader \<Rightarrow> string \<Rightarrow> (unit, 'a) result" where
  "parse_with inner s = (case inner s of Some (x, []) \<Rightarrow> Ok x | _ \<Rightarrow> Err ())"

definition SocketAddr_from_str :: "string \<Rightarrow> (unit, socket_addr) result" where
  "SocketAddr_from_str = parse_with read_socket_addr"

fun is_loopback :: "socket_addr \<Rightarrow> bool" where
  "is_loopback (V4 a b c d p) \<longleftrightarrow> a = 127"
| "is_loopback (V6 gs i p) \<longleftrightarrow> gs = [0, 0, 0, 0, 0, 0, 0, 1]"

lemmas socket_defs = SocketAddr_from_str_def parse_with_def read_socket_addr_def read_socket_addr_v4_def
  read_socket_addr_v6_def read_port_def read_scope_id_def read_ipv4_addr_def read_ipv6_addr_def
  read_octet_def read_number_def read_separator_def radix_digit_def digits_value_def

lemma read_groups_numeral [simp]:
  "read_groups (numeral k) at_start s =
     (case (if pred_numeral k > 0 then read_separator CHR '':'' at_start read_ipv4_addr s else None) of
        Some ((a, b, c, d), s) \<Rightarrow> ([256 * a + b, 256 * c + d], True, s)
      | None \<Rightarrow>
          (case read_separator CHR '':'' at_start (read_number 16 (Some 4) True 65535) s of
             Some (g, s) \<Rightarrow> (case read_groups (pred_numeral k) False s of (gs, v4, s) \<Rightarrow> (g # gs, v4, s))
           | None \<Rightarrow> ([], False, s)))"
  by (simp add: numeral_eq_Suc)

text \<open>Some addresses.\<close>

lemma SocketAddr_from_str_examples:
  "SocketAddr_from_str ''127.0.0.1:25566'' = Ok (V4 127 0 0 1 25566)"
  "SocketAddr_from_str ''[::1]:25566'' = Ok (V6 [0, 0, 0, 0, 0, 0, 0, 1] 0 25566)"
  "SocketAddr_from_str ''[fe80::1%3]:80'' = Ok (V6 [65152, 0, 0, 0, 0, 0, 0, 1] 3 80)"
  "SocketAddr_from_str ''[::ffff:127.0.0.1]:1'' = Ok (V6 [0, 0, 0, 0, 0, 65535, 32512, 1] 0 1)"
  "SocketAddr_from_str ''127.0.0.01:1'' = Err ()"
  "SocketAddr_from_str ''localhost:25566'' = Err ()"
  by (simp_all add: socket_defs) (simp_all add: numeral_eq_Suc)

section \<open>Printed IPv4 socket addresses\<close>

lemma radix_digit_10 [simp]: "radix_digit 10 c = to_digit c"
  by (auto simp: radix_digit_def to_digit_def Let_def)

lemma digits_value_dec_string: "digits_value 10 (dec_string n) = n"
proof (induction n rule: dec_string.induct)
  case (1 n)
  then show ?case by (simp add: dec_string.simps [of n] digits_value_def)
qed

lemma dec_string_leading: "n > 0 \<Longrightarrow> hd (dec_string n) \<noteq> CHR ''0''"
proof (induction n rule: dec_string.induct)
  case (1 n)
  have "digit_char d \<noteq> CHR ''0''" if "0 < d" "d < 10" for d
    using that to_digit_char [of d] by (auto simp: to_digit_def)
  with 1 show ?case by (auto simp: dec_string.simps [of n] hd_append)
qed

lemma length_dec_string: "n < 10 ^ Suc k \<Longrightarrow> length (dec_string n) \<le> Suc k"
proof (induction n arbitrary: k rule: dec_string.induct)
  case (1 n)
  show ?case
  proof (cases "n < 10")
    case False
    with 1(2) obtain k' where k: "k = Suc k'" by (cases k) auto
    with 1(2) have "n div 10 < 10 ^ Suc k'" by (simp add: less_mult_imp_div_less algebra_simps)
    with 1(1) False k show ?thesis by (simp add: dec_string.simps [of n])
  qed (simp add: dec_string.simps [of n])
qed

text \<open>Reading a printed number that something other than a digit follows.\<close>

lemma read_number_dec_string:
  assumes "n \<le> max_value" and "rest = [] \<or> to_digit (hd rest) = None"
    and "\<forall>m. max_digits = Some m \<longrightarrow> length (dec_string n) \<le> m"
  shows "read_number 10 max_digits z max_value (dec_string n @ rest) = Some (n, rest)"
proof -
  have dig: "\<forall>c \<in> set (dec_string n). to_digit c \<noteq> None"
    using dec_string_digits [of _ n] by (auto simp: to_digit_def)
  have "takeWhile (\<lambda>c. to_digit c \<noteq> None) (dec_string n @ rest) = dec_string n"
    using assms(2) dig by (cases rest) (auto simp: takeWhile_append)
  moreover have "dropWhile (\<lambda>c. to_digit c \<noteq> None) (dec_string n @ rest) = rest"
    using assms(2) dig by (cases rest) (auto simp: dropWhile_append)
  moreover have "\<not> (hd (dec_string n) = CHR ''0'' \<and> length (dec_string n) > 1)"
    using dec_string_leading [of n] by (cases "n = 0") (auto simp: dec_string.simps)
  ultimately show ?thesis
    using assms(1,3) by (auto simp: read_number_def digits_value_dec_string Let_def split: option.split)
qed

lemma read_number_bound: "read_number r m z mx s = Some (n, t) \<Longrightarrow> n \<le> mx"
  by (auto simp: read_number_def Let_def split: if_splits)

definition v4_string :: "nat \<times> nat \<times> nat \<times> nat \<times> nat \<Rightarrow> string" where
  "v4_string = (\<lambda>(a, b, c, d, p). dec_string a @ ''.'' @ dec_string b @ ''.'' @ dec_string c @ ''.'' @
     dec_string d @ '':'' @ dec_string p)"

definition v4_valid :: "nat \<times> nat \<times> nat \<times> nat \<times> nat \<Rightarrow> bool" where
  "v4_valid = (\<lambda>(a, b, c, d, p). a \<le> 255 \<and> b \<le> 255 \<and> c \<le> 255 \<and> d \<le> 255 \<and> p \<le> 65535)"

definition parse_v4 :: "string \<Rightarrow> (unit, nat \<times> nat \<times> nat \<times> nat \<times> nat) result" where
  "parse_v4 s = tryq (parse_with read_socket_addr_v4 s)
     (\<lambda>x. case x of V4 a b c d p \<Rightarrow> Ok (a, b, c, d, p) | _ \<Rightarrow> Err ())"

lemma octet_read:
  assumes "n \<le> 255" and "rest = [] \<or> to_digit (hd rest) = None"
  shows "read_octet True (dec_string n @ rest) = Some (n, rest)"
    and "read_octet False (CHR ''.'' # dec_string n @ rest) = Some (n, rest)"
proof -
  have "length (dec_string n) \<le> 3" using length_dec_string [of n 2] assms(1) by simp
  with read_number_dec_string [OF assms, of "Some 3" False]
  show "read_octet True (dec_string n @ rest) = Some (n, rest)"
    and "read_octet False (CHR ''.'' # dec_string n @ rest) = Some (n, rest)"
    by (simp_all add: read_octet_def read_separator_def)
qed

lemma port_read: "p \<le> 65535 \<Longrightarrow> read_port (CHR '':'' # dec_string p) = Some (p, [])"
  using read_number_dec_string [of p 65535 "[]" None True] by (simp add: read_port_def)

lemma read_v4_string:
  assumes "v4_valid (a, b, c, d, p)"
  shows "read_socket_addr_v4 (v4_string (a, b, c, d, p)) = Some (V4 a b c d p, [])"
proof -
  have sep: "to_digit CHR ''.'' = None" "to_digit CHR '':'' = None"
    by (simp_all add: to_digit_def)
  show ?thesis
    using assms
    by (simp add: v4_string_def v4_valid_def read_socket_addr_v4_def read_ipv4_addr_def octet_read port_read sep)
qed

lemma read_socket_addr_v4_valid:
  assumes "read_socket_addr_v4 s = Some (x, t)"
  obtains a b c d p where "x = V4 a b c d p" "v4_valid (a, b, c, d, p)"
  using assms
  by (auto simp: read_socket_addr_v4_def read_ipv4_addr_def read_octet_def read_separator_def
      read_port_def v4_valid_def bind_eq_Some_conv dest!: read_number_bound)

interpretation v4_text: text_form v4_valid v4_string parse_v4
proof
  show "parse_v4 (v4_string x) = Ok x" if "v4_valid x" for x
    using that read_v4_string by (cases x) (auto simp: parse_v4_def parse_with_def)
  show "v4_valid x" if "parse_v4 s = Ok x" for s x
    using that
    by (auto simp: parse_v4_def parse_with_def tryq_eq_Ok_iff split: option.splits list.splits
        elim!: read_socket_addr_v4_valid)
qed

lemma SocketAddr_v4_string:
  "v4_valid (a, b, c, d, p) \<Longrightarrow> SocketAddr_from_str (v4_string (a, b, c, d, p)) = Ok (V4 a b c d p)"
  by (simp add: SocketAddr_from_str_def parse_with_def read_socket_addr_def read_v4_string)

end
