(* ===== verification/Cli_Session.thy ===== *)
theory Cli_Session
  imports Cli_Tunnel Proxy Std_Net
begin

text \<open>
  The long-running commands of \<^verbatim>\<open>crates/cli/src/tunnel.rs\<close> as a whole: \<^verbatim>\<open>publish\<close>, \<^verbatim>\<open>connect\<close>, \<^verbatim>\<open>relay\<close> and \<^verbatim>\<open>doctor\<close>,
  with what they print, and \<^verbatim>\<open>warn_if_exposed\<close>.

  \<^verbatim>\<open>publish\<close> and \<^verbatim>\<open>connect\<close> end in a \<^verbatim>\<open>tokio::select!\<close> between their proxy and Ctrl-C. Three kinds of tasks
  interleave: the command itself, the tunnel tasks its proxy has spawned, which nobody waits for and which go on
  when the command has ended, and the republishing task of \<^verbatim>\<open>publish\<close>. A step is the code of one task between two
  points where it waits, so Ctrl-C can come while a put is under way or the task sleeps. What the network
  answers is open (any answer may come, at any later time); time passes between the steps.

  The locale \<open>proxy_service\<close> is the contract between a session and its proxy.
\<close>

section \<open>The exposure warning\<close>

definition exposed :: "string \<Rightarrow> bool" where
  "exposed listen =
     (case SocketAddr_from_str listen of
        Ok addr \<Rightarrow> \<not> is_loopback addr
      | Err _ \<Rightarrow> \<not> prefix ''127.'' listen \<and> \<not> prefix ''[::1]'' listen)"

text \<open>The warnings it logs.\<close>

definition warn_if_exposed :: "string \<Rightarrow> string list" where
  "warn_if_exposed listen =
     (if exposed listen
      then [''listening on a non-loopback address '' @ em_dash @ '' this exposes the tunnel to your whole network'']
      else [])"

section \<open>The republishing task\<close>

text \<open>Where the task is: not run yet, waiting for the addresses, for the put, or for the end of its sleep.\<close>

datatype republish_pc = NotPolled | AwaitDoctor | AwaitPut | Sleeping instant

datatype task_action =
    TaskPolled
  | PutSent bytes bytes \<comment> \<open>the key and the value of \<^verbatim>\<open>handle.put_record\<close>\<close>
  | NothingToPut
  | PutDone "(anyhow, unit) result"
  | Woken

inductive republish_step ::
  "'a externs_scheme \<Rightarrow> 'e net_env \<Rightarrow> identity \<Rightarrow> string \<Rightarrow> peer_id \<Rightarrow> bytes
     \<Rightarrow> 'e \<Rightarrow> republish_pc \<Rightarrow> task_action \<Rightarrow> republish_pc \<Rightarrow> bool"
  for X E signer vanity peer_id dk e where
  republish_first: "republish_step X E signer vanity peer_id dk e NotPolled TaskPolled AwaitDoctor"
| republish_put: "advertised info = addrs \<Longrightarrow> addrs \<noteq> [] \<Longrightarrow>
     rec = build_record X (now_secs E e) signer vanity peer_id addrs \<Longrightarrow>
     republish_step X E signer vanity peer_id dk e AwaitDoctor (PutSent dk (Record_to_bytes X rec)) AwaitPut"
| republish_no_address: "advertised info = [] \<Longrightarrow>
     republish_step X E signer vanity peer_id dk e AwaitDoctor NothingToPut (Sleeping (ne_mono E e + RETRY))"
| republish_no_answer:
    "republish_step X E signer vanity peer_id dk e AwaitDoctor NothingToPut (Sleeping (ne_mono E e + RETRY))"
| republish_ok:
    "republish_step X E signer vanity peer_id dk e AwaitPut (PutDone (Ok ())) (Sleeping (ne_mono E e + REFRESH))"
| republish_failed:
    "republish_step X E signer vanity peer_id dk e AwaitPut (PutDone (Err m)) (Sleeping (ne_mono E e + RETRY))"
| republish_wake: "t \<le> ne_mono E e \<Longrightarrow>
     republish_step X E signer vanity peer_id dk e (Sleeping t) Woken AwaitDoctor"


section \<open>A command beside its tasks\<close>

text \<open>Where the command is: in its \<^verbatim>\<open>select!\<close>, behind it, or returned.\<close>

datatype session_pc = Selecting | TearDown | CmdReturned "(anyhow, unit) result"

record 'e session =
  se_env :: 'e
  se_pc :: session_pc
  se_proxy :: "proxy option" \<comment> \<open>from its first poll on\<close>
  se_task :: "republish_pc option" \<comment> \<open>until it is aborted\<close>
  se_out :: "string list" \<comment> \<open>lines on stderr\<close>

datatype session_action =
    Elapse
  | Task instant task_action
  | ProxyPolled
  | ProxyAction proxy_action
  | ProxyReturned
  | Interrupt
  | TornDown

definition shutting_down :: string where
  "shutting_down = CHR 0x0A # ''Shutting down.''"

text \<open>The proxy starts (\<open>start\<close>) when the \<^verbatim>\<open>select!\<close> polls it for the first time. An error of the proxy is returned
  at once by \<^verbatim>\<open>r?\<close>; otherwise \<^verbatim>\<open>republish.abort()\<close> follows. When the \<^verbatim>\<open>select!\<close> is over the accept loop is
  dropped, the tunnel tasks are not. (A step of the task that is under way when it is aborted counts as taken
  before.)\<close>

inductive session_step ::
  "'e net_env \<Rightarrow> (instant \<Rightarrow> (proxy_error, proxy) result) \<Rightarrow> (proxy \<Rightarrow> proxy_action \<Rightarrow> proxy \<Rightarrow> bool)
     \<Rightarrow> ('e \<Rightarrow> republish_pc \<Rightarrow> task_action \<Rightarrow> republish_pc \<Rightarrow> bool)
     \<Rightarrow> 'e session \<Rightarrow> session_action \<Rightarrow> 'e session \<Rightarrow> bool"
  for E start run_proxy task_step where
  session_elapse: "ne_mono E (se_env s) \<le> ne_mono E e \<Longrightarrow>
     session_step E start run_proxy task_step s Elapse (s\<lparr>se_env := e\<rparr>)"
| session_task: "se_task s = Some pc \<Longrightarrow> task_step (se_env s) pc a pc' \<Longrightarrow>
     session_step E start run_proxy task_step s (Task (ne_mono E (se_env s)) a) (s\<lparr>se_task := Some pc'\<rparr>)"
| session_polled: "se_pc s = Selecting \<Longrightarrow> se_proxy s = None \<Longrightarrow> start (ne_mono E (se_env s)) = Ok px \<Longrightarrow>
     session_step E start run_proxy task_step s ProxyPolled (s\<lparr>se_proxy := Some px\<rparr>)"
| session_refused: "se_pc s = Selecting \<Longrightarrow> se_proxy s = None \<Longrightarrow> start (ne_mono E (se_env s)) = Err m \<Longrightarrow>
     session_step E start run_proxy task_step s ProxyPolled (s\<lparr>se_pc := CmdReturned (Err m)\<rparr>)"
| session_proxy: "se_pc s = Selecting \<Longrightarrow> se_proxy s = Some px \<Longrightarrow> run_proxy px a px' \<Longrightarrow>
     (\<forall>t. a = Arrival t \<longrightarrow> t = ne_mono E (se_env s)) \<Longrightarrow>
     session_step E start run_proxy task_step s (ProxyAction a) (s\<lparr>se_proxy := Some px'\<rparr>)"
| session_tunnel: "se_proxy s = Some px \<Longrightarrow> tunnel_step px a px' \<Longrightarrow>
     session_step E start run_proxy task_step s (ProxyAction a) (s\<lparr>se_proxy := Some px'\<rparr>)"
| session_returned: "se_pc s = Selecting \<Longrightarrow> se_proxy s = Some px \<Longrightarrow> px_pc px = Returned (Ok ()) \<Longrightarrow>
     session_step E start run_proxy task_step s ProxyReturned (s\<lparr>se_pc := TearDown\<rparr>)"
| session_failed: "se_pc s = Selecting \<Longrightarrow> se_proxy s = Some px \<Longrightarrow> px_pc px = Returned (Err m) \<Longrightarrow>
     session_step E start run_proxy task_step s ProxyReturned (s\<lparr>se_pc := CmdReturned (Err m)\<rparr>)"
| session_ctrl_c: "se_pc s = Selecting \<Longrightarrow>
     session_step E start run_proxy task_step s Interrupt
       (s\<lparr>se_pc := TearDown, se_out := se_out s @ [shutting_down]\<rparr>)"
| session_torn_down: "se_pc s = TearDown \<Longrightarrow>
     session_step E start run_proxy task_step s TornDown (s\<lparr>se_task := None, se_pc := CmdReturned (Ok ())\<rparr>)"

inductive_cases session_stepE: "session_step E start run_proxy task_step s a s'"

section \<open>publish\<close>

definition publish_lines :: "name \<Rightarrow> peer_id \<Rightarrow> string \<Rightarrow> string list" where
  "publish_lines name peer_id target =
     [''Publishing: '' @ Name_to_string name,
      ''  keyid   : '' @ name_keyid name,
      ''  peer id : '' @ peer_id,
      ''  target  : '' @ target,
      ''Share this address; connect with:  mc-tunnel connect '' @ Name_to_string name,
      ''Press Ctrl-C to stop.'']"

text \<open>\<^verbatim>\<open>publish\<close> up to its \<^verbatim>\<open>select!\<close>.\<close>

definition publish_open ::
  "'a externs_scheme \<Rightarrow> 'e net_env \<Rightarrow> (anyhow, peer_id) result \<Rightarrow> identity \<Rightarrow> nat \<Rightarrow> string \<Rightarrow> string \<Rightarrow> 'e
     \<Rightarrow> (anyhow, name \<times> bytes \<times> peer_id \<times> 'e session) result" where
  "publish_open X E spawned self keyid_len target vanity e =
     tryq (publish_start X spawned self keyid_len vanity) (\<lambda>(name, dk, peer_id).
     let e = ne_sleep E (from_secs 2) e in
     Ok (name, dk, peer_id, \<lparr>se_env = e, se_pc = Selecting, se_proxy = None, se_task = Some NotPolled,
           se_out = publish_lines name peer_id target\<rparr>))"

text \<open>The republishing task signs with an identity rebuilt from a copy of the secret. \<open>proto\<close> and \<open>registered\<close> are
  the results the proxy gets when it starts.\<close>

definition publish_session ::
  "'a externs_scheme \<Rightarrow> 'e net_env \<Rightarrow> (string, unit) result \<Rightarrow> (string, unit) result \<Rightarrow> identity \<Rightarrow> string
     \<Rightarrow> string \<Rightarrow> bytes \<Rightarrow> peer_id \<Rightarrow> usize \<Rightarrow> u32
     \<Rightarrow> 'e session \<Rightarrow> session_action \<Rightarrow> 'e session \<Rightarrow> bool" where
  "publish_session X E proto registered self target vanity dk peer_id max_conns max_conn_rate =
     session_step E (run_publish_start proto registered max_conn_rate) (run_publish target max_conns)
       (republish_step X E (from_secret_bytes (secret_bytes self)) vanity peer_id dk)"

section \<open>connect\<close>

definition connect_lines :: "peer_id \<Rightarrow> string \<Rightarrow> string list" where
  "connect_lines peer listen =
     [''Resolved to peer '' @ peer,
      ''Local port : '' @ listen,
      ''Add a Minecraft server pointing at '' @ listen @ '' and join.'',
      ''Press Ctrl-C to stop.'']"

definition connect_open ::
  "'a externs_scheme \<Rightarrow> 'e net_env \<Rightarrow> (anyhow, unit) result \<Rightarrow> (string \<Rightarrow> (string, 'l) result)
     \<Rightarrow> string \<Rightarrow> string \<Rightarrow> 'e \<Rightarrow> (anyhow, peer_id \<times> 'e session) result option" where
  "connect_open X E spawned bind name_str listen e =
     map_option (\<lambda>(started, e).
         tryq started (\<lambda>(peer, listener).
         Ok (peer, \<lparr>se_env = e, se_pc = Selecting, se_proxy = None, se_task = None,
               se_out = [''Resolving '' @ (case Name_parse name_str of Ok n \<Rightarrow> Name_to_string n | Err _ \<Rightarrow> []) @ '' ...''] @
                 warn_if_exposed listen @ connect_lines peer listen\<rparr>)))
       (connect_start X E spawned bind name_str listen e)"

text \<open>The proxy of \<^verbatim>\<open>connect\<close> gets the peer that was established; there is no task beside it.\<close>

definition connect_session ::
  "'e net_env \<Rightarrow> (string, unit) result \<Rightarrow> peer_id \<Rightarrow> 'e session \<Rightarrow> session_action \<Rightarrow> 'e session \<Rightarrow> bool" where
  "connect_session E proto peer =
     session_step E (run_connect_start proto) (run_connect peer) (\<lambda>_ _ _ _. False)"

section \<open>relay and doctor\<close>

text \<open>\<^verbatim>\<open>relay\<close> until Ctrl-C: what it prints.\<close>

definition relay ::
  "'e net_env \<Rightarrow> (net_config \<Rightarrow> (anyhow, unit) result) \<Rightarrow> u16 \<Rightarrow> bool \<Rightarrow> 'e
     \<Rightarrow> (anyhow, string list) result \<times> 'e" where
  "relay E spawn_node listen_port enable_mdns e =
     (case tryq (relay_config (ne_multiaddr E) listen_port enable_mdns) spawn_node of
        Err m \<Rightarrow> (Err m, e)
      | Ok _ \<Rightarrow>
          (case ne_doctor E (ne_sleep E (from_secs 2) e) of
             (Err m, e) \<Rightarrow> (Err m, e)
           | (Ok info, e) \<Rightarrow>
               (Ok ([''Relay/bootstrap node running.'', ''  peer id : '' @ di_peer_id info,
                     ''Add one of these to other nodes' config.toml [network] bootstrap:''] @
                    map (\<lambda>a. ''  '' @ a) (relay_printed info) @
                    [''Press Ctrl-C to stop.'', shutting_down]), e)))"

definition doctor_lines :: "doctor_info \<Rightarrow> string list" where
  "doctor_lines info =
     [''peer id          : '' @ di_peer_id info,
      ''connected peers  : '' @ dec_string (di_connected_peers info),
      ''NAT status       : '' @ di_nat_status info,
      ''listen addrs     :''] @
     map (\<lambda>a. ''  '' @ a) (di_listen_addrs info) @
     [''external addrs   :''] @
     (if di_external_addrs info = [] then [''  (none confirmed yet)''] else []) @
     map (\<lambda>a. ''  '' @ a) (di_external_addrs info)"

text \<open>The lines on stdout and on stderr.\<close>

definition doctor ::
  "'e net_env \<Rightarrow> (anyhow, unit) result \<Rightarrow> bool \<Rightarrow> 'e
     \<Rightarrow> (anyhow, string list \<times> string list) result \<times> 'e" where
  "doctor E spawned json e =
     (case spawned of
        Err m \<Rightarrow> (Err m, e)
      | Ok _ \<Rightarrow>
          (case ne_doctor E (ne_sleep E (from_secs 3) e) of
             (Err m, e) \<Rightarrow> (Err m, e)
           | (Ok info, e) \<Rightarrow>
               (Ok (if json then ([doctor_json info], []) else ([], doctor_lines info)), e)))"

section \<open>When the warning is given\<close>

text \<open>A text that starts with \<open>127.\<close> parses to a loopback address or not at all.\<close>

lemma prefix_127_loopback:
  assumes "SocketAddr_from_str (''127.'' @ s) = Ok addr"
  shows "is_loopback addr"
proof -
  have "read_octet True (''127.'' @ s) = Some (127, CHR ''.'' # s)"
    by (simp add: read_octet_def read_separator_def read_number_def to_digit_def digits_value_def)
  moreover have "read_socket_addr_v6 (''127.'' @ s) = None"
    by (simp add: read_socket_addr_v6_def)
  ultimately show ?thesis
    using assms
    by (auto simp: SocketAddr_from_str_def parse_with_def read_socket_addr_def read_socket_addr_v4_def
        read_ipv4_addr_def bind_eq_Some_conv split: option.splits list.splits)
qed

text \<open>C34. When \<^verbatim>\<open>connect\<close> warns that its port is exposed: for an IPv4 listen address exactly when it is outside
  127.0.0.0/8, whatever the port; for anything that is not an IP address and port (a host name), unless the text
  starts with \<^verbatim>\<open>127.\<close> or \<^verbatim>\<open>[::1]\<close>. Every text that starts with \<^verbatim>\<open>127.\<close> is taken for loopback, also a host name.\<close>

theorem warn_if_exposed_when:
  "(v4_valid (a, b, c, d, p) \<longrightarrow> (warn_if_exposed (v4_string (a, b, c, d, p)) = [] \<longleftrightarrow> a = 127)) \<and>
   (prefix ''127.'' listen \<longrightarrow> warn_if_exposed listen = []) \<and>
   (\<not> is_ok (SocketAddr_from_str listen) \<and> \<not> prefix ''127.'' listen \<and> \<not> prefix ''[::1]'' listen \<longrightarrow>
      warn_if_exposed listen \<noteq> [])"
proof -
  have "\<not> exposed listen" if "prefix ''127.'' listen"
    using that prefix_127_loopback by (auto simp: exposed_def prefix_def split: sum.split)
  then show ?thesis
    by (auto simp: warn_if_exposed_def exposed_def SocketAddr_v4_string is_ok_def split: sum.splits)
qed

theorem warn_if_exposed_when_witness:
  "warn_if_exposed ''127.0.0.1:25566'' = [] \<and> warn_if_exposed ''127.example.net:25566'' = [] \<and>
   warn_if_exposed ''localhost:25566'' \<noteq> [] \<and> warn_if_exposed (v4_string (192, 168, 1, 2, 25566)) \<noteq> []"
proof -
  have "prefix ''127.'' ''127.0.0.1:25566''" "prefix ''127.'' ''127.example.net:25566''"
    "\<not> prefix ''127.'' ''localhost:25566''" "\<not> prefix ''[::1]'' ''localhost:25566''"
    "v4_valid (192, 168, 1, 2, 25566)" "\<not> is_ok (SocketAddr_from_str ''localhost:25566'')"
    by (simp_all add: v4_valid_def SocketAddr_from_str_examples is_ok_def)
  then show ?thesis
    using warn_if_exposed_when [where listen = "''127.0.0.1:25566''"]
      warn_if_exposed_when [where listen = "''127.example.net:25566''"]
      warn_if_exposed_when [where a = 192 and b = 168 and c = 1 and d = 2 and p = 25566
        and listen = "''localhost:25566''"]
    by simp
qed

section \<open>Sessions and their proxies\<close>

fun proxy_actions :: "session_action list \<Rightarrow> proxy_action list" where
  "proxy_actions [] = []"
| "proxy_actions (ProxyAction a # as) = a # proxy_actions as"
| "proxy_actions (_ # as) = proxy_actions as"

lemma proxy_actions_append [simp]: "proxy_actions (as @ bs) = proxy_actions as @ proxy_actions bs"
  by (induction as rule: proxy_actions.induct) auto

lemma arrival_times_append [simp]: "arrival_times (as @ bs) = arrival_times as @ arrival_times bs"
  by (induction as rule: arrival_times.induct) auto

definition tunnels_of :: "'e session \<Rightarrow> tunnel_task list" where
  "tunnels_of s = (case se_proxy s of None \<Rightarrow> [] | Some px \<Rightarrow> px_tunnels px)"

lemma session_clock:
  "session_step E start run_proxy task_step s a s' \<Longrightarrow> ne_mono E (se_env s) \<le> ne_mono E (se_env s')"
  by (auto elim!: session_stepE)

lemma trace_session_clock:
  "trace (session_step E start run_proxy task_step) s as s' \<Longrightarrow> ne_mono E (se_env s) \<le> ne_mono E (se_env s')"
  by (induction rule: trace.induct) (auto dest: session_clock)

text \<open>The proxy of a session that came from \<open>s0\<close>: it started at some instant, and made the actions of the
  session since, with arrivals in the order of time.\<close>

definition proxy_history ::
  "'e net_env \<Rightarrow> (instant \<Rightarrow> (proxy_error, proxy) result) \<Rightarrow> (proxy \<Rightarrow> proxy_action \<Rightarrow> proxy \<Rightarrow> bool)
     \<Rightarrow> instant \<Rightarrow> proxy_action list \<Rightarrow> instant \<Rightarrow> proxy \<Rightarrow> bool" where
  "proxy_history E start run_proxy t acts now px \<longleftrightarrow>
     (\<exists>t0 px0. t \<le> t0 \<and> start t0 = Ok px0 \<and> trace run_proxy px0 acts px \<and>
        sorted (t0 # arrival_times acts @ [now]))"

lemma proxy_history_later:
  "proxy_history E start run_proxy t acts now px \<Longrightarrow> now \<le> now' \<Longrightarrow> proxy_history E start run_proxy t acts now' px"
  by (fastforce simp: proxy_history_def sorted_append)

lemma proxy_history_step:
  assumes "proxy_history E start run_proxy t acts now px" and "run_proxy px a px'"
    and "\<forall>u. a = Arrival u \<longrightarrow> u = now"
  shows "proxy_history E start run_proxy t (acts @ [a]) now px'"
proof -
  obtain t0 px0 where h: "t \<le> t0" "start t0 = Ok px0" "trace run_proxy px0 acts px"
    "sorted (t0 # arrival_times acts @ [now])"
    using assms(1) by (auto simp: proxy_history_def)
  have "trace run_proxy px0 (acts @ [a]) px'" using h(3) assms(2) by (auto simp: trace_append)
  moreover have "arrival_times [a] = (if \<exists>u. a = Arrival u then [now] else [])"
    using assms(3) by (cases a) auto
  then have "sorted (t0 # arrival_times (acts @ [a]) @ [now])" using h(4) by (auto simp: sorted_append)
  ultimately show ?thesis unfolding proxy_history_def using h(1,2) by blast
qed

text \<open>
  What a session needs of its proxy: it starts empty, with a fresh limiter; it lets its tunnel tasks run
  when they like; and it keeps to its cap, its rate and its destination.
\<close>

locale proxy_service = rated_admission step cap dest
  for step :: "proxy \<Rightarrow> proxy_action \<Rightarrow> proxy \<Rightarrow> bool" and cap :: nat and dest :: endpoint +
  fixes start :: "instant \<Rightarrow> (proxy_error, proxy) result"
    and rate :: u32
  assumes start_Ok: "start t = Ok px \<Longrightarrow>
      px = \<lparr>px_pc = Accepting, px_rate = RateLimiter_new rate t, px_live = 0, px_tunnels = []\<rparr>"
    and tunnel_runs: "tunnel_step s a s' \<Longrightarrow> step s a s'"
begin

lemma history_step:
  assumes "session_step E start step task s a s'"
    and "\<And>px. se_proxy s = Some px \<Longrightarrow> proxy_history E start step t0 acts (ne_mono E (se_env s)) px"
    and "se_proxy s = None \<Longrightarrow> acts = []" and "t0 \<le> ne_mono E (se_env s)"
    and "se_proxy s' = Some px'"
  shows "proxy_history E start step t0 (acts @ proxy_actions [a]) (ne_mono E (se_env s')) px'"
  using assms(1)
proof cases
  case (session_elapse e)
  then show ?thesis using assms(2) [of px'] assms(5) by (auto intro: proxy_history_later)
next
  case (session_polled px)
  then show ?thesis using assms(3-5) by (auto simp: proxy_history_def)
next
  case (session_proxy px a' px'')
  then show ?thesis using proxy_history_step [OF assms(2)] assms(5) by auto
next
  case (session_tunnel px a' px'')
  then have "\<forall>u. a' = Arrival u \<longrightarrow> u = ne_mono E (se_env s)" using tunnel_step_frame by blast
  with session_tunnel show ?thesis
    using proxy_history_step [OF assms(2) tunnel_runs] assms(5) by auto
qed (use assms(2,5) in auto)

lemma session_history:
  assumes "trace (session_step E start step task) s0 as s" and "se_proxy s0 = None"
  shows "(se_proxy s = None \<longrightarrow> proxy_actions as = []) \<and>
    (\<forall>px. se_proxy s = Some px \<longrightarrow>
       proxy_history E start step (ne_mono E (se_env s0)) (proxy_actions as) (ne_mono E (se_env s)) px)"
  using assms(1)
proof (induction rule: trace_rev_induct)
  case (step as s a s')
  have "se_proxy s' = None \<Longrightarrow> se_proxy s = None \<and> proxy_actions [a] = []"
    using step.hyps(2) by (auto elim!: session_stepE)
  with step.IH history_step [OF step.hyps(2)] trace_session_clock [OF step.hyps(1)] show ?case by auto
qed (use assms(2) in simp)

text \<open>So the limits of the proxy hold throughout the session, also behind the end of the command, and
  the rate holds over the time of the session.\<close>

lemma session_limits:
  assumes "trace (session_step E start step task) s0 as s" and "se_proxy s0 = None" and "se_proxy s = Some px"
  shows "live_exact cap px" and "leads_to dest px"
    and "of_nat (length (px_tunnels px)) \<le>
      rate_bound (unat (max rate 1)) (ne_mono E (se_env s) - ne_mono E (se_env s0))
        (length (arrival_times (proxy_actions as)))"
proof -
  obtain t0 px0 where h: "ne_mono E (se_env s0) \<le> t0" "start t0 = Ok px0" "trace step px0 (proxy_actions as) px"
    "sorted (t0 # arrival_times (proxy_actions as) @ [ne_mono E (se_env s)])"
    using session_history [OF assms(1,2)] assms(3) by (auto simp: proxy_history_def)
  note px0 = start_Ok [OF h(2)]
  show "live_exact cap px" using trace_live_exact [OF _ h(3)] live_exact_initial by (simp add: px0)
  show "leads_to dest px" using trace_leads_to [OF _ h(3)] by (simp add: px0 leads_to_def)
  let ?ts = "arrival_times (proxy_actions as)"
  have "of_nat (length (px_tunnels px)) \<le> rate_bound (unat (max rate 1)) (last (t0 # ?ts) - t0) (length ?ts)"
    using trace_rate [OF h(3)] h(4) by (simp add: px0 sorted_append)
  also have "last (t0 # ?ts) - t0 \<le> ne_mono E (se_env s) - ne_mono E (se_env s0)"
  proof -
    have "\<forall>t \<in> set (t0 # ?ts). t \<le> ne_mono E (se_env s)" using h(4) by (auto simp: sorted_append)
    then have "last (t0 # ?ts) \<le> ne_mono E (se_env s)" by (rule bspec) (rule last_in_set, simp)
    with h(1) show ?thesis by linarith
  qed
  then have "rate_bound (unat (max rate 1)) (last (t0 # ?ts) - t0) (length ?ts) \<le>
      rate_bound (unat (max rate 1)) (ne_mono E (se_env s) - ne_mono E (se_env s0)) (length ?ts)"
    by (rule rate_bound_mono)
  finally show "of_nat (length (px_tunnels px)) \<le>
      rate_bound (unat (max rate 1)) (ne_mono E (se_env s) - ne_mono E (se_env s0)) (length ?ts)" .
qed

end

text \<open>Both commands meet the contract.\<close>

interpretation publishing: proxy_service "run_publish target m" "unat m" "LocalServer target"
  "run_publish_start proto registered rate" rate for target m proto registered rate
  by unfold_locales (auto dest: run_publish_start_Ok intro: publish_tunnel)

interpretation connecting: proxy_service "run_connect peer" "unat CONNECT_MAX_CONNS" "RemotePeer peer"
  "run_connect_start proto" CONNECT_MAX_CONN_RATE for peer proto
  by unfold_locales (auto dest: run_connect_start_Ok intro: connect_tunnel)

section \<open>What a session puts\<close>

text \<open>The puts of a session and their ends.\<close>

fun logged :: "session_action \<Rightarrow> (instant \<times> task_action) list" where
  "logged (Task t (PutSent k v)) = [(t, PutSent k v)]"
| "logged (Task t (PutDone r)) = [(t, PutDone r)]"
| "logged _ = []"

definition put_log :: "session_action list \<Rightarrow> (instant \<times> task_action) list" where
  "put_log as = concat (map logged as)"

lemma put_log_simps [simp]:
  "put_log [] = []" "put_log (a # as) = logged a @ put_log as" "put_log (as @ bs) = put_log as @ put_log bs"
  by (simp_all add: put_log_def)












section \<open>The end of a session\<close>

lemma session_over_step:
  assumes "session_step E start run_proxy task_step s a s'" and "se_pc s \<noteq> Selecting"
  shows "se_pc s' \<noteq> Selecting" and "se_pc s = CmdReturned r \<Longrightarrow> se_pc s' = CmdReturned r"
    and "length (tunnels_of s') = length (tunnels_of s)"
    and "unfinished (tunnels_of s') \<le> unfinished (tunnels_of s)"
proof -
  have "length (px_tunnels px') = length (px_tunnels px) \<and> unfinished (px_tunnels px') \<le> unfinished (px_tunnels px)"
    if "tunnel_step px b px'" for px b px'
    using that
  proof cases
    case (fetch_sub i)
    then show ?thesis using unfinished_update [of i "px_tunnels px" Finished] by simp
  qed auto
  with assms show "se_pc s' \<noteq> Selecting" and "se_pc s = CmdReturned r \<Longrightarrow> se_pc s' = CmdReturned r"
    and "length (tunnels_of s') = length (tunnels_of s)"
    and "unfinished (tunnels_of s') \<le> unfinished (tunnels_of s)"
    by (auto elim!: session_stepE simp: tunnels_of_def)
qed

text \<open>Once the \<^verbatim>\<open>select!\<close> is over no tunnel is added; those there are can only end.\<close>

lemma session_over:
  assumes "trace (session_step E start run_proxy task_step) s as s'" and "se_pc s \<noteq> Selecting"
  shows "length (tunnels_of s') = length (tunnels_of s) \<and> unfinished (tunnels_of s') \<le> unfinished (tunnels_of s) \<and>
    (\<forall>r. se_pc s = CmdReturned r \<longrightarrow> se_pc s' = CmdReturned r)"
  using assms
proof (induction rule: trace.induct)
  case (trace_Cons s a s' as s'')
  note over = session_over_step [OF trace_Cons(1,4)]
  from over trace_Cons.IH show ?case by force
qed simp

text \<open>A command that returned without an error has aborted its task, and the task stays so.\<close>

lemma session_aborted:
  assumes "trace (session_step E start run_proxy task_step) s as s'" and "se_pc s = Selecting"
    and "se_pc s' = CmdReturned (Ok ())"
  shows "se_task s' = None"
proof -
  have "se_pc s' = CmdReturned (Ok ()) \<longrightarrow> se_task s' = None"
    using assms(1)
    by (rule trace_invariant [where I = "\<lambda>s. se_pc s = CmdReturned (Ok ()) \<longrightarrow> se_task s = None"])
      (use assms(2) in \<open>auto elim!: session_stepE\<close>)
  with assms(3) show ?thesis by simp
qed

lemma session_no_task:
  assumes "trace (session_step E start run_proxy task_step) s as s'" and "se_task s = None"
  shows "put_log as = []"
  using assms
proof (induction rule: trace.induct)
  case (trace_Cons s a s' as s'')
  have "logged a = [] \<and> se_task s' = None" using trace_Cons(1,4) by (auto elim!: session_stepE)
  with trace_Cons.IH show ?case by simp
qed simp

section \<open>A round of the republishing task\<close>

text \<open>\<open>republish_round\<close> is the task run without interruption, in a world whose calls take time.\<close>

lemma republish_round_runs:
  assumes doctor: "\<And>e. ne_mono E e \<le> ne_mono E (snd (ne_doctor E e))"
    and put: "\<And>e k val. ne_mono E e \<le> ne_mono E (snd (ne_put_record E e k val))"
    and sleep: "\<And>d e. ne_mono E e + d \<le> ne_mono E (ne_sleep E d e)"
    and "se_task s = Some AwaitDoctor" and "republish_round X E i v p dk (se_env s) = (d, e')"
  shows "\<exists>as. trace (session_step E start run_proxy (republish_step X E i v p dk)) s as
    (s\<lparr>se_env := e', se_task := Some AwaitDoctor\<rparr>)"
proof -
  let ?step = "session_step E start run_proxy (republish_step X E i v p dk)"
  let ?at = "\<lambda>e pc. s\<lparr>se_env := e, se_task := Some pc\<rparr>"
  have move: "trace ?step (?at e pc) [Elapse] (?at e1 pc)" if "ne_mono E e \<le> ne_mono E e1" for e e1 pc
    using that session_elapse [of E "?at e pc" e1] by (cases s) auto
  have act: "trace ?step (?at e pc) [Task (ne_mono E e) a] (?at e pc')"
    if "republish_step X E i v p dk e pc a pc'" for e pc a pc'
    using that session_task [of "?at e pc" pc "republish_step X E i v p dk" a pc'] by auto
  have nap: "trace ?step (?at e (Sleeping (ne_mono E e + w))) ([Elapse] @ [Task (ne_mono E (ne_sleep E w e)) Woken])
      (?at (ne_sleep E w e) AwaitDoctor)" for e w
    using move [of e "ne_sleep E w e"] act [OF republish_wake] sleep [of e w]
    unfolding trace_append by (meson add_leD1)
  have s: "s = ?at (se_env s) AwaitDoctor" using assms(4) by simp
  obtain r e1 where ask: "ne_doctor E (se_env s) = (r, e1)" by fastforce
  then have "ne_mono E (se_env s) \<le> ne_mono E e1" using doctor [of "se_env s"] by simp
  then have asked: "trace ?step (?at (se_env s) AwaitDoctor) [Elapse] (?at e1 AwaitDoctor)" by (rule move)
  consider (none) "e' = ne_sleep E RETRY e1" "republish_step X E i v p dk e1 AwaitDoctor NothingToPut (Sleeping (ne_mono E e1 + RETRY))"
    | (put) info r2 e2 where "advertised info \<noteq> []" "r = Ok info"
      "ne_put_record E e1 dk (Record_to_bytes X (build_record X (now_secs E e1) i v p (advertised info))) = (r2, e2)"
      "e' = ne_sleep E (if is_ok r2 then REFRESH else RETRY) e2"
    using assms(5) ask republish_no_answer [of X E i v p dk e1]
    by (fastforce simp: republish_round_def advertised_addrs_def Let_def is_ok_def
        split: sum.splits prod.splits if_splits)
  then show ?thesis
  proof cases
    case none
    from trace_trans [OF trace_trans [OF asked act [OF none(2)]] nap] show ?thesis
      unfolding none(1) s [symmetric] by (rule exI)
  next
    case put
    let ?w = "if is_ok r2 then REFRESH else RETRY"
    have ended: "republish_step X E i v p dk e2 AwaitPut (PutDone r2) (Sleeping (ne_mono E e2 + ?w))"
      using republish_ok republish_failed by (cases r2) (simp_all add: is_ok_def)
    have "ne_mono E e1 \<le> ne_mono E e2"
      using assms(2) [of e1 dk "Record_to_bytes X (build_record X (now_secs E e1) i v p (advertised info))"] put(3) by simp
    note sent = trace_trans [OF trace_trans [OF asked act [OF republish_put [OF refl put(1) refl]]] move [OF this]]
    from trace_trans [OF trace_trans [OF sent act [OF ended]] nap] show ?thesis
      unfolding put(4) s [symmetric] by (rule exI)
  qed
qed

section \<open>Properties\<close>

lemma publish_open_Ok:
  assumes "publish_open X E spawned i n target v e = Ok (name, dk, peer, d)"
  shows "publish_start X spawned i n v = Ok (name, dk, peer)"
    and "d = \<lparr>se_env = ne_sleep E (from_secs 2) e, se_pc = Selecting, se_proxy = None, se_task = Some NotPolled,
      se_out = publish_lines name peer target\<rparr>"
  using assms by (auto simp: publish_open_def tryq_eq_Ok_iff Let_def)

text \<open>C14. A whole \<^verbatim>\<open>publish\<close> session under every interleaving of the republishing task, the accept loop, the tunnel
  tasks and Ctrl-C. Throughout, also while tunnels outlive the command: the counter is exact, at most \<^verbatim>\<open>max_conns\<close>
  tunnels exist, all to the configured server, and no more were opened than a burst and the rate times the time
  of the session (up to the rounding of the limiter). Once the \<^verbatim>\<open>select!\<close> is over no tunnel is added and those there are only end; and when
  the command has returned without an error, the republishing task puts nothing any more. (If the proxy fails to start,
  \<^verbatim>\<open>r?\<close> returns before \<^verbatim>\<open>republish.abort()\<close>, and the task goes on until the process ends.)\<close>

theorem publish_session_safe:
  assumes "publish_open X E spawned i n target v e = Ok (name, dk, peer, d0)"
    and "trace (publish_session X E proto registered i target v dk peer max_conns rate) d0 as d"
  shows "(\<forall>px. se_proxy d = Some px \<longrightarrow>
       unat (px_live px) = unfinished (px_tunnels px) + counted (px_pc px) \<and> slots px \<le> unat max_conns \<and>
       leads_to (LocalServer target) px \<and>
       of_nat (length (px_tunnels px)) \<le> rate_bound (unat (max rate 1))
         (ne_mono E (se_env d) - ne_mono E (se_env d0)) (length (arrival_times (proxy_actions as)))) \<and>
    (se_pc d \<noteq> Selecting \<and>
     trace (publish_session X E proto registered i target v dk peer max_conns rate) d as' d' \<longrightarrow>
       length (tunnels_of d') = length (tunnels_of d) \<and> unfinished (tunnels_of d') \<le> unfinished (tunnels_of d) \<and>
       (se_pc d = CmdReturned (Ok ()) \<longrightarrow> se_pc d' = CmdReturned (Ok ()) \<and> put_log as' = []))"
proof (intro conjI allI impI)
  have new: "se_proxy d0 = None" "se_pc d0 = Selecting"
    by (simp_all add: publish_open_Ok(2) [OF assms(1)])
  note run = assms(2) [unfolded publish_session_def]
  fix px
  assume px: "se_proxy d = Some px"
  note limits = publishing.session_limits [OF run new(1) px]
  from limits(1) show "unat (px_live px) = unfinished (px_tunnels px) + counted (px_pc px)" and "slots px \<le> unat max_conns"
    by (simp_all add: live_exact_def)
  show "leads_to (LocalServer target) px" by (rule limits(2))
  show "of_nat (length (px_tunnels px)) \<le> rate_bound (unat (max rate 1))
      (ne_mono E (se_env d) - ne_mono E (se_env d0)) (length (arrival_times (proxy_actions as)))"
    by (rule limits(3))
next
  assume over: "se_pc d \<noteq> Selecting \<and>
    trace (publish_session X E proto registered i target v dk peer max_conns rate) d as' d'"
  note run = assms(2) [unfolded publish_session_def]
  note rest = conjunct2 [OF over, unfolded publish_session_def]
  from session_over [OF rest conjunct1 [OF over]]
  show "length (tunnels_of d') = length (tunnels_of d)" and "unfinished (tunnels_of d') \<le> unfinished (tunnels_of d)"
    and "se_pc d = CmdReturned (Ok ()) \<Longrightarrow> se_pc d' = CmdReturned (Ok ())" by blast+
  show "put_log as' = []" if "se_pc d = CmdReturned (Ok ())"
    using session_no_task [OF rest session_aborted [OF run _ that]] by (simp add: publish_open_Ok(2) [OF assms(1)])
qed


lemma connect_open_Ok:
  assumes "connect_open X E spawned bind name_str listen e = Some (Ok (peer, d))"
  obtains name e' where "Name_parse name_str = Ok name" "establish X E name e = Some (Ok peer, e')"
    "se_pc d = Selecting" "se_proxy d = None"
  using assms
  by (auto simp: connect_open_def connect_start_def tryq_eq_Ok_iff map_err_def
      split: sum.splits option.splits)

text \<open>C16. A whole \<^verbatim>\<open>connect\<close> session: if the name typed belongs to \<open>pk\<close>, then no matter what the DHT returned every
  tunnel of the session leads to the peer derived from \<open>pk\<close>; at most 128 tunnels exist at any time, counted
  exactly, under every interleaving and also while they outlive the command; no more are opened than a burst of 64 and
  64 per second of the session (up to the rounding of the limiter); and once Ctrl-C or an error of the
  listener has ended the \<^verbatim>\<open>select!\<close> no tunnel is added and those there are only end.\<close>

theorem connect_session_safe:
  assumes "connect_open X E spawned bind name_str listen e = Some (Ok (peer, d0))"
    and "Name_parse name_str = Ok name" and "keyid_binds X (name_keyid name) pk"
    and "trace (connect_session E proto peer) d0 as d"
  shows "(\<forall>px. se_proxy d = Some px \<longrightarrow>
       (\<exists>owner. ne_ed25519_peer E pk = Ok owner \<and> leads_to (RemotePeer owner) px) \<and>
       unat (px_live px) = unfinished (px_tunnels px) + counted (px_pc px) \<and> slots px \<le> 128 \<and>
       of_nat (length (px_tunnels px)) \<le> rate_bound 64
         (ne_mono E (se_env d) - ne_mono E (se_env d0)) (length (arrival_times (proxy_actions as)))) \<and>
    (se_pc d \<noteq> Selecting \<and> trace (connect_session E proto peer) d as' d' \<longrightarrow>
       length (tunnels_of d') = length (tunnels_of d) \<and> unfinished (tunnels_of d') \<le> unfinished (tunnels_of d))"
proof (intro conjI allI impI)
  obtain e' where est: "establish X E name e = Some (Ok peer, e')" and new: "se_proxy d0 = None"
    using connect_open_Ok [OF assms(1)] assms(2) by (metis sum.inject(2))
  fix px
  assume px: "se_proxy d = Some px"
  note limits = connecting.session_limits [OF assms(4) [unfolded connect_session_def] new px]
  show "\<exists>owner. ne_ed25519_peer E pk = Ok owner \<and> leads_to (RemotePeer owner) px"
    using establish_owner [OF assms(3) est] limits(2) by blast
  from limits(1) show "unat (px_live px) = unfinished (px_tunnels px) + counted (px_pc px)" and "slots px \<le> 128"
    by (simp_all add: live_exact_def CONNECT_MAX_CONNS_def)
  have "unat (max CONNECT_MAX_CONN_RATE 1) = 64"
    by (simp add: CONNECT_MAX_CONN_RATE_def max_def word_le_nat_alt)
  with limits(3) show "of_nat (length (px_tunnels px)) \<le> rate_bound 64
      (ne_mono E (se_env d) - ne_mono E (se_env d0)) (length (arrival_times (proxy_actions as)))"
    by simp
next
  assume "se_pc d \<noteq> Selecting \<and> trace (connect_session E proto peer) d as' d'"
  then show "length (tunnels_of d') = length (tunnels_of d)" and "unfinished (tunnels_of d') \<le> unfinished (tunnels_of d)"
    using session_over unfolding connect_session_def by blast+
qed

section \<open>Sessions on the concrete world\<close>

lemma session_proxy_run:
  assumes "trace run_proxy px acts px'" and "se_pc s = Selecting" and "se_proxy s = Some px"
    and "\<forall>u. Arrival u \<in> set acts \<longrightarrow> u = ne_mono E (se_env s)"
  shows "trace (session_step E start run_proxy task_step) s (map ProxyAction acts) (s\<lparr>se_proxy := Some px'\<rparr>)"
  using assms
proof (induction arbitrary: s rule: trace.induct)
  case (trace_Nil px)
  then show ?case by (cases s) simp
next
  case (trace_Cons px a px1 as px2)
  have "session_step E start run_proxy task_step s (ProxyAction a) (s\<lparr>se_proxy := Some px1\<rparr>)"
    using trace_Cons by (intro session_proxy) auto
  moreover have "trace (session_step E start run_proxy task_step) (s\<lparr>se_proxy := Some px1\<rparr>) (map ProxyAction as)
      (s\<lparr>se_proxy := Some px2\<rparr>)"
    using trace_Cons.IH [of "s\<lparr>se_proxy := Some px1\<rparr>"] trace_Cons.prems by simp
  ultimately show ?case by auto
qed

text \<open>The proxy starts, does something, and Ctrl-C ends the command.\<close>

lemma session_visit:
  assumes "se_pc s = Selecting" and "se_proxy s = None" and "start (ne_mono E (se_env s)) = Ok px"
    and "trace run_proxy px acts px'" and "\<forall>u. Arrival u \<in> set acts \<longrightarrow> u = ne_mono E (se_env s)"
  shows "\<exists>s'. trace (session_step E start run_proxy task_step) s
      ([ProxyPolled] @ map ProxyAction acts @ [Interrupt, TornDown]) s' \<and>
    se_pc s' = CmdReturned (Ok ()) \<and> se_proxy s' = Some px'"
proof -
  let ?step = "session_step E start run_proxy task_step"
  let ?p = "s\<lparr>se_proxy := Some px\<rparr>" and ?q = "s\<lparr>se_proxy := Some px'\<rparr>"
  have "trace ?step s [ProxyPolled] ?p" using assms(1-3) by (auto intro: session_polled)
  moreover have "trace ?step ?p (map ProxyAction acts) ?q"
    using session_proxy_run [OF assms(4), of ?p] assms(1,5) by simp
  moreover have "trace ?step ?q [Interrupt, TornDown] (?q\<lparr>se_pc := TearDown, se_out := se_out ?q @ [shutting_down],
      se_task := None, se_pc := CmdReturned (Ok ())\<rparr>)"
    using assms(1) session_ctrl_c [of ?q] session_torn_down by fastforce
  ultimately show ?thesis using trace_trans by fastforce
qed

lemma demo_publish_open:
  "\<exists>name dk d. publish_open demo_externs demo_env (Ok ''12D3'') (from_secret_bytes (replicate 32 7))
     26 ''127.0.0.1:25565'' ''survival'' 0 = Ok (name, dk, ''12D3'', d)"
  using demo_publish_start by (auto simp: publish_open_def Let_def)

text \<open>A stream arrives and is admitted, Ctrl-C ends the command, and then its tunnel finds no server.\<close>

theorem publish_session_safe_witness:
  "\<exists>name dk d0 d d'. publish_open demo_externs demo_env (Ok ''12D3'') (from_secret_bytes (replicate 32 7))
       26 ''127.0.0.1:25565'' ''survival'' 0 = Ok (name, dk, ''12D3'', d0) \<and>
     trace (publish_session demo_externs demo_env (Ok ()) (Ok ()) (from_secret_bytes (replicate 32 7)) ''127.0.0.1:25565''
       ''survival'' dk ''12D3'' 1 16) d0
       ([ProxyPolled] @ map ProxyAction [Arrival 2000000000, FetchAdd, Spawn] @ [Interrupt, TornDown]) d \<and>
     se_pc d = CmdReturned (Ok ()) \<and> tunnels_of d = [Opening (LocalServer ''127.0.0.1:25565'')] \<and>
     trace (publish_session demo_externs demo_env (Ok ()) (Ok ()) (from_secret_bytes (replicate 32 7)) ''127.0.0.1:25565''
       ''survival'' dk ''12D3'' 1 16) d [ProxyAction (OpenFailed 0)] d' \<and>
     length (tunnels_of d') = 1 \<and> slots (the (se_proxy d)) \<le> 1"
proof -
  let ?T = "''127.0.0.1:25565''" and ?I = "from_secret_bytes (replicate 32 7)"
  obtain name dk d0 where o: "publish_open demo_externs demo_env (Ok ''12D3'') ?I 26 ?T ''survival'' 0 =
      Ok (name, dk, ''12D3'', d0)"
    using demo_publish_open by blast
  note d0 = publish_open_Ok(2) [OF o]
  have now: "ne_mono demo_env (se_env d0) = 2000000000" by (simp add: d0 demo_env_def from_secs_def)
  let ?px = "\<lparr>px_pc = Accepting, px_rate = RateLimiter_new 16 2000000000, px_live = 0, px_tunnels = []\<rparr>"
  let ?px1 = "\<lparr>px_pc = Accepting, px_rate = snd (allow 2000000000 (RateLimiter_new 16 2000000000)), px_live = 1,
      px_tunnels = [Opening (LocalServer ?T)]\<rparr>"
  let ?run = "publish_session demo_externs demo_env (Ok ()) (Ok ()) ?I ?T ''survival'' dk ''12D3'' 1 16"
  have start: "run_publish_start (Ok ()) (Ok ()) 16 (ne_mono demo_env (se_env d0)) = Ok ?px"
    by (simp add: run_publish_start_def now)
  have admit: "trace (run_publish ?T 1) ?px [Arrival 2000000000, FetchAdd, Spawn] ?px1"
    using publish_admit_trace [of ?px 2000000000 1 ?T] demo_allow [of 2000000000 16] by simp
  obtain d where d: "trace ?run d0 ([ProxyPolled] @ map ProxyAction [Arrival 2000000000, FetchAdd, Spawn] @
      [Interrupt, TornDown]) d" "se_pc d = CmdReturned (Ok ())" "se_proxy d = Some ?px1"
    unfolding publish_session_def
    by (rule exE [OF session_visit [where start = "run_publish_start (Ok ()) (Ok ()) 16" and s = d0 and E = demo_env,
        OF _ _ start admit]]) (use now in \<open>auto simp: d0 simp del: trace_simps list.map append.simps\<close>)
  have "tunnel_step ?px1 (OpenFailed 0) (?px1\<lparr>px_tunnels := [Closing]\<rparr>)"
    using open_failed [of 0 ?px1] by simp
  then have d': "trace ?run d [ProxyAction (OpenFailed 0)] (d\<lparr>se_proxy := Some (?px1\<lparr>px_tunnels := [Closing]\<rparr>)\<rparr>)"
    unfolding publish_session_def using session_tunnel [OF d(3)] by blast
  note safe = publish_session_safe [OF o d(1)]
  have "se_pc d \<noteq> Selecting" using d(2) by simp
  with conjunct2 [OF safe] d' have
    "length (tunnels_of (d\<lparr>se_proxy := Some (?px1\<lparr>px_tunnels := [Closing]\<rparr>)\<rparr>)) = length (tunnels_of d)" by blast
  moreover from conjunct1 [OF safe] d(3) have "slots ?px1 \<le> unat (1 :: usize)" by blast
  ultimately show ?thesis using o d d' by (intro exI conjI) (auto simp: tunnels_of_def)
qed


text \<open>A connection is tunnelled; Ctrl-C ends the command, and the tunnel goes on.\<close>

theorem connect_session_safe_witness:
  "\<exists>d0 d d'. connect_open owner_externs demo_env (Ok ()) (\<lambda>a. Ok ()) (Name_to_string owner_name) ''127.0.0.1:25566'' 0 =
       Some (Ok (''12D3'', d0)) \<and>
     trace (connect_session demo_env (Ok ()) ''12D3'') d0
       ([ProxyPolled] @ map ProxyAction [Arrival 0, FetchAdd, Spawn] @ [Interrupt, TornDown]) d \<and>
     leads_to (RemotePeer ''12D3'') (the (se_proxy d)) \<and> slots (the (se_proxy d)) \<le> 128 \<and>
     trace (connect_session demo_env (Ok ()) ''12D3'') d [ProxyAction (Opened 0)] d' \<and>
     tunnels_of d = [Opening (RemotePeer ''12D3'')] \<and> length (tunnels_of d') = 1"
proof -
  obtain d0 where o: "connect_open owner_externs demo_env (Ok ()) (\<lambda>a. Ok ()) (Name_to_string owner_name)
      ''127.0.0.1:25566'' 0 = Some (Ok (''12D3'', d0))" and d0: "se_pc d0 = Selecting" "se_proxy d0 = None" "se_env d0 = 0"
    using demo_establish owner_name_parse by (simp add: connect_open_def connect_start_def)
  let ?run = "connect_session demo_env (Ok ()) ''12D3''" and ?P = "RemotePeer ''12D3''"
  let ?px1 = "demo_proxy_after ?P CONNECT_MAX_CONN_RATE"
  have now: "ne_mono demo_env (se_env d0) = 0" by (simp add: d0 demo_env_def)
  obtain d where d: "trace ?run d0 ([ProxyPolled] @ map ProxyAction [Arrival 0, FetchAdd, Spawn] @ [Interrupt, TornDown]) d"
    "se_pc d = CmdReturned (Ok ())" "se_proxy d = Some ?px1"
    unfolding connect_session_def
    by (rule exE [OF session_visit [where start = "run_connect_start (Ok ())" and E = demo_env,
        OF d0(1,2) _ demo_connect_admit]])
      (use demo_proxy_start(2) now in \<open>auto simp del: trace_simps list.map append.simps\<close>)
  have "tunnel_step ?px1 (Opened 0) (?px1\<lparr>px_tunnels := [Splicing ?P]\<rparr>)"
    using opened [of 0 ?px1] by (simp add: demo_proxy_after_def)
  then have d': "trace ?run d [ProxyAction (Opened 0)] (d\<lparr>se_proxy := Some (?px1\<lparr>px_tunnels := [Splicing ?P]\<rparr>)\<rparr>)"
    unfolding connect_session_def using session_tunnel [OF d(3)] by blast
  have "keyid_binds owner_externs (name_keyid owner_name) (replicate 32 7)"
    using owner_assumptions(1) by (simp add: owner_name_def)
  note safe = connect_session_safe [OF o owner_name_parse this d(1)]
  from safe d(3) have "leads_to ?P ?px1" and "slots ?px1 \<le> 128" by auto
  moreover have "se_pc d \<noteq> Selecting" using d(2) by simp
  with conjunct2 [OF safe] d' have
    "length (tunnels_of (d\<lparr>se_proxy := Some (?px1\<lparr>px_tunnels := [Splicing ?P]\<rparr>)\<rparr>)) = length (tunnels_of d)" by blast
  moreover have "tunnels_of d = [Opening ?P]" by (simp add: tunnels_of_def d(3) demo_proxy_after_def)
  ultimately show ?thesis using o d d' by (intro exI conjI) auto
qed

end
