(* ===== verification/Cli_Agent_Run.thy ===== *)
theory Cli_Agent_Run
  imports Cli_Agent Cli_Session
begin

text \<open>
  \<^verbatim>\<open>run\<close> of \<^verbatim>\<open>crates/cli/src/agent.rs\<close> from start to end: the control file is written, control
  connections are served concurrently (the steps of \<open>agent_step\<close>), Ctrl-C or an error of the listener
  ends the loop, and the control file is removed. The tasks that serve connections are not waited for, so they may
  go on behind the end of the loop.
\<close>

record 'w agent_life =
  al_agent :: agent
  al_os :: "'w os_scheme"
  al_result :: "(anyhow, unit) result option"
  al_out :: "string list"

datatype life_action = Serve agent_action | AcceptError string | AgentCtrlC

definition agent_lines :: "u16 \<Rightarrow> path \<Rightarrow> string list" where
  "agent_lines port control_path =
     [''mc-tunnel agent ready. Control: 127.0.0.1:'' @ dec_string (unat port) @ '' (token in '' @
        control_path @ '')'',
      ''Press Ctrl-C to stop.'']"

text \<open>The state at the start of the loop.\<close>

definition agent_open ::
  "(anyhow, unit) result \<Rightarrow> (string, (string, u16) result) result \<Rightarrow> (string, bytes) result
     \<Rightarrow> u16 \<Rightarrow> 'w os_scheme \<Rightarrow> (anyhow, u16 \<times> string \<times> path \<times> 'w agent_life) result \<times> 'w os_scheme" where
  "agent_open spawned bound os_random control_port w =
     (case agent_start spawned bound os_random control_port w of
        (Err m, w) \<Rightarrow> (Err m, w)
      | (Ok (port, token, control_path), w) \<Rightarrow>
          (Ok (port, token, control_path, \<lparr>al_agent = agent_initial, al_os = w, al_result = None,
             al_out = agent_lines port control_path\<rparr>), w))"

inductive agent_run ::
  "'a externs_scheme \<Rightarrow> 'e net_env \<Rightarrow> path \<Rightarrow> 'w agent_life \<Rightarrow> life_action \<Rightarrow> 'w agent_life \<Rightarrow> bool"
  for X E control_path where
  run_serve: "agent_step X E (al_agent s) a ag \<Longrightarrow>
     agent_run X E control_path s (Serve a) (s\<lparr>al_agent := ag\<rparr>)"
| run_accept_error: "al_result s = None \<Longrightarrow> agent_stop (Err m) control_path (al_os s) = (r, w) \<Longrightarrow>
     agent_run X E control_path s (AcceptError m) (s\<lparr>al_os := w, al_result := Some r\<rparr>)"
| run_ctrl_c: "al_result s = None \<Longrightarrow> agent_stop (Ok ()) control_path (al_os s) = (r, w) \<Longrightarrow>
     agent_run X E control_path s AgentCtrlC
       (s\<lparr>al_os := w, al_result := Some r, al_out := al_out s @ [shutting_down]\<rparr>)"

inductive_cases agent_runE: "agent_run X E p s a s'"

fun served :: "life_action list \<Rightarrow> agent_action list" where
  "served [] = []"
| "served (Serve a # as) = a # served as"
| "served (_ # as) = served as"

lemma agent_run_projects:
  assumes "trace (agent_run X E p) s as s'"
  shows "trace (agent_step X E) (al_agent s) (served as) (al_agent s')"
    and "al_result s = None \<Longrightarrow> al_os s' = (if al_result s' = None then al_os s else snd (fs_remove_file (al_os s) p))"
    and "al_result s \<noteq> None \<Longrightarrow> al_os s' = al_os s \<and> al_result s' = al_result s"
  using assms
proof (induction rule: trace.induct)
  case (trace_Cons s a s' as s'')
  {
    case 1
    from trace_Cons(1,3) show ?case by (auto elim!: agent_runE)
  next
    case 2
    from trace_Cons(1,4,5) 2 show ?case by (auto elim!: agent_runE simp: agent_stop_def)
  next
    case 3
    from trace_Cons(1,5) 3 show ?case by (auto elim!: agent_runE)
  }
qed simp_all

lemma agent_open_Ok:
  assumes "agent_open spawned bound os_random cp w = (Ok (port, token, p, s), w1)"
  shows "al_result s = None" and "al_agent s = agent_initial" and "al_os s = w1"
    and "map_option f_data (os_files w1 p) = Some (as_bytes (control_json port token))"
    and "random_token os_random = Ok token" and "os_fault w1 = os_fault w"
proof -
  obtain w2 where start: "agent_start spawned bound os_random cp w = (Ok (port, token, p), w2)"
    and s: "al_result s = None" "al_agent s = agent_initial" "al_os s = w1" "w2 = w1"
    using assms by (auto simp: agent_open_def split: prod.splits sum.splits)
  show "al_result s = None" and "al_agent s = agent_initial" and "al_os s = w1" by (rule s)+
  from start s(4) show "map_option f_data (os_files w1 p) = Some (as_bytes (control_json port token))"
    and "random_token os_random = Ok token" and "os_fault w1 = os_fault w"
    by (auto simp: agent_start_def write_owner_only_def fs_open_truncate_def fs_write_all_def set_data_def
        tryq_eq_Ok_iff Let_def split: sum.splits prod.splits option.splits)
qed

text \<open>C33. The control file over the agent's life: while the agent runs the file has exactly the port and the token the
  agent checks requests against, whatever is asked of it meanwhile; after Ctrl-C or a failure of the listener the file is
  gone, unless it cannot be removed, and whatever the connections that are still being served do, neither the files
  nor the agent's result change any more.\<close>

theorem agent_control_file:
  assumes "agent_open spawned bound os_random cp w = (Ok (port, token, p, s0), w1)"
    and "trace (agent_run X E p) s0 as s"
  shows "(al_result s = None \<longrightarrow>
       map_option f_data (os_files (al_os s) p) = Some (as_bytes (control_json port token))) \<and>
    (al_result s \<noteq> None \<longrightarrow> (os_fault w (RemoveFile p) = None \<longrightarrow> os_files (al_os s) p = None) \<and>
       (trace (agent_run X E p) s as' s' \<longrightarrow> al_os s' = al_os s \<and> al_result s' = al_result s))"
proof -
  note opened = agent_open_Ok [OF assms(1)]
  note runs = agent_run_projects [OF assms(2)]
  have os: "al_os s = (if al_result s = None then w1 else snd (fs_remove_file w1 p))"
    using runs(2) opened(1,3) by simp
  have "os_files (snd (fs_remove_file w1 p)) p = None" if "os_fault w (RemoveFile p) = None"
    using that opened(6) by (simp add: fs_remove_file_def)
  then show ?thesis
    using os opened(4) agent_run_projects(3) [of X E p s as' s'] by auto
qed

text \<open>An agent that is started and stopped.\<close>

lemma demo_agent_open:
  "\<exists>s w. agent_open (Ok ()) (Ok (Ok 4000)) (Ok [0xA7]) 0 (demo_machine ring) =
     (Ok (4000, ''a7'', ''/home/a/control.json'', s), w)"
  by (simp add: agent_open_def agent_start_def random_token_def hex_byte_def hex_digit_def config_dir_def
      write_owner_only_def fs_defs demo_machine_def join_path_def Let_def)
    (simp add: char_of_def bit_0)

theorem agent_control_file_witness:
  "\<exists>s0 w1 s. agent_open (Ok ()) (Ok (Ok 4000)) (Ok [0xA7]) 0 (demo_machine Map.empty) =
       (Ok (4000, ''a7'', ''/home/a/control.json'', s0), w1) \<and>
     trace (agent_run owner_externs demo_env ''/home/a/control.json'') s0 [AgentCtrlC] s \<and>
     map_option f_data (os_files (al_os s0) ''/home/a/control.json'') = Some (as_bytes (control_json 4000 ''a7'')) \<and>
     os_files (al_os s) ''/home/a/control.json'' = None"
proof -
  let ?p = "''/home/a/control.json''"
  obtain s0 w1 where o: "agent_open (Ok ()) (Ok (Ok 4000)) (Ok [0xA7]) 0 (demo_machine Map.empty) =
      (Ok (4000, ''a7'', ?p, s0), w1)"
    using demo_agent_open by blast
  have run: "al_result s0 = None" by (rule agent_open_Ok(1) [OF o])
  obtain s where s: "agent_run owner_externs demo_env ?p s0 AgentCtrlC s" "al_result s \<noteq> None"
    using run_ctrl_c [OF run, of ?p] by (fastforce simp: agent_stop_def)
  then have t: "trace (agent_run owner_externs demo_env ?p) s0 [AgentCtrlC] s" by blast
  have "os_fault (demo_machine Map.empty) (RemoveFile ?p) = None" by (simp add: demo_machine_def)
  then have "os_files (al_os s) ?p = None" using agent_control_file [OF o t] s(2) by blast
  moreover have "map_option f_data (os_files (al_os s0) ?p) = Some (as_bytes (control_json 4000 ''a7''))"
    using agent_control_file [OF o, of owner_externs demo_env "[]" s0] run by blast
  ultimately show ?thesis using o t by blast
qed

end
