(* ===== verification/Cli_Grind.thy ===== *)
theory Cli_Grind
  imports Cli_Os
begin

text \<open>
  \<^verbatim>\<open>crates/cli/src/grind.rs\<close>: searching for a key whose identifier starts with a wanted prefix. The
  worker threads, the reporter and the Ctrl-C watcher share an abort flag, a counter and a
  channel; a step of the relation below is the code between two accesses of these, and the label
  of a step says who moves and, for a worker, which key it drew. Progress output is not modelled.
\<close>

section \<open>Validation of the prefix\<close>

type_synonym grind_error = string

definition validate_prefix :: "string \<Rightarrow> nat \<Rightarrow> (grind_error, unit) result" where
  "validate_prefix pre keyid_len =
     (if pre = [] then Err ''--vanity-prefix must not be empty''
      else if \<not> list_all is_base32_lower pre
        then Err ''--vanity-prefix must use only the base32 charset a-z2-7 (no 0 1 8 9 o l)''
      else if length pre > keyid_len then
        Err (''--vanity-prefix ('' @ dec_string (length pre) @ '' chars) is longer than keyid_len ('' @
          dec_string keyid_len @ '')'')
      else if length pre > MAX_KEYID_LEN then Err ''--vanity-prefix too long''
      else Ok ())"

section \<open>The threads\<close>

text \<open>Where a worker is: before its load of the abort flag; in its batch, after a number of draws; past a
  hit and before the store of the flag; before the send, with the secret; at its end.\<close>

datatype worker = Polling | Hashing nat | Hit bytes | Sending bytes | Exited

text \<open>Where the reporter is: in \<^verbatim>\<open>recv_timeout\<close>; after a time-out and before its load of the flag; out of
  its loop, with what it found.\<close>

datatype reporter = Receiving | TimedOut | Reported "bytes option"

record grinder =
  gr_abort :: bool
  gr_attempts :: u64
  gr_channel :: "bytes list"
  gr_workers :: "worker list"
  gr_reporter :: reporter

datatype grind_action =
    Worker nat
  | Draw nat bytes
  | Reporter
  | CtrlC

definition BATCH :: nat where
  "BATCH = 4096"

definition key_hits :: "'a crypto_scheme \<Rightarrow> string \<Rightarrow> bytes \<Rightarrow> bool" where
  "key_hits X pre secret \<longleftrightarrow>
     keyid_from_pubkey X (public_bytes X (Identity_generate secret)) (length pre) = pre"

abbreviation set_worker :: "grinder \<Rightarrow> nat \<Rightarrow> worker \<Rightarrow> grinder" where
  "set_worker g i w \<equiv> g\<lparr>gr_workers := (gr_workers g)[i := w]\<rparr>"

inductive worker_step ::
  "'a crypto_scheme \<Rightarrow> string \<Rightarrow> grinder \<Rightarrow> grind_action \<Rightarrow> grinder \<Rightarrow> bool"
  for X :: "'a crypto_scheme" and pre :: string where
  poll_stop: "i < length (gr_workers g) \<Longrightarrow> gr_workers g ! i = Polling \<Longrightarrow> gr_abort g \<Longrightarrow>
     worker_step X pre g (Worker i) (set_worker g i Exited)"
| poll_go: "i < length (gr_workers g) \<Longrightarrow> gr_workers g ! i = Polling \<Longrightarrow> \<not> gr_abort g \<Longrightarrow>
     worker_step X pre g (Worker i) (set_worker g i (Hashing 0))"
| draw_miss: "i < length (gr_workers g) \<Longrightarrow> gr_workers g ! i = Hashing n \<Longrightarrow> n < BATCH \<Longrightarrow>
     \<not> key_hits X pre secret \<Longrightarrow>
     worker_step X pre g (Draw i secret) (set_worker g i (Hashing (n + 1)))"
| draw_hit: "i < length (gr_workers g) \<Longrightarrow> gr_workers g ! i = Hashing n \<Longrightarrow> n < BATCH \<Longrightarrow>
     key_hits X pre secret \<Longrightarrow>
     worker_step X pre g (Draw i secret)
       ((set_worker g i (Hit secret))\<lparr>gr_attempts := gr_attempts g + word_of_nat (n + 1)\<rparr>)"
| batch_end: "i < length (gr_workers g) \<Longrightarrow> gr_workers g ! i = Hashing BATCH \<Longrightarrow>
     worker_step X pre g (Worker i)
       ((set_worker g i Polling)\<lparr>gr_attempts := gr_attempts g + word_of_nat BATCH\<rparr>)"
| store_abort: "i < length (gr_workers g) \<Longrightarrow> gr_workers g ! i = Hit secret \<Longrightarrow>
     worker_step X pre g (Worker i) ((set_worker g i (Sending secret))\<lparr>gr_abort := True\<rparr>)"
| send: "i < length (gr_workers g) \<Longrightarrow> gr_workers g ! i = Sending secret \<Longrightarrow>
     worker_step X pre g (Worker i)
       ((set_worker g i Exited)\<lparr>gr_channel := gr_channel g @ [secret]\<rparr>)"

inductive grind_step ::
  "'a crypto_scheme \<Rightarrow> string \<Rightarrow> grinder \<Rightarrow> grind_action \<Rightarrow> grinder \<Rightarrow> bool"
  for X :: "'a crypto_scheme" and pre :: string where
  worker_moves: "worker_step X pre g a g' \<Longrightarrow> grind_step X pre g a g'"
| ctrl_c: "grind_step X pre g CtrlC (g\<lparr>gr_abort := True\<rparr>)"
| received: "gr_reporter g = Receiving \<Longrightarrow> gr_channel g = secret # rest \<Longrightarrow>
     grind_step X pre g Reporter (g\<lparr>gr_channel := rest, gr_reporter := Reported (Some secret)\<rparr>)"
| timed_out: "gr_reporter g = Receiving \<Longrightarrow> gr_channel g = [] \<Longrightarrow> \<not> set (gr_workers g) \<subseteq> {Exited} \<Longrightarrow>
     grind_step X pre g Reporter (g\<lparr>gr_reporter := TimedOut\<rparr>)"
| disconnected: "gr_reporter g = Receiving \<Longrightarrow> gr_channel g = [] \<Longrightarrow> set (gr_workers g) \<subseteq> {Exited} \<Longrightarrow>
     grind_step X pre g Reporter (g\<lparr>gr_reporter := Reported None\<rparr>)"
| aborted: "gr_reporter g = TimedOut \<Longrightarrow> gr_abort g \<Longrightarrow>
     grind_step X pre g Reporter (g\<lparr>gr_reporter := Reported None\<rparr>)"
| progress: "gr_reporter g = TimedOut \<Longrightarrow> \<not> gr_abort g \<Longrightarrow>
     grind_step X pre g Reporter (g\<lparr>gr_reporter := Receiving\<rparr>)"

text \<open>\<^verbatim>\<open>grind\<close>: validation and the state its scope starts in; and what it returns once the reporter is out
  of its loop and the scope has joined the workers.\<close>

definition grind_start :: "string \<Rightarrow> nat \<Rightarrow> nat \<Rightarrow> (grind_error, grinder) result" where
  "grind_start pre keyid_len threads =
     tryq (validate_prefix pre keyid_len) (\<lambda>_.
     Ok \<lparr>gr_abort = False, gr_attempts = 0, gr_channel = [], gr_workers = replicate threads Polling,
          gr_reporter = Receiving\<rparr>)"

definition grind_result :: "grinder \<Rightarrow> identity option option" where
  "grind_result g =
     (case gr_reporter g of
        Reported found \<Rightarrow>
          if list_all (\<lambda>w. w = Exited) (gr_workers g) then Some (map_option from_secret_bytes found)
          else None
      | _ \<Rightarrow> None)"

inductive_cases worker_stepE: "worker_step X pre g a g'"
inductive_cases grind_stepE: "grind_step X pre g a g'"

section \<open>Soundness\<close>

fun worker_ok :: "'a crypto_scheme \<Rightarrow> string \<Rightarrow> worker \<Rightarrow> bool" where
  "worker_ok X pre (Hit s) = key_hits X pre s"
| "worker_ok X pre (Sending s) = key_hits X pre s"
| "worker_ok X pre _ = True"

text \<open>Every secret on its way is a hit.\<close>

definition grind_inv :: "'a crypto_scheme \<Rightarrow> string \<Rightarrow> grinder \<Rightarrow> bool" where
  "grind_inv X pre g \<longleftrightarrow>
     list_all (worker_ok X pre) (gr_workers g) \<and> list_all (key_hits X pre) (gr_channel g) \<and>
     (\<forall>s. gr_reporter g = Reported (Some s) \<longrightarrow> key_hits X pre s)"

lemma list_all_update: "list_all P xs \<Longrightarrow> P v \<Longrightarrow> list_all P (xs[i := v])"
  using set_update_subset_insert [of xs i v] by (auto simp: list_all_iff)

lemma grind_inv_worker:
  assumes "grind_inv X pre g" and "worker_step X pre g a g'"
  shows "grind_inv X pre g'"
proof -
  have nth: "worker_ok X pre (gr_workers g ! i)" if "i < length (gr_workers g)" for i
    using assms(1) that by (simp add: grind_inv_def list_all_length)
  from assms(2,1) nth show ?thesis
    by cases (fastforce simp: grind_inv_def intro: list_all_update)+
qed

lemma grind_inv_step: "grind_inv X pre g \<Longrightarrow> grind_step X pre g a g' \<Longrightarrow> grind_inv X pre g'"
  by (erule grind_stepE) (auto simp: grind_inv_worker, auto simp: grind_inv_def)

text \<open>Whatever the interleaving, an identity \<^verbatim>\<open>grind\<close> returns has the requested prefix.\<close>

lemma grind_sound:
  assumes "grind_start pre keyid_len threads = Ok g0" and "trace (grind_step X pre) g0 as g"
    and "grind_result g = Some (Some i)"
  shows "prefix pre (keyid_from_pubkey X (public_bytes X i) keyid_len)"
proof -
  have len: "length pre \<le> keyid_len" and g0: "grind_inv X pre g0"
    using assms(1)
    by (auto simp: grind_start_def validate_prefix_def tryq_eq_Ok_iff grind_inv_def list_all_iff
        split: if_splits)
  have "grind_inv X pre g"
    using trace_invariant [where I = "grind_inv X pre", OF assms(2) g0] grind_inv_step by blast
  then have "key_hits X pre (secret_bytes i)"
    using assms(3) by (auto simp: grind_result_def grind_inv_def split: reporter.splits if_splits)
  then have "take (length pre) (keyid_full_from_pubkey X (public_bytes X i)) = pre"
    by (simp add: key_hits_def keyid_from_pubkey_def Let_def Identity_generate_def secret_bytes_def
        public_bytes_def)
  then have "take (length pre) (take keyid_len (keyid_full_from_pubkey X (public_bytes X i))) = pre"
    using len by (simp add: min_def)
  then show ?thesis
    unfolding keyid_from_pubkey_def Let_def by (metis take_is_prefix)
qed

section \<open>Stopping\<close>

text \<open>How many more steps a worker can take once the abort flag is set.\<close>

fun worker_rank :: "worker \<Rightarrow> nat" where
  "worker_rank Polling = 1"
| "worker_rank (Hashing n) = BATCH - n + 4"
| "worker_rank (Hit s) = 2"
| "worker_rank (Sending s) = 1"
| "worker_rank Exited = 0"

definition ranks :: "grinder \<Rightarrow> nat" where
  "ranks g = sum_list (map worker_rank (gr_workers g))"

lemma ranks_update:
  assumes "i < length ws" and "worker_rank v < worker_rank (ws ! i)"
  shows "sum_list (map worker_rank (ws[i := v])) < sum_list (map worker_rank ws)"
  using assms
proof (induction ws arbitrary: i)
  case (Cons w ws)
  then show ?case by (cases i) auto
qed simp

lemma worker_step_rank:
  assumes "worker_step X pre g a g'" and "gr_abort g"
  shows "ranks g' < ranks g \<and> gr_abort g'"
  using assms by cases (auto simp: ranks_def intro!: ranks_update)

fun worker_action :: "grind_action \<Rightarrow> bool" where
  "worker_action (Worker i) = True"
| "worker_action (Draw i s) = True"
| "worker_action _ = False"

lemma worker_step_action: "worker_step X pre g a g' \<Longrightarrow> worker_action a"
  by (erule worker_stepE) simp_all

lemma grind_step_rank:
  assumes "grind_step X pre g a g'" and "gr_abort g"
  shows "ranks g' + of_bool (worker_action a) \<le> ranks g \<and> gr_abort g'"
  using assms
proof cases
  case worker_moves
  then show ?thesis using worker_step_rank [OF _ assms(2)] worker_step_action by fastforce
qed (auto simp: ranks_def)

lemma trace_rank:
  assumes "trace (grind_step X pre) g as g'" and "gr_abort g"
  shows "ranks g' + length (filter worker_action as) \<le> ranks g"
  using assms
proof induction
  case (trace_Cons g a g1 as g2)
  with grind_step_rank [of X pre g a g1] show ?case by fastforce
qed simp

lemma gr_workers_length:
  "trace (grind_step X pre) g as g' \<Longrightarrow> length (gr_workers g') = length (gr_workers g)"
proof (induction rule: trace.induct)
  case (trace_Cons g a g1 as g2)
  then show ?case by (auto elim!: grind_stepE worker_stepE)
qed simp

lemma ranks_bound: "ranks g \<le> length (gr_workers g) * 4100"
proof -
  have "worker_rank w \<le> 4100" for w by (cases w) (auto simp: BATCH_def)
  then have "sum_list (map worker_rank ws) \<le> length ws * 4100" for ws
    by (induction ws) (auto simp: add_mono)
  then show ?thesis by (simp add: ranks_def)
qed

lemma worker_enabled:
  assumes "i < length (gr_workers g)" and "gr_workers g ! i \<noteq> Exited"
    and "\<forall>n. gr_workers g ! i = Hashing n \<longrightarrow> n \<le> BATCH"
  shows "\<exists>a g'. worker_step X pre g a g'"
proof (cases "gr_workers g ! i")
  case Polling
  then show ?thesis using assms(1) poll_stop poll_go by metis
next
  case (Hashing n)
  then show ?thesis
    using assms draw_miss [of i g n X pre "[]"] draw_hit [of i g n X pre "[]"] batch_end [of i g X pre]
    by (cases "n < BATCH"; cases "key_hits X pre []") (fastforce simp: le_eq_less_or_eq)+
next
  case (Hit s)
  then show ?thesis using assms(1) store_abort by metis
next
  case (Sending s)
  then show ?thesis using assms(1) send by metis
qed (use assms in simp)

definition batch_ok :: "grinder \<Rightarrow> bool" where
  "batch_ok g \<longleftrightarrow> list_all (\<lambda>w. case w of Hashing n \<Rightarrow> n \<le> BATCH | _ \<Rightarrow> True) (gr_workers g)"

lemma batch_ok_step: "batch_ok g \<Longrightarrow> grind_step X pre g a g' \<Longrightarrow> batch_ok g'"
  by (erule grind_stepE) (auto elim!: worker_stepE simp: batch_ok_def intro!: list_all_update)

text \<open>C35. Stopping is prompt: once the abort flag is set, by Ctrl-C or by a hit, the workers together take at
  most 4100 more steps each (the rest of a batch), whatever the schedule; and as long as
  one of them has not exited, some worker can move, so with fair threads the scope of \<^verbatim>\<open>grind\<close>
  joins them all.\<close>

theorem grind_stops:
  assumes "grind_start pre keyid_len threads = Ok g0" and "trace (grind_step X pre) g0 as g"
    and "gr_abort g" and "trace (grind_step X pre) g bs g'"
  shows "length (filter worker_action bs) \<le> threads * 4100 \<and>
    (\<not> set (gr_workers g') \<subseteq> {Exited} \<longrightarrow> (\<exists>a g''. worker_step X pre g' a g''))"
proof -
  have g0: "length (gr_workers g0) = threads" "batch_ok g0"
    using assms(1) by (auto simp: grind_start_def tryq_eq_Ok_iff batch_ok_def list_all_iff)
  have "length (filter worker_action bs) \<le> threads * 4100"
    using trace_rank [OF assms(4,3)] ranks_bound [of g] gr_workers_length [OF assms(2)] g0(1)
    by simp
  moreover have "batch_ok g'"
    using trace_invariant [where I = batch_ok, OF assms(4) trace_invariant [where I = batch_ok, OF assms(2) g0(2)]]
      batch_ok_step by blast
  then have "\<exists>a g''. worker_step X pre g' a g''" if "\<not> set (gr_workers g') \<subseteq> {Exited}"
    using that worker_enabled [of _ g' X pre]
    by (fastforce simp: batch_ok_def list_all_length in_set_conv_nth subset_iff)
  ultimately show ?thesis by blast
qed

section \<open>The race at a hit\<close>

text \<open>C36. A found key can be lost: a worker sets the abort flag before it sends its key, so the reporter, timing
  out in between, takes the flag for Ctrl-C and leaves its loop empty-handed. Whenever a prefix has a key at
  all, there is a schedule without any Ctrl-C in which a worker finds it and \<^verbatim>\<open>grind\<close> still returns
  \<^verbatim>\<open>None\<close>.\<close>

theorem grind_loses_hit:
  assumes "grind_start pre keyid_len 1 = Ok g0" and "key_hits X pre secret"
  shows "\<exists>as g. trace (grind_step X pre) g0 as g \<and> CtrlC \<notin> set as \<and> Draw 0 secret \<in> set as \<and>
    grind_result g = Some None"
proof -
  let ?g = "\<lambda>ab n ch w r. \<lparr>gr_abort = ab, gr_attempts = n, gr_channel = ch, gr_workers = [w],
    gr_reporter = r\<rparr>"
  let ?step = "grind_step X pre"
  have g0: "g0 = ?g False 0 [] Polling Receiving"
    using assms(1) by (auto simp: grind_start_def tryq_eq_Ok_iff)
  have "?step (?g False 0 [] Polling Receiving) (Worker 0) (?g False 0 [] (Hashing 0) Receiving)"
    using worker_moves [OF poll_go [of 0 "?g False 0 [] Polling Receiving"]] by simp
  moreover have "?step (?g False 0 [] (Hashing 0) Receiving) (Draw 0 secret)
      (?g False 1 [] (Hit secret) Receiving)"
    using worker_moves [OF draw_hit [of 0 "?g False 0 [] (Hashing 0) Receiving" 0 X pre secret]] assms(2)
    by (simp add: BATCH_def)
  moreover have "?step (?g False 1 [] (Hit secret) Receiving) Reporter
      (?g False 1 [] (Hit secret) TimedOut)"
    using timed_out [of "?g False 1 [] (Hit secret) Receiving"] by simp
  moreover have "?step (?g False 1 [] (Hit secret) TimedOut) (Worker 0)
      (?g True 1 [] (Sending secret) TimedOut)"
    using worker_moves [OF store_abort [of 0 "?g False 1 [] (Hit secret) TimedOut" secret]] by simp
  moreover have "?step (?g True 1 [] (Sending secret) TimedOut) Reporter
      (?g True 1 [] (Sending secret) (Reported None))"
    using aborted [of "?g True 1 [] (Sending secret) TimedOut"] by simp
  moreover have "?step (?g True 1 [] (Sending secret) (Reported None)) (Worker 0)
      (?g True 1 [secret] Exited (Reported None))"
    using worker_moves [OF send [of 0 "?g True 1 [] (Sending secret) (Reported None)" secret]] by simp
  ultimately have "trace ?step g0
      [Worker 0, Draw 0 secret, Reporter, Worker 0, Reporter, Worker 0]
      (?g True 1 [secret] Exited (Reported None))"
    unfolding g0 by (blast intro: trace_Cons trace_Nil)
  then show ?thesis
    by (intro exI conjI, assumption) (simp_all add: grind_result_def)
qed

section \<open>A concrete search\<close>

definition demo_grinder :: "bool \<Rightarrow> u64 \<Rightarrow> bytes list \<Rightarrow> worker \<Rightarrow> reporter \<Rightarrow> grinder" where
  "demo_grinder ab n ch w r =
     \<lparr>gr_abort = ab, gr_attempts = n, gr_channel = ch, gr_workers = [w], gr_reporter = r\<rparr>"

definition demo_secret :: bytes where
  "demo_secret = replicate 32 0"

lemma demo_key_hits: "key_hits demo_externs ''a'' demo_secret"
  by code_simp

lemma demo_grind_start: "grind_start ''a'' 26 1 = Ok (demo_grinder False 0 [] Polling Receiving)"
  by (simp add: grind_start_def validate_prefix_def is_base32_lower_def MAX_KEYID_LEN_def demo_grinder_def)

lemma demo_grind_steps:
  "grind_step demo_externs ''a'' (demo_grinder False 0 [] Polling Receiving) (Worker 0)
     (demo_grinder False 0 [] (Hashing 0) Receiving)"
  "grind_step demo_externs ''a'' (demo_grinder False 0 [] (Hashing 0) Receiving) (Draw 0 demo_secret)
     (demo_grinder False 1 [] (Hit demo_secret) Receiving)"
  "grind_step demo_externs ''a'' (demo_grinder False 1 [] (Hit demo_secret) Receiving) (Worker 0)
     (demo_grinder True 1 [] (Sending demo_secret) Receiving)"
  "grind_step demo_externs ''a'' (demo_grinder True 1 [] (Sending demo_secret) Receiving) (Worker 0)
     (demo_grinder True 1 [demo_secret] Exited Receiving)"
  "grind_step demo_externs ''a'' (demo_grinder True 1 [demo_secret] Exited Receiving) Reporter
     (demo_grinder True 1 [] Exited (Reported (Some demo_secret)))"
  using worker_moves [OF poll_go [of 0 "demo_grinder False 0 [] Polling Receiving" demo_externs "''a''"]]
    worker_moves [OF draw_hit [of 0 "demo_grinder False 0 [] (Hashing 0) Receiving" 0 demo_externs
        "''a''" demo_secret]]
    worker_moves [OF store_abort [of 0 "demo_grinder False 1 [] (Hit demo_secret) Receiving" demo_secret
        demo_externs "''a''"]]
    worker_moves [OF send [of 0 "demo_grinder True 1 [] (Sending demo_secret) Receiving" demo_secret
        demo_externs "''a''"]]
    received [of "demo_grinder True 1 [demo_secret] Exited Receiving" demo_secret "[]" demo_externs "''a''"]
    demo_key_hits
  by (simp_all add: demo_grinder_def BATCH_def)

lemma demo_grind_traces:
  "trace (grind_step demo_externs ''a'') (demo_grinder False 0 [] Polling Receiving)
     [Worker 0, Draw 0 demo_secret, Worker 0] (demo_grinder True 1 [] (Sending demo_secret) Receiving)"
  "trace (grind_step demo_externs ''a'') (demo_grinder True 1 [] (Sending demo_secret) Receiving)
     [Worker 0, Reporter] (demo_grinder True 1 [] Exited (Reported (Some demo_secret)))"
  "trace (grind_step demo_externs ''a'') (demo_grinder False 0 [] Polling Receiving)
     [Worker 0, Draw 0 demo_secret, Worker 0, Worker 0, Reporter]
     (demo_grinder True 1 [] Exited (Reported (Some demo_secret)))"
  using demo_grind_steps by (blast intro: trace_Cons trace_Nil)+

theorem grind_stops_witness:
  "gr_abort (demo_grinder True 1 [] (Sending demo_secret) Receiving) \<and>
   length (filter worker_action [Worker 0, Reporter]) \<le> 1 * 4100"
proof -
  have "gr_abort (demo_grinder True 1 [] (Sending demo_secret) Receiving)"
    by (simp add: demo_grinder_def)
  with grind_stops [OF demo_grind_start demo_grind_traces(1) this demo_grind_traces(2)]
  show ?thesis by blast
qed

theorem grind_loses_hit_witness:
  "\<exists>as g. trace (grind_step demo_externs ''a'') (demo_grinder False 0 [] Polling Receiving) as g \<and>
     CtrlC \<notin> set as \<and> Draw 0 demo_secret \<in> set as \<and> grind_result g = Some None"
  by (rule grind_loses_hit [OF demo_grind_start demo_key_hits])

end
