(* ===== verification/Cli_Main.thy ===== *)
theory Cli_Main
  imports Cli_Agent_Run Cli_Grind
begin

text \<open>
  \<^verbatim>\<open>crates/cli/src/main.rs\<close>: the subcommands. Argument parsing is clap's; a command is the datatype
  below. The local commands (\<^verbatim>\<open>init\<close>, \<^verbatim>\<open>name\<close>, \<^verbatim>\<open>forget\<close>) run on the machine of \<^verbatim>\<open>Cli_Keystore\<close> and
  yield what they print. A networked command first computes the arguments of the session it runs (\<open>launch\<close>); the
  sessions are those of \<open>Cli_Session\<close> and \<open>Cli_Agent_Run\<close>, on the same machine. \<open>main\<close> is the whole process: it says in which
  states of the machine, running or ended, the process can be seen.
\<close>

section \<open>Arguments\<close>

record init_args =
  ia_keyid_len :: nat
  ia_vanity_prefix :: "string option"
  ia_force :: bool

record name_args =
  na_vanity :: string
  na_keyid_len :: "nat option"

record publish_args =
  pa_target :: "string option"
  pa_vanity :: "string option"
  pa_max_conns :: "usize option"

record connect_args =
  ca_name :: string
  ca_listen :: "string option"

record relay_args =
  ra_port :: u16
  ra_mdns :: bool

record agent_args =
  aa_control_port :: u16

datatype cli_command =
    Init init_args
  | NameCmd name_args
  | Publish publish_args
  | Connect connect_args
  | DoctorCmd
  | Relay relay_args
  | Forget
  | Agent agent_args

record cli =
  cli_json :: bool
  cli_command :: cli_command

section \<open>Local commands\<close>

text \<open>The lines on stdout and those on stderr.\<close>

type_synonym printed = "string list \<times> string list"

definition cli_check_keyid_len :: "nat \<Rightarrow> (anyhow_error, unit) result" where
  "cli_check_keyid_len len =
     (if MIN_KEYID_LEN \<le> len \<and> len \<le> MAX_KEYID_LEN then Ok ()
      else Err (''keyid_len must be in '' @ dec_string MIN_KEYID_LEN @ ''..='' @
        dec_string MAX_KEYID_LEN @ '', got '' @ dec_string len))"

text \<open>\<^verbatim>\<open>location.replace('\', "\\")\<close>.\<close>

definition escape_backslash :: "string \<Rightarrow> string" where
  "escape_backslash s = concat (map (\<lambda>c. if c = CHR 0x5C then [CHR 0x5C, CHR 0x5C] else [c]) s)"

definition init_json :: "name \<Rightarrow> nat \<Rightarrow> string \<Rightarrow> string" where
  "init_json name keyid_len location =
     ''{'' @ quoted ''keyid'' @ '':'' @ quoted (name_keyid name) @
     '','' @ quoted ''keyid_len'' @ '':'' @ dec_string keyid_len @
     '','' @ quoted ''name'' @ '':'' @ quoted (Name_to_string name) @
     '','' @ quoted ''key_storage'' @ '':'' @ quoted (escape_backslash location) @ ''}''"

definition init_lines :: "name \<Rightarrow> string \<Rightarrow> string list" where
  "init_lines name location =
     [''Generated new identity.'',
      ''  key stored in : '' @ location,
      ''  keyid         : '' @ name_keyid name,
      ''  address       : '' @ Name_to_string name,
      CHR 0x0A # ''Keep the key file secret '' @ em_dash @ '' it *is* your identity.'']"

text \<open>\<open>ground\<close> is what \<^verbatim>\<open>grind::grind\<close> returns for a prefix and a length, \<open>fresh\<close> the bytes a plain
  \<^verbatim>\<open>Identity::generate\<close> draws.\<close>

definition init_identity ::
  "(string \<Rightarrow> nat \<Rightarrow> (anyhow_error, identity option) result) \<Rightarrow> bytes \<Rightarrow> init_args
     \<Rightarrow> (anyhow_error, identity) result" where
  "init_identity ground fresh args =
     (case ia_vanity_prefix args of
        Some pre \<Rightarrow>
          tryq (ground pre (ia_keyid_len args)) (\<lambda>found.
          case found of
            Some i \<Rightarrow> Ok i
          | None \<Rightarrow> Err ''vanity grinding aborted'')
      | None \<Rightarrow> Ok (Identity_generate fresh))"

definition cmd_init ::
  "'a crypto_scheme \<Rightarrow> 'k keyring_ops \<Rightarrow> (string \<Rightarrow> nat \<Rightarrow> (anyhow_error, identity option) result)
     \<Rightarrow> bytes \<Rightarrow> init_args \<Rightarrow> bool \<Rightarrow> 'k machine \<Rightarrow> (anyhow_error, printed) result \<times> 'k machine" where
  "cmd_init X K ground fresh args json w =
     (case tryq (cli_check_keyid_len (ia_keyid_len args)) (\<lambda>_.
           tryq (identity_exists K w) (\<lambda>ex.
           if ex \<and> \<not> ia_force args
           then Err ''an identity already exists for this profile (use --force to overwrite)''
           else init_identity ground fresh args)) of
        Err m \<Rightarrow> (Err m, w)
      | Ok i \<Rightarrow>
          (case save K w i (ia_keyid_len args) (ia_force args) of
             (Err m, w) \<Rightarrow> (Err m, w)
           | (Ok location, w) \<Rightarrow>
               (case Identity_name X i [] (ia_keyid_len args) of
                  Err _ \<Rightarrow> (Err ''deriving name'', w)
                | Ok name \<Rightarrow>
                    (Ok (if json then ([init_json name (ia_keyid_len args) location], [])
                         else ([], init_lines name location)), w))))"

definition name_json :: "name \<Rightarrow> nat \<Rightarrow> string" where
  "name_json name keyid_len =
     ''{'' @ quoted ''keyid'' @ '':'' @ quoted (name_keyid name) @
     '','' @ quoted ''keyid_len'' @ '':'' @ dec_string keyid_len @
     '','' @ quoted ''vanity'' @ '':'' @ quoted (name_vanity name) @
     '','' @ quoted ''name'' @ '':'' @ quoted (Name_to_string name) @ ''}''"

definition cmd_name ::
  "'a crypto_scheme \<Rightarrow> 'k keyring_ops \<Rightarrow> name_args \<Rightarrow> bool \<Rightarrow> 'k machine
     \<Rightarrow> (anyhow_error, printed) result" where
  "cmd_name X K args json w =
     tryq (load K w) (\<lambda>i.
     tryq (case na_keyid_len args of
             Some n \<Rightarrow> tryq (cli_check_keyid_len n) (\<lambda>_. Ok n)
           | None \<Rightarrow> load_keyid_len w) (\<lambda>keyid_len.
     tryq (map_err (\<lambda>_. ''deriving name (check --vanity charset and --keyid-len)'')
       (Identity_name X i (na_vanity args) keyid_len)) (\<lambda>name.
     Ok ([if json then name_json name keyid_len else Name_to_string name], []))))"

section \<open>Networked commands\<close>

definition net_opts_of :: "config \<Rightarrow> bool \<Rightarrow> bool \<Rightarrow> net_opts" where
  "net_opts_of cfg reserve relay_server =
     \<lparr>no_bootstrap = nw_bootstrap (cfg_network cfg), no_relays = nw_relays (cfg_network cfg),
      no_use_ipfs_dht = nw_use_ipfs_dht (cfg_network cfg), no_enable_mdns = nw_mdns (cfg_network cfg),
      no_reserve = reserve, no_relay_server = relay_server\<rparr>"

text \<open>What a networked command calls.\<close>

datatype launch =
    RunPublish identity net_config nat string string usize u32
      \<comment> \<open>\<^verbatim>\<open>keyid_len\<close>, \<^verbatim>\<open>target\<close>, \<^verbatim>\<open>vanity\<close>, \<^verbatim>\<open>max_conns\<close>, \<^verbatim>\<open>max_conn_rate\<close>\<close>
  | RunConnect bytes net_config string string
  | RunDoctor bytes net_config bool
  | RunRelay identity u16 bool
  | RunAgent bytes net_config u16

definition unwrap_or :: "'b option \<Rightarrow> 'b \<Rightarrow> 'b" where
  "unwrap_or x d = (case x of Some y \<Rightarrow> y | None \<Rightarrow> d)"

definition cmd_publish ::
  "(string \<Rightarrow> (string, config) result) \<Rightarrow> (string \<Rightarrow> (string, multiaddr) result) \<Rightarrow> 'k keyring_ops
     \<Rightarrow> publish_args \<Rightarrow> 'k machine \<Rightarrow> (anyhow_error, launch) result" where
  "cmd_publish from_toml from_str K args w =
     tryq (Config_load from_toml w) (\<lambda>cfg.
     tryq (load K w) (\<lambda>i.
     tryq (load_keyid_len w) (\<lambda>keyid_len.
     let target = unwrap_or (pa_target args) (pb_target (cfg_publish cfg));
         vanity = unwrap_or (pa_vanity args) (pb_vanity (cfg_publish cfg));
         max_conns = unwrap_or (pa_max_conns args) (pb_max_conns (cfg_publish cfg));
         max_conn_rate = pb_max_conn_rate (cfg_publish cfg)
     in tryq (net_config_of from_str (net_opts_of cfg True False)) (\<lambda>net_cfg.
        Ok (RunPublish i net_cfg keyid_len target vanity max_conns max_conn_rate)))))"

definition cmd_connect ::
  "(string \<Rightarrow> (string, config) result) \<Rightarrow> (string \<Rightarrow> (string, multiaddr) result) \<Rightarrow> 'k keyring_ops
     \<Rightarrow> connect_args \<Rightarrow> 'k machine \<Rightarrow> (anyhow_error, launch) result" where
  "cmd_connect from_toml from_str K args w =
     tryq (Config_load from_toml w) (\<lambda>cfg.
     tryq (load K w) (\<lambda>i.
     let listen = unwrap_or (ca_listen args) (cn_listen (cfg_connect cfg))
     in tryq (net_config_of from_str (net_opts_of cfg False False)) (\<lambda>net_cfg.
        Ok (RunConnect (secret_bytes i) net_cfg (ca_name args) listen))))"

definition cmd_doctor ::
  "(string \<Rightarrow> (string, config) result) \<Rightarrow> (string \<Rightarrow> (string, multiaddr) result) \<Rightarrow> 'k keyring_ops
     \<Rightarrow> bool \<Rightarrow> 'k machine \<Rightarrow> (anyhow_error, launch) result" where
  "cmd_doctor from_toml from_str K json w =
     tryq (Config_load from_toml w) (\<lambda>cfg.
     tryq (load K w) (\<lambda>i.
     tryq (net_config_of from_str (net_opts_of cfg False False)) (\<lambda>net_cfg.
     Ok (RunDoctor (secret_bytes i) net_cfg json))))"

definition cmd_relay :: "'k keyring_ops \<Rightarrow> relay_args \<Rightarrow> 'k machine \<Rightarrow> (anyhow_error, launch) result" where
  "cmd_relay K args w = tryq (load K w) (\<lambda>i. Ok (RunRelay i (ra_port args) (ra_mdns args)))"

definition cmd_agent ::
  "(string \<Rightarrow> (string, config) result) \<Rightarrow> (string \<Rightarrow> (string, multiaddr) result) \<Rightarrow> 'k keyring_ops
     \<Rightarrow> agent_args \<Rightarrow> 'k machine \<Rightarrow> (anyhow_error, launch) result" where
  "cmd_agent from_toml from_str K args w =
     tryq (Config_load from_toml w) (\<lambda>cfg.
     tryq (load K w) (\<lambda>i.
     tryq (net_config_of from_str (net_opts_of cfg False False)) (\<lambda>net_cfg.
     Ok (RunAgent (secret_bytes i) net_cfg (aa_control_port args)))))"

section \<open>Dispatch\<close>

text \<open>The \<^verbatim>\<open>match\<close> of \<^verbatim>\<open>main\<close>, up to the \<^verbatim>\<open>await\<close> of a session.\<close>

datatype outcome = Printed printed | Launch launch

definition dispatch ::
  "'a crypto_scheme \<Rightarrow> (string \<Rightarrow> (string, config) result) \<Rightarrow> (string \<Rightarrow> (string, multiaddr) result)
     \<Rightarrow> 'k keyring_ops \<Rightarrow> (string \<Rightarrow> nat \<Rightarrow> (anyhow_error, identity option) result) \<Rightarrow> bytes
     \<Rightarrow> cli \<Rightarrow> 'k machine \<Rightarrow> (anyhow_error, outcome) result \<times> 'k machine" where
  "dispatch X from_toml from_str K ground fresh c w =
     (let json = cli_json c in
      case cli_command c of
        Init args \<Rightarrow>
          (case cmd_init X K ground fresh args json w of (r, w) \<Rightarrow> (tryq r (\<lambda>s. Ok (Printed s)), w))
      | NameCmd args \<Rightarrow> (tryq (cmd_name X K args json w) (\<lambda>s. Ok (Printed s)), w)
      | Publish args \<Rightarrow> (tryq (cmd_publish from_toml from_str K args w) (\<lambda>d. Ok (Launch d)), w)
      | Connect args \<Rightarrow> (tryq (cmd_connect from_toml from_str K args w) (\<lambda>d. Ok (Launch d)), w)
      | DoctorCmd \<Rightarrow> (tryq (cmd_doctor from_toml from_str K json w) (\<lambda>d. Ok (Launch d)), w)
      | Relay args \<Rightarrow> (tryq (cmd_relay K args w) (\<lambda>d. Ok (Launch d)), w)
      | Forget \<Rightarrow> (case wipe K w of (r, w) \<Rightarrow> (tryq r (\<lambda>what. Ok (Printed ([], [''Removed identity ('' @ what @ '').'']))), w))
      | Agent args \<Rightarrow> (tryq (cmd_agent from_toml from_str K args w) (\<lambda>d. Ok (Launch d)), w))"

text \<open>A session on the machine: its result, if it has ended, and the machine. What the network, the sockets and
  the random generator return is open.\<close>

definition session_result :: "'e session \<Rightarrow> (anyhow_error, unit) result option" where
  "session_result d = (case se_pc d of CmdReturned r \<Rightarrow> Some r | _ \<Rightarrow> None)"

inductive session_run ::
  "'a externs_scheme \<Rightarrow> 'e net_env \<Rightarrow> launch \<Rightarrow> 'k machine \<Rightarrow> (anyhow_error, unit) result option \<Rightarrow> 'k machine \<Rightarrow> bool"
  for X E where
  session_called: "session_run X E l w None w"
| publish_refused: "publish_open X E spawned i n target v e = Err m \<Longrightarrow>
     session_run X E (RunPublish i cfg n target v max_conns rate) w (Some (Err m)) w"
| publish_runs: "publish_open X E spawned i n target v e = Ok (name, dk, peer, d0) \<Longrightarrow>
     trace (publish_session X E proto registered i target v dk peer max_conns rate) d0 as d \<Longrightarrow>
     session_run X E (RunPublish i cfg n target v max_conns rate) w (session_result d) w"
| connect_refused: "connect_open X E spawned (bind :: string \<Rightarrow> (string, unit) result) name_str listen e = Some (Err m) \<Longrightarrow>
     session_run X E (RunConnect secret cfg name_str listen) w (Some (Err m)) w"
| connect_runs: "connect_open X E spawned (bind :: string \<Rightarrow> (string, unit) result) name_str listen e = Some (Ok (peer, d0)) \<Longrightarrow>
     trace (connect_session E proto peer) d0 as d \<Longrightarrow>
     session_run X E (RunConnect secret cfg name_str listen) w (session_result d) w"
| doctor_runs: "doctor E spawned json e = (r, e') \<Longrightarrow>
     session_run X E (RunDoctor secret cfg json) w (Some (tryq r (\<lambda>_. Ok ()))) w"
| relay_runs: "relay E spawn_node port mdns e = (r, e') \<Longrightarrow>
     session_run X E (RunRelay i port mdns) w (Some (tryq r (\<lambda>_. Ok ()))) w"
| agent_refused: "agent_open spawned bound os_random cp w = (Err m, w') \<Longrightarrow>
     session_run X E (RunAgent secret cfg cp) w (Some (Err m)) w'"
| agent_runs: "agent_open spawned bound os_random cp w = (Ok (port, token, p, s0), w1) \<Longrightarrow>
     trace (agent_run X E p) s0 as s \<Longrightarrow>
     session_run X E (RunAgent secret cfg cp) w (al_result s) (al_os s)"

inductive_cases session_runE: "session_run X E l w r w'"

text \<open>The process: its exit, if it has ended, and the machine.\<close>

inductive main ::
  "'a externs_scheme \<Rightarrow> 'e net_env \<Rightarrow> (string \<Rightarrow> (string, config) result) \<Rightarrow> (string \<Rightarrow> (string, multiaddr) result)
     \<Rightarrow> 'k keyring_ops \<Rightarrow> (string \<Rightarrow> nat \<Rightarrow> (anyhow_error, identity option) result) \<Rightarrow> bytes
     \<Rightarrow> cli \<Rightarrow> 'k machine \<Rightarrow> (anyhow_error, unit) result option \<Rightarrow> 'k machine \<Rightarrow> bool"
  for X E from_toml from_str K ground fresh c w where
  main_failed: "dispatch X from_toml from_str K ground fresh c w = (Err m, w') \<Longrightarrow>
     main X E from_toml from_str K ground fresh c w (Some (Err m)) w'"
| main_printed: "dispatch X from_toml from_str K ground fresh c w = (Ok (Printed out), w') \<Longrightarrow>
     main X E from_toml from_str K ground fresh c w (Some (Ok ())) w'"
| main_session: "dispatch X from_toml from_str K ground fresh c w = (Ok (Launch l), w1) \<Longrightarrow>
     session_run X E l w1 r w' \<Longrightarrow>
     main X E from_toml from_str K ground fresh c w r w'"

section \<open>Properties\<close>

lemma cli_check_keyid_len_Ok: "cli_check_keyid_len n = Ok u \<longleftrightarrow> 16 \<le> n \<and> n \<le> 52"
  by (auto simp: cli_check_keyid_len_def keyid_consts)

text \<open>What a successful \<^verbatim>\<open>init\<close> did.\<close>

lemma cmd_init_OkE:
  assumes "cmd_init X K ground fresh args json w = (Ok out, w')"
  obtains i loc name where "16 \<le> ia_keyid_len args" "ia_keyid_len args \<le> 52"
    "init_identity ground fresh args = Ok i"
    "save K w i (ia_keyid_len args) (ia_force args) = (Ok loc, w')"
    "Identity_name X i [] (ia_keyid_len args) = Ok name"
    "out = (if json then ([init_json name (ia_keyid_len args) loc], []) else ([], init_lines name loc))"
  using assms that
  by (auto simp: cmd_init_def tryq_eq_Ok_iff cli_check_keyid_len_Ok split: sum.splits prod.splits if_splits)

text \<open>Changes of one file.\<close>

definition touches :: "path \<Rightarrow> 'b os_scheme \<Rightarrow> 'b os_scheme \<Rightarrow> bool" where
  "touches p w w' \<longleftrightarrow> (\<exists>f. w' = w\<lparr>os_files := (os_files w)(p := f)\<rparr>)"

lemma touches_refl [simp]: "touches p w w"
  by (auto simp: touches_def intro: exI [of _ "os_files w p"])

lemma touches_trans: "touches p w w' \<Longrightarrow> touches p w' w'' \<Longrightarrow> touches p w w''"
  by (auto simp: touches_def)

lemma touches_update [simp]: "touches p w (w\<lparr>os_files := (os_files w)(p := f)\<rparr>)"
  by (auto simp: touches_def)

lemma touches_ops:
  "touches p w (snd (fs_open_truncate m w p))" "touches p w (snd (fs_write_all w p bs))"
  "touches p w (snd (fs_remove_file w p))"
  by (simp_all add: fs_open_truncate_def fs_write_all_def set_data_def fs_remove_file_def Let_def split: option.split)

lemma touches_write: "touches p w (snd (write_owner_only w p bs))"
proof -
  obtain r1 w1 where open1: "fs_open_truncate 0x180 w p = (r1, w1)" by fastforce
  obtain r2 w2 where wrote: "fs_write_all w1 p bs = (r2, w2)" by fastforce
  have "touches p w w1" and "touches p w1 w2"
    using touches_ops(1) [of p w "0x180"] touches_ops(2) [of p w1 bs] open1 wrote by simp_all
  then show ?thesis
    using touches_trans by (auto simp: write_owner_only_def open1 wrote split: sum.split)
qed

text \<open>The agent touches its control file and nothing else.\<close>

lemma agent_open_touches:
  assumes "agent_open spawned bound os_random cp w = (r, w')" and "config_dir w = Ok d"
  shows "touches (join_path d ''control.json'') w w'"
    and "r = Ok (port, token, p, s) \<Longrightarrow> p = join_path d ''control.json''"
  using assms touches_write [of "join_path d ''control.json''" w]
  by (auto simp: agent_open_def agent_start_def tryq_eq_Ok_iff tryq_eq_Err_iff split: sum.splits prod.splits)
    (metis snd_conv)+

lemma session_touches:
  assumes "session_run X E l w r w'" and "config_dir w = Ok d"
  shows "w' = w \<or> (\<exists>secret cfg cp. l = RunAgent secret cfg cp) \<and> touches (join_path d ''control.json'') w w'"
  using assms(1)
proof cases
  case (agent_refused spawned bound os_random cp m secret cfg)
  then show ?thesis using agent_open_touches(1) [OF _ assms(2)] by blast
next
  case (agent_runs spawned bound os_random cp port token p s0 w1 as s secret cfg)
  note opened = agent_open_Ok [OF agent_runs(4)] agent_open_touches [OF agent_runs(4) assms(2)]
  have "touches (join_path d ''control.json'') w1 (al_os s)"
    using agent_run_projects(2) [OF agent_runs(5)] opened touches_ops(3) by auto
  then show ?thesis using agent_runs touches_trans [OF opened(7)] by blast
qed auto

lemma touches_control:
  assumes "touches (join_path d ''control.json'') w w'" and "config_dir w = Ok d"
  shows "ms_keyring w' = ms_keyring w" and "load K w' = load K w" and "load_keyid_len w' = load_keyid_len w"
    and "identity_exists K w' = identity_exists K w"
    and "q \<noteq> join_path d ''control.json'' \<Longrightarrow> os_files w' q = os_files w q"
proof -
  obtain f where w': "w' = w\<lparr>os_files := (os_files w)(join_path d ''control.json'' := f)\<rparr>"
    using assms(1) by (auto simp: touches_def)
  note same = paths_eq [of w' w]
  have "ms_keyring w' = ms_keyring w" by (simp add: w')
  moreover have "keyring_entry K w' = keyring_entry K w" by (rule same(4)) (simp_all add: w')
  ultimately have kr: "keyring_load K w' = keyring_load K w" by (simp only: keyring_load_def)
  have paths: "key_path w' = Ok (join_path d KEY_FILE)" "key_path w = Ok (join_path d KEY_FILE)"
    "meta_path w' = Ok (join_path d META_FILE)" "meta_path w = Ok (join_path d META_FILE)"
    using assms(2) same(1) by (simp_all add: w' key_path_def meta_path_def)
  have other: "KEY_FILE \<noteq> ''control.json''" "META_FILE \<noteq> ''control.json''" by (simp_all add: KEY_FILE_def META_FILE_def)
  show "ms_keyring w' = ms_keyring w" by (simp add: w')
  have files: "path_exists w' (join_path d KEY_FILE) = path_exists w (join_path d KEY_FILE)"
    "fs_read w' (join_path d KEY_FILE) = fs_read w (join_path d KEY_FILE)"
    "fs_read_to_string w' (join_path d META_FILE) = fs_read_to_string w (join_path d META_FILE)"
  proof -
    have "fs_read w' q = fs_read w q \<and> path_exists w' q = path_exists w q" if "q \<noteq> join_path d ''control.json''" for q
    proof -
      have "os_files w' q = os_files w q" "os_fault w' = os_fault w" using that by (simp_all add: w')
      then show ?thesis by (simp only: fs_read_def path_exists_def)
    qed
    with other show "path_exists w' (join_path d KEY_FILE) = path_exists w (join_path d KEY_FILE)"
      "fs_read w' (join_path d KEY_FILE) = fs_read w (join_path d KEY_FILE)"
      "fs_read_to_string w' (join_path d META_FILE) = fs_read_to_string w (join_path d META_FILE)"
      by (simp_all add: fs_read_to_string_def)
  qed
  show "load K w' = load K w" and "identity_exists K w' = identity_exists K w"
    by (simp_all add: load_def identity_exists_def kr paths files split: option.split)
  show "load_keyid_len w' = load_keyid_len w" by (simp add: load_keyid_len_def paths files)
  show "q \<noteq> join_path d ''control.json'' \<Longrightarrow> os_files w' q = os_files w q" by (simp add: w')
qed

lemma dispatch_keeps:
  assumes "identity_exists K w = Ok True" and "dispatch X from_toml from_str K ground fresh c w = (r, w')"
    and "cli_command c = cmd" and "cmd \<noteq> Forget" and "\<forall>args. cmd = Init args \<longrightarrow> \<not> ia_force args"
  shows "w' = w" and "cmd = Init args \<Longrightarrow> \<exists>m. r = Err m"
    and "r = Ok (Launch (RunAgent secret cfg cp)) \<Longrightarrow> \<exists>args. cmd = Agent args"
proof -
  have init: "\<exists>m. cmd_init X K ground fresh args (cli_json c) w = (Err m, w)" if "cmd = Init args" for args
    using assms(1,5) that
    by (cases "cli_check_keyid_len (ia_keyid_len args)") (auto simp: cmd_init_def)
  show "w' = w" and "cmd = Init args \<Longrightarrow> \<exists>m. r = Err m"
    using assms(2-4) init by (cases cmd; fastforce simp: dispatch_def Let_def)+
  show "r = Ok (Launch (RunAgent secret cfg cp)) \<Longrightarrow> \<exists>args. cmd = Agent args"
    using assms(2-4) init
    by (cases cmd) (auto simp: dispatch_def Let_def tryq_eq_Ok_iff cmd_publish_def cmd_connect_def cmd_doctor_def
        cmd_relay_def split: prod.splits)
qed

text \<open>C19. The stored identity is safe from everything but \<^verbatim>\<open>init --force\<close> and \<^verbatim>\<open>forget\<close>: while an identity
  exists, a process that runs any other command, be it still running or ended, leaves the keyring as it is and
  all files but one; the one is the agent's \<^verbatim>\<open>control.json\<close>. So the same identity is loaded afterwards, with the same
  length. \<^verbatim>\<open>init\<close> without \<^verbatim>\<open>--force\<close> fails.\<close>

theorem identity_kept:
  assumes "identity_exists K w = Ok True" and "config_dir w = Ok d"
    and "main X E from_toml from_str K ground fresh c w r w'"
    and "cli_command c = cmd" and "cmd \<noteq> Forget" and "\<forall>args. cmd = Init args \<longrightarrow> \<not> ia_force args"
  shows "ms_keyring w' = ms_keyring w \<and>
    (\<forall>q. os_files w' q = os_files w q \<or> (\<exists>args. cmd = Agent args) \<and> q = join_path d ''control.json'') \<and>
    load K w' = load K w \<and> load_keyid_len w' = load_keyid_len w \<and> identity_exists K w' = Ok True \<and>
    (\<forall>args. cmd = Init args \<longrightarrow> (\<exists>m. r = Some (Err m)))"
  using assms(3)
proof cases
  case (main_failed m)
  then have "w' = w" using dispatch_keeps(1) [OF assms(1) _ assms(4-6)] by blast
  with assms(1) main_failed show ?thesis by simp
next
  case (main_printed out)
  note kept = dispatch_keeps [OF assms(1) main_printed(2) assms(4-6)]
  from kept(2) have "\<not> (\<exists>args. cmd = Init args)" by auto
  with assms(1) kept(1) show ?thesis by simp
next
  case (main_session l w1)
  note kept = dispatch_keeps [OF assms(1) main_session(1) assms(4-6)]
  from kept(2) have init: "\<not> (\<exists>args. cmd = Init args)" by auto
  have "session_run X E l w r w'" using main_session(2) kept(1) by simp
  from session_touches [OF this assms(2)] show ?thesis
  proof (elim disjE conjE exE)
    assume "w' = w"
    with init assms(1) show ?thesis by simp
  next
    fix secret cfg cp
    assume "l = RunAgent secret cfg cp" and t: "touches (join_path d ''control.json'') w w'"
    then have agent: "\<exists>args. cmd = Agent args" using kept(3) by simp
    have "\<forall>q. os_files w' q = os_files w q \<or> q = join_path d ''control.json''"
      using touches_control(5) [OF t assms(2)] by blast
    with agent init assms(1) touches_control(1-4) [OF t assms(2)] show ?thesis by simp
  qed
qed

text \<open>C20. From \<^verbatim>\<open>init\<close> to \<^verbatim>\<open>name\<close>: after a successful \<^verbatim>\<open>init\<close>, the command \<^verbatim>\<open>name\<close> prints an address of the requested
  length that every client can parse. It is the address of exactly the identity that was generated, with one
  exception: \<^verbatim>\<open>init --force\<close> over an older identity in a keyring that cannot be written leaves that
  one in place, and it is the older identity's address that is printed.\<close>

theorem init_then_name:
  assumes "sha256_law X" and "base32_law X" and "keyring_laws K" and "readable w"
    and "cmd_init X K ground fresh args json w = (Ok out, w')"
    and "\<And>i. init_identity ground fresh args = Ok i \<Longrightarrow> length (secret_bytes i) = 32"
  shows "\<exists>i j name. init_identity ground fresh args = Ok i \<and> load K w' = Ok j \<and>
    cmd_name X K \<lparr>na_vanity = [], na_keyid_len = None\<rparr> False w' = Ok ([Name_to_string name], []) \<and>
    Name_parse (Name_to_string name) = Ok name \<and> Name_keyid_len name = ia_keyid_len args \<and>
    keyid_matches_pubkey X (name_keyid name) (public_bytes X j) \<and>
    (j = i \<or> ia_force args \<and> keyring_load K w = Some (secret_bytes j) \<and> keyring_load K w' = keyring_load K w)"
proof -
  from assms(5) obtain i loc where len: "16 \<le> ia_keyid_len args" "ia_keyid_len args \<le> 52"
    and i: "init_identity ground fresh args = Ok i"
      "save K w i (ia_keyid_len args) (ia_force args) = (Ok loc, w')"
    by (rule cmd_init_OkE)
  have meta: "load_keyid_len w' = Ok (ia_keyid_len args)"
    using save_meta [OF i(2) _ assms(4)] len by simp
  obtain j where j: "load K w' = Ok j"
    "j = i \<or> ia_force args \<and> keyring_load K w = Some (secret_bytes j) \<and> keyring_load K w' = keyring_load K w"
    using save_loads [OF assms(3) assms(6) [OF i(1)] assms(4) i(2)] by blast
  let ?name = "\<lparr>name_vanity = [], name_keyid = keyid_from_pubkey X (public_bytes X j) (ia_keyid_len args)\<rparr>"
  note wf = keyid_from_pubkey_wf [OF assms(1,2) len, of "public_bytes X j"]
  have "name_wf ?name" using wf by (simp add: name_wf_def vanity_wf_def)
  then have "Name_parse (Name_to_string ?name) = Ok ?name" by (rule name_text.parse_print)
  moreover have "Identity_name X j [] (ia_keyid_len args) = Ok ?name"
  proof -
    have "check_keyid_len (ia_keyid_len args) = Ok ()" using len by (simp add: check_keyid_len_Ok_iff)
    then show ?thesis by (simp add: Identity_name_def Name_from_pubkey_def validate_vanity_def)
  qed
  moreover have "Name_keyid_len ?name = ia_keyid_len args"
    and "keyid_matches_pubkey X (name_keyid ?name) (public_bytes X j)"
    using wf by (simp_all add: Name_keyid_len_def keyid_matches_pubkey_def)
  ultimately show ?thesis
    using i(1) j meta by (intro exI [of _ i] exI [of _ j] exI [of _ ?name]) (simp add: cmd_name_def)
qed

section \<open>A concrete profile\<close>

definition demo_init_args :: init_args where
  "demo_init_args = \<lparr>ia_keyid_len = 26, ia_vanity_prefix = None, ia_force = False\<rparr>"

definition demo_ground :: "string \<Rightarrow> nat \<Rightarrow> (anyhow_error, identity option) result" where
  "demo_ground pre n = Ok None"

lemma demo_init_identity: "init_identity demo_ground (replicate 32 7) demo_init_args = Ok demo_identity"
  by (simp add: init_identity_def demo_init_args_def demo_identity_def Identity_generate_def
      from_secret_bytes_def)

definition demo_init_name :: name where
  "demo_init_name = \<lparr>name_vanity = [],
     name_keyid = keyid_from_pubkey demo_crypto (public_bytes demo_crypto demo_identity) 26\<rparr>"

lemma demo_init:
  "cmd_init demo_crypto (map_keyring True) demo_ground (replicate 32 7) demo_init_args False
     (demo_machine Map.empty) = (Ok ([], init_lines demo_init_name ''OS keyring''), demo_saved)"
proof -
  have "identity_exists (map_keyring True) (demo_machine Map.empty) = Ok False"
    by (simp add: identity_exists_def keyring_load_def keyring_entry_def config_dir_def key_path_def
        path_exists_def map_keyring_def demo_machine_def)
  moreover have "cli_check_keyid_len 26 = Ok ()" and "check_keyid_len 26 = Ok ()"
    by (simp_all add: cli_check_keyid_len_Ok check_keyid_len_Ok_iff)
  ultimately show ?thesis
    using demo_save demo_init_identity
    by (simp add: cmd_init_def demo_init_args_def Identity_name_def Name_from_pubkey_def
        validate_vanity_def demo_init_name_def)
qed

theorem init_then_name_witness:
  "\<exists>name. cmd_name demo_crypto (map_keyring True) \<lparr>na_vanity = [], na_keyid_len = None\<rparr> False demo_saved
     = Ok ([Name_to_string name], []) \<and>
   keyid_matches_pubkey demo_crypto (name_keyid name) (public_bytes demo_crypto demo_identity)"
proof -
  have "length (secret_bytes i) = 32" if "init_identity demo_ground (replicate 32 7) demo_init_args = Ok i" for i
    using that demo_init_identity by (auto simp: demo_identity_def)
  from init_then_name [OF demo_sha256_law demo_base32_law map_keyring_laws demo_readable demo_init this]
  show ?thesis using demo_init_identity by (auto simp: demo_init_args_def)
qed

text \<open>An agent over an existing identity: it runs, with its control file on the disk.\<close>

theorem identity_kept_witness:
  "\<exists>w'. main owner_externs demo_env (\<lambda>_. Err []) (\<lambda>_. Err []) (map_keyring True) demo_ground []
      \<lparr>cli_json = False, cli_command = Agent \<lparr>aa_control_port = 0\<rparr>\<rparr> (demo_machine demo_old_ring) None w' \<and>
    os_files w' ''/home/a/control.json'' \<noteq> None \<and>
    load (map_keyring True) w' = load (map_keyring True) (demo_machine demo_old_ring)"
proof -
  let ?c = "\<lparr>cli_json = False, cli_command = Agent \<lparr>aa_control_port = 0\<rparr>\<rparr>" and ?w = "demo_machine demo_old_ring"
  have ex: "identity_exists (map_keyring True) ?w = Ok True" by (simp add: identity_exists_def demo_old_load)
  have dir: "config_dir ?w = Ok ''/home/a''" by (simp add: config_dir_def demo_machine_def)
  have "load (map_keyring True) ?w = Ok (from_secret_bytes (the (keyring_load (map_keyring True) ?w)))"
    by (simp add: load_def demo_old_load)
  moreover have "Config_load (\<lambda>_. Err []) ?w = Ok Config_default"
    by (rule Config_load_missing [where p = "''/home/a/config.toml''"])
      (simp_all add: Config_path_def dir, simp_all add: join_path_def demo_machine_def)
  ultimately obtain secret cfg where disp: "dispatch owner_externs (\<lambda>_. Err []) (\<lambda>_. Err []) (map_keyring True) demo_ground []
      ?c ?w = (Ok (Launch (RunAgent secret cfg 0)), ?w)"
    by (simp add: dispatch_def cmd_agent_def net_config_of_def net_opts_of_def Config_default_def
        NetworkCfg_default_def parse_addrs_def)
  obtain s w1 where o: "agent_open (Ok ()) (Ok (Ok 4000)) (Ok [0xA7]) 0 ?w =
      (Ok (4000, ''a7'', ''/home/a/control.json'', s), w1)"
    using demo_agent_open by blast
  note opened = agent_open_Ok [OF o]
  have run: "main owner_externs demo_env (\<lambda>_. Err []) (\<lambda>_. Err []) (map_keyring True) demo_ground [] ?c ?w None w1"
    using main_session [OF disp agent_runs [OF o trace_Nil]] opened(1,3) by metis
  have "load (map_keyring True) w1 = load (map_keyring True) ?w"
    using identity_kept [OF ex dir run refl] by simp
  with run opened(4) show ?thesis by (intro exI [of _ w1]) auto
qed

end
