(* ===== verification/Net_Lifetime.thy ===== *)
theory Net_Lifetime
  imports Net_Storage "HOL-Library.Multiset"
begin

text \<open>
  The life of a node from \<^verbatim>\<open>spawn\<close> on. \<open>node_step\<close> is one turn of the \<^verbatim>\<open>tokio::select!\<close> loop of
  \<^verbatim>\<open>event_loop\<close> as a step relation, labelled with the clocks, the input and the replies; it says
  of a poll of the swarm what libp2p documents, instead of allowing any state. \<open>event_loop\<close>
  computes its runs.

  Shown here: the node's state stays well formed, and its store holds only authorised records (from
  the record filtering that \<^verbatim>\<open>Behaviour::new\<close> switches on, not from an assumption about this node).
\<close>

section \<open>Documented behaviour of libp2p\<close>

text \<open>What can be observed of a swarm: the record filtering its Kademlia behaviour was built
  with (and how that is read off a behaviour), the query ids handed out so far, and the states
  that polling it can lead to.\<close>

record ('o, 'sw) swarm_view =
  vw_inserts :: "'o \<Rightarrow> store_inserts"
  vw_mode :: "'o \<Rightarrow> kad_mode option"
  vw_filter :: "'sw \<Rightarrow> store_inserts"
  vw_used :: "'sw \<Rightarrow> query_id set"
  vw_polled :: "'sw \<Rightarrow> 'sw \<Rightarrow> bool"

text \<open>A query gets an id that no query had before; no operation takes an id back.\<close>

definition query_laws :: "'sw swarm_ops \<Rightarrow> ('o, 'sw) swarm_view \<Rightarrow> bool" where
  "query_laws S V \<longleftrightarrow>
     (\<forall>sw r q sw'. kad_put_record S sw r = (Ok q, sw') \<longrightarrow> q \<notin> vw_used V sw \<and> q \<in> vw_used V sw') \<and>
     (\<forall>sw r. vw_used V sw \<subseteq> vw_used V (snd (kad_put_record S sw r))) \<and>
     (\<forall>sw k q sw'. kad_get_record S sw k = (q, sw') \<longrightarrow>
        q \<notin> vw_used V sw \<and> insert q (vw_used V sw) \<subseteq> vw_used V sw') \<and>
     (\<forall>sw p a. vw_used V sw \<subseteq> vw_used V (kad_add_address S sw p a)) \<and>
     (\<forall>sw a. vw_used V sw \<subseteq> vw_used V (snd (swarm_dial S sw a))) \<and>
     (\<forall>sw r. vw_used V sw \<subseteq> vw_used V (store_put S sw r)) \<and>
     (\<forall>sw sw'. vw_polled V sw sw' \<longrightarrow> vw_used V sw \<subseteq> vw_used V sw')"

lemma query_lawsD:
  assumes "query_laws S V"
  shows "kad_put_record S sw r = (Ok q, sw') \<Longrightarrow> q \<notin> vw_used V sw"
    and "kad_get_record S sw k = (q, sw') \<Longrightarrow> q \<notin> vw_used V sw"
  using assms by (simp_all add: query_laws_def)

text \<open>The store: a new swarm has an empty one and filters as its behaviour says; no operation
  changes the filtering; \<^verbatim>\<open>put_record\<close> stores at most its own record, with the publisher libp2p fills in, and the other
  operations nothing. While records are filtered, polling stores nothing (it may drop expired records).\<close>

definition filter_laws ::
  "'o libp2p \<Rightarrow> ('kp, 'sb, 'o, 'sw) swarm_builder \<Rightarrow> 'sw swarm_ops \<Rightarrow> ('o, 'sw) swarm_view \<Rightarrow> bool" where
  "filter_laws L B S V \<longleftrightarrow>
     kad_laws L (vw_inserts V) (vw_mode V) \<and> store_frame S \<and> store_untouched S \<and>
     (\<forall>sb b t. store_get S (sb_build B sb b t) = Map.empty \<and>
        vw_filter V (sb_build B sb b t) = vw_inserts V (bh_kad b)) \<and>
     (\<forall>sw r k. let sw' = snd (kad_put_record S sw r) in vw_filter V sw' = vw_filter V sw \<and>
        (store_get S sw' k = store_get S sw k \<or> k = kr_key r \<and> (\<exists>p. store_get S sw' k = Some (r\<lparr>kr_publisher := p\<rparr>)))) \<and>
     (\<forall>sw k. let sw' = snd (kad_get_record S sw k) in
        vw_filter V sw' = vw_filter V sw \<and> store_get S sw' = store_get S sw) \<and>
     (\<forall>sw. vw_filter V (kad_bootstrap S sw) = vw_filter V sw \<and>
        store_get S (kad_bootstrap S sw) = store_get S sw) \<and>
     (\<forall>sw a. let sw' = snd (swarm_listen_on S sw a) in
        vw_filter V sw' = vw_filter V sw \<and> store_get S sw' = store_get S sw) \<and>
     (\<forall>sw p a. vw_filter V (kad_add_address S sw p a) = vw_filter V sw) \<and>
     (\<forall>sw a. vw_filter V (snd (swarm_dial S sw a)) = vw_filter V sw) \<and>
     (\<forall>sw r. vw_filter V (store_put S sw r) = vw_filter V sw) \<and>
     (\<forall>sw sw'. vw_polled V sw sw' \<longrightarrow> vw_filter V sw' = vw_filter V sw \<and>
        (vw_filter V sw = FilterBoth \<longrightarrow> store_get S sw' \<subseteq>\<^sub>m store_get S sw))"

section \<open>Steps of the event loop\<close>

inductive node_step ::
  "'a externs_scheme \<Rightarrow> 'sw swarm_ops \<Rightarrow> ('o, 'sw) swarm_view \<Rightarrow>
     'sw node \<Rightarrow> clock \<times> 'sw node_input \<times> reply list \<Rightarrow> 'sw node \<Rightarrow> bool"
  for X S V where
  on_command: "handle_command X S clk nd c = (nd', out) \<Longrightarrow>
     node_step X S V nd (clk, Command c, out) nd'"
| on_event: "handle_event X S clk nd ev = (nd', out) \<Longrightarrow>
     node_step X S V nd (clk, Event ev, out) nd'"
| on_poll: "vw_polled V (nd_swarm nd) sw \<Longrightarrow>
     node_step X S V nd (clk, SwarmPolled sw, []) (nd\<lparr>nd_swarm := sw\<rparr>)"

inductive_cases node_stepE: "node_step X S V nd l nd'"

inductive_simps node_step_simps [simp]:
  "node_step X S V nd (clk, Command c, out) nd'"
  "node_step X S V nd (clk, Event ev, out) nd'"
  "node_step X S V nd (clk, SwarmPolled sw, out) nd'"
  "node_step X S V nd (clk, Closed, out) nd'"

text \<open>A run and its replies are what \<open>event_loop\<close> computes from the inputs.\<close>

lemma event_loop_trace:
  assumes "trace (node_step X S V) nd ls nd'"
  shows "event_loop X S nd (map (\<lambda>(clk, i, out). (clk, i)) ls) = (nd', concat (map (\<lambda>(clk, i, out). out) ls))"
  using assms
proof (induction rule: trace.induct)
  case (trace_Cons s a s' as s'')
  from trace_Cons(1,3) show ?case by (auto elim!: node_stepE)
qed simp

section \<open>Well-formed nodes\<close>

text \<open>The type invariant of the loop's local state: the two tables are finite and disjoint, hold
  only ids of queries that were started, every candidate collected so far fits a record, and
  no external address is listed twice.\<close>

definition node_ok :: "('o, 'sw) swarm_view \<Rightarrow> 'sw node \<Rightarrow> bool" where
  "node_ok V nd \<longleftrightarrow>
     finite (dom (pending_put nd)) \<and> finite (dom (pending_get nd)) \<and>
     dom (pending_put nd) \<inter> dom (pending_get nd) = {} \<and>
     dom (pending_put nd) \<union> dom (pending_get nd) \<subseteq> vw_used V (nd_swarm nd) \<and>
     (\<forall>q s acc. pending_get nd q = Some (s, acc) \<longrightarrow> (\<forall>v \<in> set acc. length v \<le> MAX_RECORD_BYTES)) \<and>
     distinct (external_addrs nd)"

definition reply_ok :: "reply \<Rightarrow> bool" where
  "reply_ok r = (case r of GetReply _ (Ok vs) \<Rightarrow> list_all (\<lambda>v. length v \<le> MAX_RECORD_BYTES) vs | _ \<Rightarrow> True)"

lemma handle_event_used:
  assumes "query_laws S V"
  shows "vw_used V (nd_swarm nd) \<subseteq> vw_used V (nd_swarm (fst (handle_event X S clk nd ev)))"
proof -
  have addr: "vw_used V sw \<subseteq> vw_used V (fold (\<lambda>addr sw. kad_add_address S sw p addr) as sw)" for p as sw
    using assms by (induction as arbitrary: sw) (auto simp: query_laws_def, blast)
  have mdns: "vw_used V sw \<subseteq> vw_used V (fold (\<lambda>(peer, addr) sw.
      snd (swarm_dial S (kad_add_address S sw peer addr) addr)) as sw)" for as sw
    using assms by (induction as arbitrary: sw) (auto simp: query_laws_def, blast)
  have "vw_used V sw \<subseteq> vw_used V (handle_inbound_put X S clk sw rc)" for sw rc
    using assms by (auto simp: handle_inbound_put_def query_laws_def split: option.split)
  with addr mdns show ?thesis
    by (auto simp: handle_event_def handle_kad_result_def split: event.split query_result.split
        option.split)
qed

lemma handle_command_used:
  assumes "query_laws S V"
  shows "vw_used V (nd_swarm nd) \<subseteq> vw_used V (nd_swarm (fst (handle_command X S clk nd c)))"
proof -
  have put: "vw_used V sw \<subseteq> vw_used V sw'" if "kad_put_record S sw r = (q, sw')" for sw r q sw'
    using assms that unfolding query_laws_def by (metis snd_conv)
  have get: "vw_used V sw \<subseteq> vw_used V sw'" if "kad_get_record S sw k = (q, sw')" for sw k q sw'
    using assms that unfolding query_laws_def by blast
  have dial: "vw_used V sw \<subseteq> vw_used V sw'" if "swarm_dial S sw a = (q, sw')" for sw a q sw'
    using assms that unfolding query_laws_def by (metis snd_conv)
  show ?thesis
    by (auto simp: handle_command_def Let_def split: command.split prod.split sum.split
        dest!: put get dial)
qed

lemma node_ok_swarm:
  "node_ok V nd \<Longrightarrow> vw_used V (nd_swarm nd) \<subseteq> vw_used V sw \<Longrightarrow> node_ok V (nd\<lparr>nd_swarm := sw\<rparr>)"
  by (auto simp: node_ok_def)

lemma node_ok_put:
  assumes "query_laws S V" and "node_ok V nd" and "kad_put_record S (nd_swarm nd) r = (Ok q, sw)"
  shows "node_ok V (nd\<lparr>nd_swarm := sw, pending_put := (pending_put nd)(q \<mapsto> resp)\<rparr>)"
proof -
  have "q \<notin> vw_used V (nd_swarm nd)" "insert q (vw_used V (nd_swarm nd)) \<subseteq> vw_used V sw"
    using assms(1,3) unfolding query_laws_def by (metis insert_subset snd_conv)+
  with assms(2) show ?thesis by (auto simp: node_ok_def)
qed

lemma node_ok_get:
  assumes "query_laws S V" and "node_ok V nd" and "kad_get_record S (nd_swarm nd) k = (q, sw)"
  shows "node_ok V (nd\<lparr>nd_swarm := sw, pending_get := (pending_get nd)(q \<mapsto> (resp, []))\<rparr>)"
proof -
  have "q \<notin> vw_used V (nd_swarm nd)" "insert q (vw_used V (nd_swarm nd)) \<subseteq> vw_used V sw"
    using assms(1,3) unfolding query_laws_def by blast+
  with assms(2) show ?thesis by (auto simp: node_ok_def)
qed

lemma handle_command_ok:
  assumes "query_laws S V" and "node_ok V nd"
  shows "node_ok V (fst (handle_command X S clk nd c))" and "list_all reply_ok (snd (handle_command X S clk nd c))"
proof -
  have "vw_used V (nd_swarm nd) \<subseteq> vw_used V (nd_swarm (fst (handle_command X S clk nd c)))"
    by (rule handle_command_used [OF assms(1)])
  then show "node_ok V (fst (handle_command X S clk nd c))"
    using assms(2)
    by (auto simp: handle_command_def Let_def node_ok_swarm node_ok_put [OF assms] node_ok_get [OF assms]
        split: command.splits prod.splits sum.splits)
  show "list_all reply_ok (snd (handle_command X S clk nd c))"
    by (auto simp: handle_command_def Let_def reply_ok_def split: command.split prod.split sum.split)
qed

lemma handle_kad_result_ok:
  assumes "node_ok V nd"
  shows "node_ok V (fst (handle_kad_result nd i r))" and "list_all reply_ok (snd (handle_kad_result nd i r))"
proof -
  have dom: "dom ((pending_get nd)(i \<mapsto> x)) = dom (pending_get nd)" if "pending_get nd i = Some y" for x y
    using that by auto
  show "node_ok V (fst (handle_kad_result nd i r))"
    using assms
    by (auto simp: handle_kad_result_def node_ok_def dom split: query_result.split option.split
        simp del: dom_fun_upd) (auto split: if_splits)
  show "list_all reply_ok (snd (handle_kad_result nd i r))"
    using assms
    by (auto simp: handle_kad_result_def node_ok_def reply_ok_def list_all_iff
        split: query_result.split option.split)
qed

lemma handle_event_ok:
  assumes "query_laws S V" and "node_ok V nd"
  shows "node_ok V (fst (handle_event X S clk nd ev))" and "list_all reply_ok (snd (handle_event X S clk nd ev))"
proof -
  have "vw_used V (nd_swarm nd) \<subseteq> vw_used V (nd_swarm (fst (handle_event X S clk nd ev)))"
    by (rule handle_event_used [OF assms(1)])
  then show "node_ok V (fst (handle_event X S clk nd ev))"
    using assms(2) handle_kad_result_ok(1) [OF assms(2)]
    by (cases ev) (auto simp: handle_event_def node_ok_swarm, auto simp: node_ok_def)
  show "list_all reply_ok (snd (handle_event X S clk nd ev))"
    using handle_kad_result_ok(2) [OF assms(2)] by (auto simp: handle_event_def split: event.split)
qed

lemma node_step_ok:
  assumes "query_laws S V" and "node_ok V nd" and "node_step X S V nd (clk, i, out) nd'"
  shows "node_ok V nd' \<and> list_all reply_ok out"
  using assms(3)
proof cases
  case (on_command c)
  then show ?thesis using handle_command_ok [OF assms(1,2), of X clk c] by simp
next
  case (on_event ev)
  then show ?thesis using handle_event_ok [OF assms(1,2), of X clk ev] by simp
next
  case (on_poll sw)
  then have "vw_used V (nd_swarm nd) \<subseteq> vw_used V sw"
    using assms(1) unfolding query_laws_def by blast
  with on_poll assms(2) show ?thesis by (simp add: node_ok_swarm)
qed

section \<open>A spawned node\<close>

lemma spawn_OkE:
  assumes "spawn L v B S secret cfg = Some (Ok (peer, nd))"
  obtains kp rc sb b sw where
    "keypair_from_secret B secret = Ok kp" and "peer = pk_to_peer_id B (kp_public B kp)"
    and "Behaviour_new L v peer (kp_public B kp) rc (nc_relay_server cfg) (nc_enable_mdns cfg) = Some b"
    and "start_listening S (sb_build B sb b (from_secs 60)) cfg = (Ok (), sw)"
    and "nd = \<lparr>nd_swarm = reserve_relays S (add_bootstrap S sw cfg) cfg, pending_put = Map.empty,
       pending_get = Map.empty, external_addrs = [], rtt = Map.empty\<rparr>"
  using assms
  by (auto simp: spawn_def Let_def tryq_eq_Ok_iff tryq_eq_Err_iff split: sum.splits option.splits prod.splits)

lemma spawn_node_ok:
  "spawn L v B S secret cfg = Some (Ok (peer, nd)) \<Longrightarrow> node_ok V nd"
  by (erule spawn_OkE) (simp add: node_ok_def)

text \<open>Starting to listen, bootstrapping and reserving relay slots leave the store alone.\<close>

definition store_kept :: "'sw swarm_ops \<Rightarrow> ('o, 'sw) swarm_view \<Rightarrow> 'sw \<Rightarrow> 'sw \<Rightarrow> bool" where
  "store_kept S V sw sw' \<longleftrightarrow> vw_filter V sw' = vw_filter V sw \<and> store_get S sw' = store_get S sw"

lemma store_kept_refl [simp]: "store_kept S V sw sw"
  by (simp add: store_kept_def)

lemma store_kept_trans: "store_kept S V a b \<Longrightarrow> store_kept S V b c \<Longrightarrow> store_kept S V a c"
  by (simp add: store_kept_def)

lemma store_kept_ops:
  assumes "filter_laws L B S V"
  shows "store_kept S V sw (snd (kad_get_record S sw k))" and "store_kept S V sw (kad_bootstrap S sw)"
    and "store_kept S V sw (snd (swarm_listen_on S sw a))" and "store_kept S V sw (kad_add_address S sw p a)"
    and "store_kept S V sw (snd (swarm_dial S sw a))"
  using assms by (simp_all add: filter_laws_def store_kept_def store_untouched_def Let_def)

lemma store_kept_fold:
  assumes "\<And>x sw. store_kept S V sw (f x sw)"
  shows "store_kept S V sw (fold f xs sw)"
  using assms by (induction xs arbitrary: sw) (auto intro: store_kept_trans)

lemma store_kept_start_listening:
  assumes "filter_laws L B S V"
  shows "store_kept S V sw (snd (start_listening S sw cfg))"
proof -
  have on: "store_kept S V sw sw'" if "swarm_listen_on S sw a = (r, sw')" for sw a r sw'
    using store_kept_ops(3) [OF assms, of sw a] that by simp
  have "store_kept S V sw (snd (listen_all S sw as))" for sw as
    by (induction as arbitrary: sw)
      (auto split: prod.splits sum.splits intro: store_kept_trans dest!: on)
  then show ?thesis
    by (auto simp: start_listening_def split: prod.splits sum.splits intro: store_kept_trans dest!: on)
qed

lemma store_kept_add_bootstrap:
  assumes "filter_laws L B S V"
  shows "store_kept S V sw (add_bootstrap S sw cfg)"
proof -
  let ?add = "\<lambda>addr (sw, added). case peer_id_from_multiaddr addr of
      Some peer \<Rightarrow> (kad_add_address S sw peer addr, added + 1) | None \<Rightarrow> (sw, added)"
  have kept: "store_kept S V sw (fst (fold ?add as (sw, n :: nat)))" for as n
  proof (induction as arbitrary: sw n)
    case (Cons a as)
    show ?case
    proof (cases "peer_id_from_multiaddr a")
      case (Some peer)
      then show ?thesis
        using store_kept_trans [OF store_kept_ops(4) [OF assms] Cons] by simp
    qed (use Cons in simp)
  qed simp
  obtain sw' n where f: "fold ?add (nc_bootstrap cfg) (sw, 0 :: nat) = (sw', n)"
    by (rule prod.exhaust)
  have "store_kept S V sw sw'" using kept [of "nc_bootstrap cfg" 0] unfolding f by simp
  from this store_kept_trans [OF this store_kept_ops(2) [OF assms]] show ?thesis
    unfolding add_bootstrap_def f by simp
qed

lemma store_kept_reserve_relays:
  assumes "filter_laws L B S V"
  shows "store_kept S V sw (reserve_relays S sw cfg)"
  unfolding reserve_relays_def
  by (rule store_kept_fold)
    (auto simp: Let_def split: option.split intro: store_kept_ops [OF assms] store_kept_trans)

lemma spawn_store:
  assumes "spawn L v B S secret cfg = Some (Ok (peer, nd))" and "filter_laws L B S V"
  shows "store_get S (nd_swarm nd) = Map.empty" and "vw_filter V (nd_swarm nd) = FilterBoth"
proof -
  from assms(1) obtain rc sb b sw pk where b: "Behaviour_new L v peer pk rc (nc_relay_server cfg) (nc_enable_mdns cfg) = Some b"
    and sw: "start_listening S (sb_build B sb b (from_secs 60)) cfg = (Ok (), sw)"
    and nd: "nd_swarm nd = reserve_relays S (add_bootstrap S sw cfg) cfg"
    by (rule spawn_OkE) auto
  have "store_kept S V (sb_build B sb b (from_secs 60)) sw"
    using store_kept_start_listening [OF assms(2)] sw by (metis snd_conv)
  then have "store_kept S V (sb_build B sb b (from_secs 60)) (nd_swarm nd)"
    unfolding nd
    using store_kept_add_bootstrap [OF assms(2)] store_kept_reserve_relays [OF assms(2)]
    by (meson store_kept_trans)
  moreover have "kad_laws L (vw_inserts V) (vw_mode V)"
    and "store_get S (sb_build B sb b t) = Map.empty" "vw_filter V (sb_build B sb b t) = vw_inserts V (bh_kad b)" for t
    using assms(2) by (simp_all add: filter_laws_def)
  ultimately show "store_get S (nd_swarm nd) = Map.empty" and "vw_filter V (nd_swarm nd) = FilterBoth"
    using Behaviour_new_kad(1) [OF b] by (simp_all add: store_kept_def)
qed

section \<open>The store over a node's life\<close>

text \<open>An own record that may be published: it parses and its signer owns the 32-byte key.\<close>

definition put_authorised :: "'a externs_scheme \<Rightarrow> 'sw node_input \<Rightarrow> bool" where
  "put_authorised X i =
     (case i of
        Command (PutRecord key val _) \<Rightarrow> length key = 32 \<and>
          (case Record_from_bytes X val of Ok r \<Rightarrow> authorizes_storage_key X r key | Err _ \<Rightarrow> False)
      | _ \<Rightarrow> True)"

text \<open>Filtered, with only authorised records in the store.\<close>

definition guarded :: "'a externs_scheme \<Rightarrow> 'sw swarm_ops \<Rightarrow> ('o, 'sw) swarm_view \<Rightarrow> 'sw \<Rightarrow> bool" where
  "guarded X S V sw \<longleftrightarrow> vw_filter V sw = FilterBoth \<and> store_authorised X S sw"

lemma guarded_kept: "store_kept S V sw sw' \<Longrightarrow> guarded X S V sw \<Longrightarrow> guarded X S V sw'"
  by (simp add: guarded_def store_kept_def store_authorised_def)

lemma guarded_event:
  assumes "filter_laws L B S V" and "guarded X S V (nd_swarm nd)"
  shows "guarded X S V (nd_swarm (fst (handle_event X S clk nd ev)))"
proof (cases "\<exists>rc. ev = KadInboundPutRecord rc")
  case True
  have "vw_filter V (handle_inbound_put X S clk sw rc) = vw_filter V sw" for sw rc
    using assms(1) by (simp add: handle_inbound_put_def filter_laws_def split: option.split)
  moreover have "store_frame S" using assms(1) by (simp add: filter_laws_def)
  ultimately show ?thesis
    using True assms(2) handle_inbound_put_authorised [of S X "nd_swarm nd" clk]
    by (auto simp: guarded_def handle_event_def)
next
  case False
  note kept = store_kept_ops(4,5) [OF assms(1)]
  have "store_kept S V sw (fold (\<lambda>addr sw. kad_add_address S sw p addr) as sw)" for p as sw
    by (rule store_kept_fold) (rule kept(1))
  moreover have "store_kept S V sw (fold (\<lambda>(peer, addr) sw.
      snd (swarm_dial S (kad_add_address S sw peer addr) addr)) as sw)" for as sw
    by (rule store_kept_fold) (auto intro: kept store_kept_trans)
  ultimately have "store_kept S V (nd_swarm nd) (nd_swarm (fst (handle_event X S clk nd ev)))"
    using False
    by (auto simp: handle_event_def handle_kad_result_def split: event.split query_result.split
        option.split)
  then show ?thesis using assms(2) by (rule guarded_kept)
qed

lemma filter_laws_put:
  assumes "filter_laws L B S V" and "kad_put_record S sw r = (q, sw')"
  shows "vw_filter V sw' = vw_filter V sw"
    and "store_get S sw' k = store_get S sw k \<or>
      k = kr_key r \<and> (\<exists>p. store_get S sw' k = Some (r\<lparr>kr_publisher := p\<rparr>))"
proof -
  have "\<forall>sw r k. let sw' = snd (kad_put_record S sw r) in vw_filter V sw' = vw_filter V sw \<and>
      (store_get S sw' k = store_get S sw k \<or>
        k = kr_key r \<and> (\<exists>p. store_get S sw' k = Some (r\<lparr>kr_publisher := p\<rparr>)))"
    using assms(1) by (simp add: filter_laws_def)
  from spec [OF spec [OF spec [OF this, of sw], of r], of k] assms(2)
  show "vw_filter V sw' = vw_filter V sw"
    and "store_get S sw' k = store_get S sw k \<or>
      k = kr_key r \<and> (\<exists>p. store_get S sw' k = Some (r\<lparr>kr_publisher := p\<rparr>))"
    by (simp_all add: Let_def)
qed

lemma guarded_put:
  assumes "filter_laws L B S V" and "guarded X S V sw" and "put_authorised X (Command (PutRecord key val resp))"
    and "kr_key r = key" and "kr_value r = val" and "kad_put_record S sw r = (q, sw')"
  shows "guarded X S V sw'"
proof -
  have law: "vw_filter V sw' = vw_filter V sw"
    "store_get S sw' k = store_get S sw k \<or> k = kr_key r \<and> (\<exists>p. store_get S sw' k = Some (r\<lparr>kr_publisher := p\<rparr>))" for k
    by (rule filter_laws_put [OF assms(1,6)])+
  show ?thesis
    unfolding guarded_def store_authorised_def
  proof (intro conjI allI impI)
    show "vw_filter V sw' = FilterBoth" using assms(2) law(1) by (simp add: guarded_def)
    fix k e assume "store_get S sw' k = Some e"
    then consider "store_get S sw k = Some e" | p where "k = key" "e = r\<lparr>kr_publisher := p\<rparr>"
      using law(2) [of k] assms(4) by auto
    then have "kr_key e = k \<and> length k = 32 \<and>
        (\<exists>r. Record_from_bytes X (kr_value e) = Ok r \<and> authorizes_storage_key X r k)"
      using assms(2-5)
      by cases (auto simp: guarded_def store_authorised_def put_authorised_def split: sum.splits)
    then show "kr_key e = k" and "length k = 32"
      and "\<exists>r. Record_from_bytes X (kr_value e) = Ok r \<and> authorizes_storage_key X r k" by blast+
  qed
qed

lemma guarded_command:
  assumes "filter_laws L B S V" and "guarded X S V (nd_swarm nd)" and "put_authorised X (Command c)"
  shows "guarded X S V (nd_swarm (fst (handle_command X S clk nd c)))"
proof (cases c)
  case (PutRecord key val resp)
  note put = guarded_put [OF assms(1,2) assms(3) [unfolded PutRecord]]
  from PutRecord show ?thesis
    by (simp add: handle_command_def Let_def split: prod.split sum.split)
      (intro conjI allI impI; erule put [rotated 2]; simp)
next
  case (GetRecord key resp)
  then show ?thesis
    using guarded_kept [OF store_kept_ops(1) [OF assms(1), of "nd_swarm nd" key] assms(2)]
    by (auto simp: handle_command_def split: prod.split)
next
  case (Dial addr resp)
  then show ?thesis
    using guarded_kept [OF store_kept_ops(5) [OF assms(1), of "nd_swarm nd" addr] assms(2)]
    by (auto simp: handle_command_def split: prod.split)
next
  case (Doctor resp)
  then show ?thesis using assms(2) by (simp add: handle_command_def Let_def)
qed

lemma guarded_step:
  assumes "filter_laws L B S V" and "guarded X S V (nd_swarm nd)"
    and "node_step X S V nd (clk, i, out) nd'" and "put_authorised X i"
  shows "guarded X S V (nd_swarm nd')"
  using assms(3)
proof cases
  case (on_command c)
  then show ?thesis using guarded_command [OF assms(1,2), of c clk] assms(4) by simp
next
  case (on_event ev)
  then show ?thesis using guarded_event [OF assms(1,2), of clk ev] by simp
next
  case (on_poll sw)
  then have "vw_filter V sw = FilterBoth" "store_get S sw \<subseteq>\<^sub>m store_get S (nd_swarm nd)"
    using assms(1,2) by (auto simp: filter_laws_def guarded_def)
  then show ?thesis
    using on_poll assms(2) unfolding guarded_def store_authorised_def
    by (auto simp: map_le_def dom_def)
qed

text \<open>C7. The DHT store of a node over its whole life, from \<^verbatim>\<open>spawn\<close> on and under every sequence of commands, events and
  polls: it only ever holds records that parse and whose signer owns the key they are filed
  under, provided the node's own puts are such records (as a publisher's are). That inbound records do not get past \<^verbatim>\<open>validate_inbound_record\<close> rests on the
  filtering \<^verbatim>\<open>Behaviour::new\<close> configures and on what libp2p documents about it.\<close>

theorem spawned_store_authorised:
  assumes "filter_laws L B S V" and "spawn L v B S secret cfg = Some (Ok (peer, nd))"
    and "trace (node_step X S V) nd ls nd'" and "\<forall>(clk, i, out) \<in> set ls. put_authorised X i"
  shows "store_authorised X S (nd_swarm nd')"
proof -
  have "guarded X S V (nd_swarm nd)"
    using spawn_store [OF assms(2,1)] by (simp add: guarded_def store_authorised_def)
  with assms(3,4) have "guarded X S V (nd_swarm nd')"
  proof (induction rule: trace.induct)
    case (trace_Cons s l s' ls s'')
    obtain clk i out where "l = (clk, i, out)" by (cases l)
    with trace_Cons guarded_step [OF assms(1), of X s clk i out s'] show ?case by auto
  qed simp
  then show ?thesis by (simp add: guarded_def)
qed

text \<open>C18. The state of the event loop is well formed throughout: from \<^verbatim>\<open>spawn\<close> on, under every sequence of commands, events and
  polls, the tables of in-flight queries are finite and disjoint and hold only ids of started
  queries, every collected candidate has at most 8192 bytes, the external addresses are distinct, and
  every candidate list that is handed out respects the same bound.\<close>

theorem spawned_node_ok:
  assumes "query_laws S V" and "spawn L v B S secret cfg = Some (Ok (peer, nd))"
    and "trace (node_step X S V) nd ls nd'"
  shows "node_ok V nd' \<and> list_all (\<lambda>(clk, i, out). list_all reply_ok out) ls"
proof -
  have "node_ok V nd" by (rule spawn_node_ok [OF assms(2)])
  with assms(3) show ?thesis
  proof (induction rule: trace.induct)
    case (trace_Cons s l s' ls s'')
    obtain clk i out where "l = (clk, i, out)" by (cases l)
    with trace_Cons node_step_ok [OF assms(1), of s X clk i out s'] show ?case by auto
  qed simp
qed

section \<open>A concrete libp2p\<close>

text \<open>Its objects are the two Kademlia settings; its swarm is the swarm of \<open>demo_swarm\<close> together with
  the filtering it was built with, and polling it may start queries and, when unfiltered, store
  anything.\<close>

type_synonym demo_obj = "store_inserts \<times> kad_mode option"
type_synonym live_sw = "store_inserts \<times> demo_sw"

definition demo_libp2p :: "demo_obj libp2p" where
  "demo_libp2p = \<lparr>
     kad_Config_default = (Unfiltered, None),
     kad_set_record_filtering = (\<lambda>f c. (f, snd c)),
     kad_MemoryStore_new = (\<lambda>p. (Unfiltered, None)),
     kad_with_config = (\<lambda>p st c. c),
     kad_set_mode = (\<lambda>m k. (fst k, m)),
     relay_Config_default = (Unfiltered, None),
     relay_Behaviour_new = (\<lambda>p c. c),
     mdns_Config_default = (Unfiltered, None),
     mdns_Behaviour_new = (\<lambda>c p. Ok c),
     identify_Config_new = (\<lambda>s k. (Unfiltered, None)),
     identify_with_agent_version = (\<lambda>s c. c),
     identify_Behaviour_new = (\<lambda>c. c),
     ping_Config_new = (Unfiltered, None),
     ping_with_interval = (\<lambda>n c. c),
     ping_Behaviour_new = (\<lambda>c. c),
     dcutr_Behaviour_new = (\<lambda>p. (Unfiltered, None)),
     autonat_Config_default = (Unfiltered, None),
     autonat_Behaviour_new = (\<lambda>p c. c),
     stream_Behaviour_new = (Unfiltered, None)\<rparr>"

definition demo_builder :: "(bytes, unit, demo_obj, live_sw) swarm_builder" where
  "demo_builder = \<lparr>
     kp_ed25519_from_bytes = (\<lambda>s. if length s = 32 then Ok s else Err ''length''),
     kp_public = (\<lambda>kp. kp),
     pk_to_peer_id = (\<lambda>pk. ''12D3''),
     sb_with_identity = (\<lambda>kp. ()),
     sb_tcp = (\<lambda>nodelay sb. Ok sb),
     sb_quic = (\<lambda>sb. sb),
     sb_dns = Ok,
     sb_relay_client = (\<lambda>sb. Ok ((Unfiltered, None), sb)),
     sb_build = (\<lambda>sb b t. (fst (bh_kad b), 0, Map.empty))\<rparr>"

definition live_swarm :: "live_sw swarm_ops" where
  "live_swarm = \<lparr>
     kad_put_record = (\<lambda>(f, sw) r. apsnd (Pair f) (kad_put_record demo_swarm sw (r\<lparr>kr_publisher := Some ''12D3''\<rparr>))),
     kad_get_record = (\<lambda>(f, sw) k. apsnd (Pair f) (kad_get_record demo_swarm sw k)),
     kad_add_address = (\<lambda>sw p a. sw),
     kad_bootstrap = (\<lambda>sw. sw),
     store_get = (\<lambda>(f, sw) k. store_get demo_swarm sw k),
     store_put = (\<lambda>(f, sw) r. (f, store_put demo_swarm sw r)),
     swarm_dial = (\<lambda>sw a. (Ok (), sw)),
     swarm_listen_on = (\<lambda>sw a. (Ok (), sw)),
     swarm_listeners = (\<lambda>sw. [[OtherProtocol ''/ip4/10.0.0.2/tcp/1'']]),
     swarm_local_peer = (\<lambda>sw. ''12D3''),
     swarm_connected_peers = (\<lambda>sw. 0),
     swarm_nat_status = (\<lambda>sw. ''Unknown''),
     multiaddr_parse = multiaddr_parse demo_swarm,
     multiaddr_to_string = multiaddr_to_string demo_swarm\<rparr>"

definition live_view :: "(demo_obj, live_sw) swarm_view" where
  "live_view = \<lparr>
     vw_inserts = fst,
     vw_mode = snd,
     vw_filter = fst,
     vw_used = (\<lambda>(f, n, st). {..<n}),
     vw_polled = (\<lambda>(f, n, st) (f', n', st'). f' = f \<and> n \<le> n' \<and> (f = FilterBoth \<longrightarrow> st' \<subseteq>\<^sub>m st))\<rparr>"

lemmas live_defs = live_swarm_def live_view_def demo_swarm_def

lemma live_query_laws: "query_laws live_swarm live_view"
  unfolding query_laws_def by (auto simp: live_defs)

lemma live_filter_laws: "filter_laws demo_libp2p demo_builder live_swarm live_view"
  unfolding filter_laws_def Let_def
  by (intro conjI; auto simp: live_defs kad_laws_def demo_libp2p_def demo_builder_def store_frame_def
      store_untouched_def fun_eq_iff)

definition live_node :: "live_sw node" where
  "live_node = \<lparr>nd_swarm = (FilterBoth, 0, Map.empty), pending_put = Map.empty, pending_get = Map.empty,
     external_addrs = [], rtt = Map.empty\<rparr>"

lemma demo_spawn:
  "spawn demo_libp2p ''0.1.0'' demo_builder live_swarm (replicate 32 7) NetConfig_default =
     Some (Ok (''12D3'', live_node))"
  by (simp add: spawn_def keypair_from_secret_def Behaviour_new_def demo_libp2p_def demo_builder_def
      NetConfig_default_def start_listening_def live_defs add_bootstrap_def reserve_relays_def
      live_node_def Let_def)

definition demo_ls :: "(clock \<times> live_sw node_input \<times> reply list) list" where
  "demo_ls =
     (let c = demo_clock 1900000000 in
      [(c, Event (KadInboundPutRecord (demo_put 1900000000)), []),
       (c, Command (GetRecord [1] 7), []),
       (c, Event (KadQueryProgressed 0 (QFoundRecord (demo_put 5))), []),
       (c, Event (KadQueryProgressed 0 QFinishedWithNoAdditionalRecord),
          [GetReply 7 (Ok [kr_value (demo_put 5)])])])"

lemma demo_ls_trace:
  "\<exists>nd'. trace (node_step demo_externs live_swarm live_view) live_node demo_ls nd' \<and>
     store_get live_swarm (nd_swarm nd') (kr_key (demo_put 1900000000)) \<noteq> None"
proof -
  let ?c = "demo_clock 1900000000" and ?p = "demo_put 1900000000"
  have "length (kr_value (demo_put 5)) \<le> MAX_RECORD_BYTES"
    using demo_record_length [of 5] by (simp add: demo_put_def)
  moreover have "handle_inbound_put demo_externs live_swarm ?c (FilterBoth, 0, Map.empty) ?p =
      (FilterBoth, 0, [kr_key ?p \<mapsto> ?p\<lparr>kr_expires := Some (mono_now ?c +
         from_secs (unat (body_ttl (rec_body (demo_record 1900000000)))))\<rparr>])"
    by (simp add: handle_inbound_put_def demo_put_validates is_newer_than_stored_def live_defs
        demo_clock_def saturating_add_def MAX_FUTURE_SKEW_def)
  ultimately show ?thesis
    by (simp add: demo_ls_def Let_def handle_event_def handle_kad_result_def handle_command_def
        live_node_def live_defs)
qed

theorem spawned_store_authorised_witness:
  "\<exists>nd nd'. spawn demo_libp2p ''0.1.0'' demo_builder live_swarm (replicate 32 7) NetConfig_default =
       Some (Ok (''12D3'', nd)) \<and>
     trace (node_step demo_externs live_swarm live_view) nd demo_ls nd' \<and>
     store_get live_swarm (nd_swarm nd') (kr_key (demo_put 1900000000)) \<noteq> None \<and>
     store_authorised demo_externs live_swarm (nd_swarm nd')"
proof -
  obtain nd' where t: "trace (node_step demo_externs live_swarm live_view) live_node demo_ls nd'"
    "store_get live_swarm (nd_swarm nd') (kr_key (demo_put 1900000000)) \<noteq> None"
    using demo_ls_trace by blast
  have "\<forall>(clk, i, out) \<in> set demo_ls. put_authorised demo_externs i"
    by (simp add: demo_ls_def Let_def put_authorised_def)
  from spawned_store_authorised [OF live_filter_laws demo_spawn t(1) this] t demo_spawn
  show ?thesis by blast
qed

theorem spawned_node_ok_witness:
  "\<exists>nd'. trace (node_step demo_externs live_swarm live_view) live_node demo_ls nd' \<and>
     node_ok live_view nd' \<and> list_all (\<lambda>(clk, i, out). list_all reply_ok out) demo_ls"
proof -
  obtain nd' where t: "trace (node_step demo_externs live_swarm live_view) live_node demo_ls nd'"
    using demo_ls_trace by blast
  from spawned_node_ok [OF live_query_laws demo_spawn t] t show ?thesis by blast
qed

end
