(* ===== verification/Net_Queries.thy ===== *)
theory Net_Queries
  imports Net_Lifetime
begin

text \<open>
  Requests to the network task and their answers (\<^verbatim>\<open>handle_command\<close>, \<^verbatim>\<open>handle_kad_result\<close> and the tables
  \<^verbatim>\<open>pending_put\<close> and \<^verbatim>\<open>pending_get\<close> of \<^verbatim>\<open>crates/net/src/node.rs\<close>): every request is answered exactly once,
  on its own channel, or is still in a table; and a lookup is answered with everything that was
  found for it, in order, that fits a record.

  The locale \<open>ledger\<close> is the bookkeeping contract: a step moves tickets from asked to waiting to
  answered and neither loses nor invents one.
\<close>

section \<open>Books that balance\<close>

locale ledger =
  fixes step :: "'s \<Rightarrow> 'l \<Rightarrow> 's \<Rightarrow> bool"
    and asked :: "'l \<Rightarrow> 't multiset"
    and answered :: "'l \<Rightarrow> 't multiset"
    and waiting :: "'s \<Rightarrow> 't multiset"
    and inv :: "'s \<Rightarrow> bool"
  assumes inv_step: "inv s \<Longrightarrow> step s l s' \<Longrightarrow> inv s'"
    and balance: "inv s \<Longrightarrow> step s l s' \<Longrightarrow> waiting s + asked l = waiting s' + answered l"
begin

lemma inv_trace: "trace step s ls s' \<Longrightarrow> inv s \<Longrightarrow> inv s'"
  by (erule trace_invariant [where I = inv]) (auto intro: inv_step)

lemma balanced:
  assumes "trace step s ls s'" and "inv s"
  shows "waiting s + (\<Sum>l\<leftarrow>ls. asked l) = waiting s' + (\<Sum>l\<leftarrow>ls. answered l)"
  using assms
proof (induction rule: trace.induct)
  case (trace_Cons s l s' ls s'')
  have "waiting s + asked l = waiting s' + answered l"
    by (rule balance [OF trace_Cons(4,1)])
  moreover have "waiting s' + (\<Sum>l\<leftarrow>ls. asked l) = waiting s'' + (\<Sum>l\<leftarrow>ls. answered l)"
    using trace_Cons inv_step by blast
  ultimately show ?case by (simp add: algebra_simps) (metis add.assoc add.commute)
qed simp

text \<open>A ticket asked for once, and not waiting at the start, is answered at most once, and
  exactly once when it no longer waits.\<close>

lemma answered_once:
  assumes "trace step s ls s'" and "inv s" and "t \<notin># waiting s" and "count (\<Sum>l\<leftarrow>ls. asked l) t = 1"
  shows "count (\<Sum>l\<leftarrow>ls. answered l) t = (if t \<in># waiting s' then 0 else 1)"
proof -
  have "count (waiting s') t + count (\<Sum>l\<leftarrow>ls. answered l) t = 1"
    using arg_cong [OF balanced [OF assms(1,2)], of "\<lambda>m. count m t"] assms(3,4)
    by (simp add: not_in_iff)
  moreover have "t \<in># waiting s' \<longleftrightarrow> 0 < count (waiting s') t" by simp
  ultimately show ?thesis by (simp del: count_greater_zero_iff)
qed

end

section \<open>Requests and replies\<close>

text \<open>A request, by the channel its answer goes to.\<close>

datatype ticket = TPut sender | TGet sender | TDial sender | TDoctor sender

fun ticket_of :: "command \<Rightarrow> ticket" where
  "ticket_of (PutRecord _ _ s) = TPut s"
| "ticket_of (GetRecord _ s) = TGet s"
| "ticket_of (Dial _ s) = TDial s"
| "ticket_of (Doctor s) = TDoctor s"

fun reply_ticket :: "reply \<Rightarrow> ticket" where
  "reply_ticket (PutReply s _) = TPut s"
| "reply_ticket (GetReply s _) = TGet s"
| "reply_ticket (DialReply s _) = TDial s"
| "reply_ticket (DoctorReply s _) = TDoctor s"

definition asked :: "clock \<times> 'sw node_input \<times> reply list \<Rightarrow> ticket multiset" where
  "asked l = (case l of (_, Command c, _) \<Rightarrow> {#ticket_of c#} | _ \<Rightarrow> {#})"

definition answered :: "clock \<times> 'sw node_input \<times> reply list \<Rightarrow> ticket multiset" where
  "answered l = (case l of (_, _, out) \<Rightarrow> mset (map reply_ticket out))"

definition range_mset :: "('k \<rightharpoonup> 't) \<Rightarrow> 't multiset" where
  "range_mset m = {#the (m k). k \<in># mset_set (dom m)#}"

definition waiting :: "'sw node \<Rightarrow> ticket multiset" where
  "waiting nd = range_mset (map_option TPut \<circ> pending_put nd) +
     range_mset (map_option (TGet \<circ> fst) \<circ> pending_get nd)"

lemma range_mset_empty [simp]: "range_mset Map.empty = {#}"
  by (simp add: range_mset_def)

lemma range_mset_fresh:
  assumes "finite (dom m)" and "m k = None"
  shows "range_mset (m(k \<mapsto> t)) = add_mset t (range_mset m)"
proof -
  have "{#the ((m(k \<mapsto> t)) x). x \<in># mset_set (dom m)#} = {#the (m x). x \<in># mset_set (dom m)#}"
    using assms by (intro image_mset_cong) (auto simp: dom_def)
  moreover have "k \<notin> dom m" using assms(2) by auto
  ultimately show ?thesis using assms(1) by (simp add: range_mset_def)
qed

lemma range_mset_remove:
  assumes "finite (dom m)" and "m k = Some t"
  shows "range_mset m = add_mset t (range_mset (m(k := None)))"
  using range_mset_fresh [of "m(k := None)" k t] assms by (simp add: map_upd_triv)

lemma comp_fun_upd: "f \<circ> m(k := v) = (f \<circ> m)(k := f v)"
  by (auto simp: fun_eq_iff)

lemma dom_map_option_comp [simp]: "dom (map_option f \<circ> m) = dom m"
  by (auto simp: dom_def)

text \<open>Starting a query under a new id adds its ticket; ending one removes it; collecting a candidate
  leaves the tickets as they are.\<close>

lemma waiting_put:
  "finite (dom (pending_put nd)) \<Longrightarrow> pending_put nd q = None \<Longrightarrow>
   waiting (nd\<lparr>nd_swarm := sw, pending_put := (pending_put nd)(q \<mapsto> s)\<rparr>) = add_mset (TPut s) (waiting nd)"
  by (simp add: waiting_def comp_fun_upd range_mset_fresh)

lemma waiting_get:
  "finite (dom (pending_get nd)) \<Longrightarrow> pending_get nd q = None \<Longrightarrow>
   waiting (nd\<lparr>nd_swarm := sw, pending_get := (pending_get nd)(q \<mapsto> (s, acc))\<rparr>) =
     add_mset (TGet s) (waiting nd)"
  by (simp add: waiting_def comp_fun_upd range_mset_fresh)

lemma waiting_put_done:
  "finite (dom (pending_put nd)) \<Longrightarrow> pending_put nd q = Some s \<Longrightarrow>
   waiting nd = add_mset (TPut s) (waiting (nd\<lparr>pending_put := (pending_put nd)(q := None)\<rparr>))"
  using range_mset_remove [of "map_option TPut \<circ> pending_put nd" q "TPut s"]
  by (simp add: waiting_def comp_fun_upd)

lemma waiting_get_done:
  "finite (dom (pending_get nd)) \<Longrightarrow> pending_get nd q = Some (s, acc) \<Longrightarrow>
   waiting nd = add_mset (TGet s) (waiting (nd\<lparr>pending_get := (pending_get nd)(q := None)\<rparr>))"
  using range_mset_remove [of "map_option (TGet \<circ> fst) \<circ> pending_get nd" q "TGet s"]
  by (simp add: waiting_def comp_fun_upd)

lemma waiting_found:
  "pending_get nd q = Some (s, acc) \<Longrightarrow>
   waiting (nd\<lparr>pending_get := (pending_get nd)(q \<mapsto> (s, acc'))\<rparr>) = waiting nd"
  by (simp add: waiting_def comp_fun_upd fun_upd_idem)

lemma waiting_other [simp]:
  "waiting (nd\<lparr>nd_swarm := sw\<rparr>) = waiting nd" "waiting (nd\<lparr>rtt := m\<rparr>) = waiting nd"
  "waiting (nd\<lparr>external_addrs := as\<rparr>) = waiting nd"
  by (simp_all add: waiting_def)

lemma command_balance:
  assumes "query_laws S V" and "node_ok V nd" and "handle_command X S clk nd c = (nd', out)"
  shows "add_mset (ticket_of c) (waiting nd) = waiting nd' + mset (map reply_ticket out)"
proof -
  have new: "q \<notin> vw_used V (nd_swarm nd) \<Longrightarrow> pending_put nd q = None \<and> pending_get nd q = None" for q
    using assms(2) by (auto simp: node_ok_def)
  have "finite (dom (pending_put nd))" "finite (dom (pending_get nd))"
    using assms(2) by (simp_all add: node_ok_def)
  moreover have "kad_put_record S (nd_swarm nd) r = (Ok q, sw) \<Longrightarrow> pending_put nd q = None" for r q sw
    using new query_lawsD [OF assms(1)] by metis
  moreover have "kad_get_record S (nd_swarm nd) k = (q, sw) \<Longrightarrow> pending_get nd q = None" for k q sw
    using new query_lawsD [OF assms(1)] by metis
  ultimately show ?thesis
    using assms(3)
    by (cases c) (auto simp: handle_command_def Let_def waiting_put waiting_get
        split: prod.splits sum.splits)
qed

lemma kad_result_balance:
  assumes "node_ok V nd" and "handle_kad_result nd q r = (nd', out)"
  shows "waiting nd = waiting nd' + mset (map reply_ticket out)"
  using assms
  by (cases r) (auto simp: handle_kad_result_def node_ok_def waiting_found waiting_put_done waiting_get_done
      split: option.splits if_splits)

lemma event_balance:
  assumes "node_ok V nd" and "handle_event X S clk nd ev = (nd', out)"
  shows "waiting nd = waiting nd' + mset (map reply_ticket out)"
  using assms kad_result_balance [OF assms(1)]
  by (cases ev) (auto simp: handle_event_def split: if_splits)

interpretation requests: ledger "node_step X S V" asked answered waiting
  "\<lambda>nd. query_laws S V \<and> node_ok V nd"
  for X :: "'a externs_scheme" and S :: "'sw swarm_ops" and V :: "('o, 'sw) swarm_view"
proof
  fix nd nd' :: "'sw node" and l
  assume inv: "query_laws S V \<and> node_ok V nd" and step: "node_step X S V nd l nd'"
  obtain clk i out where l: "l = (clk, i, out)" by (cases l)
  show "query_laws S V \<and> node_ok V nd'"
    using node_step_ok inv step unfolding l by blast
  show "waiting nd + asked l = waiting nd' + answered l"
    using step inv command_balance [of S V nd X clk _ nd' out] event_balance [of V nd X S clk _ nd' out]
    unfolding l by cases (auto simp: asked_def answered_def)
qed

lemma spawn_waiting: "spawn L v B S secret cfg = Some (Ok (peer, nd)) \<Longrightarrow> waiting nd = {#}"
  by (erule spawn_OkE) (simp add: waiting_def comp_def)

text \<open>C8. Every request is answered exactly once: from \<^verbatim>\<open>spawn\<close> on, under every sequence of commands, events and polls, the
  requests made are, with multiplicity and by kind and channel, those answered and those still in a
  table; so a request made on a channel of its own gets no second answer and no answer meant for
  another, and has its answer as soon as it is in no table.\<close>

theorem requests_answered_once:
  assumes "query_laws S V" and "spawn L v B S secret cfg = Some (Ok (peer, nd))"
    and "trace (node_step X S V) nd ls nd'"
  shows "(\<Sum>l\<leftarrow>ls. asked l) = waiting nd' + (\<Sum>l\<leftarrow>ls. answered l) \<and>
    (count (\<Sum>l\<leftarrow>ls. asked l) t = 1 \<longrightarrow>
       count (\<Sum>l\<leftarrow>ls. answered l) t = (if t \<in># waiting nd' then 0 else 1))"
proof -
  have inv: "query_laws S V \<and> node_ok V nd" using assms(1) spawn_node_ok [OF assms(2)] by blast
  show ?thesis
    using requests.balanced [OF assms(3) inv] requests.answered_once [OF assms(3) inv, of t]
    by (simp add: spawn_waiting [OF assms(2)])
qed

section \<open>What a lookup returns\<close>

fun found :: "query_id \<Rightarrow> 'sw node_input \<Rightarrow> bytes list" where
  "found q (Event (KadQueryProgressed i (QFoundRecord r))) =
     (if i = q \<and> length (kr_value r) \<le> MAX_RECORD_BYTES then [kr_value r] else [])"
| "found q _ = []"

fun ends_get :: "query_id \<Rightarrow> 'sw node_input \<Rightarrow> bool" where
  "ends_get q (Event (KadQueryProgressed i QFinishedWithNoAdditionalRecord)) \<longleftrightarrow> i = q"
| "ends_get q (Event (KadQueryProgressed i (QGetRecordErr _))) \<longleftrightarrow> i = q"
| "ends_get q _ \<longleftrightarrow> False"

lemma pending_get_step:
  assumes "query_laws S V" and "node_ok V nd" and "pending_get nd q = Some (s, acc)"
    and "node_step X S V nd (clk, i, out) nd'" and "\<not> ends_get q i"
  shows "pending_get nd' q = Some (s, acc @ found q i)"
  using assms(4)
proof cases
  case (on_command c)
  have "q \<in> vw_used V (nd_swarm nd)" using assms(2,3) by (auto simp: node_ok_def)
  then have "kad_get_record S (nd_swarm nd) k \<noteq> (q, sw)" for k sw
    using query_lawsD(2) [OF assms(1)] by metis
  then show ?thesis
    using on_command assms(3)
    by (cases c) (auto simp: handle_command_def Let_def split: prod.splits sum.splits)
next
  case (on_event ev)
  have "pending_get (fst (handle_kad_result nd i' r)) q = Some (s, acc @ found q i)"
    if "i = Event (KadQueryProgressed i' r)" for i' r
    using that assms(3,5) by (cases r) (auto simp: handle_kad_result_def split: option.split)
  then show ?thesis
    using on_event assms(3) by (cases ev) (auto simp: handle_event_def split: if_splits)
next
  case (on_poll sw)
  then show ?thesis using assms(3) by simp
qed

lemma pending_get_trace:
  assumes "query_laws S V" and "node_ok V nd" and "pending_get nd q = Some (s, acc)"
    and "trace (node_step X S V) nd ls nd'" and "\<forall>(clk, i, out) \<in> set ls. \<not> ends_get q i"
  shows "pending_get nd' q = Some (s, acc @ concat (map (\<lambda>(clk, i, out). found q i) ls))"
  using assms(4,2,3,5)
proof (induction arbitrary: acc rule: trace.induct)
  case (trace_Cons nd l nd1 ls nd')
  obtain clk i out where l: "l = (clk, i, out)" by (cases l)
  have "pending_get nd1 q = Some (s, acc @ found q i)"
    using pending_get_step [OF assms(1) trace_Cons(4,5)] trace_Cons(1,6) unfolding l by auto
  moreover have "node_ok V nd1" using node_step_ok [OF assms(1) trace_Cons(4)] trace_Cons(1) unfolding l by blast
  ultimately show ?case using trace_Cons(3,6) by (simp add: l)
qed simp

lemma ends_get_reply:
  assumes "pending_get nd q = Some (s, acc)" and "ends_get q i" and "i = Event ev"
  shows "handle_event X S clk nd ev = (nd\<lparr>pending_get := (pending_get nd)(q := None)\<rparr>, [GetReply s (Ok acc)])"
  using assms(2)
proof (cases "(q, i)" rule: ends_get.cases)
qed (use assms in \<open>auto simp: handle_event_def handle_kad_result_def\<close>)

text \<open>The run of \<open>demo_ls\<close>: an inbound record, then a lookup that finds one record.\<close>

theorem requests_answered_once_witness:
  "\<exists>nd'. trace (node_step demo_externs live_swarm live_view) live_node demo_ls nd' \<and>
     TGet 7 \<notin># waiting nd' \<and> count (\<Sum>l\<leftarrow>demo_ls. answered l) (TGet 7) = 1"
proof -
  obtain nd' where t: "trace (node_step demo_externs live_swarm live_view) live_node demo_ls nd'"
    using demo_ls_trace by blast
  have "count (\<Sum>l\<leftarrow>demo_ls. asked l) (TGet 7) = 1"
    by (simp add: demo_ls_def asked_def Let_def)
  then have "count (\<Sum>l\<leftarrow>demo_ls. answered l) (TGet 7) = (if TGet 7 \<in># waiting nd' then 0 else 1)"
    by (rule requests_answered_once [OF live_query_laws demo_spawn t, THEN conjunct2, rule_format])
  moreover have "count (\<Sum>l\<leftarrow>demo_ls. answered l) (TGet 7) = 1"
    by (simp add: demo_ls_def answered_def Let_def)
  ultimately show ?thesis using t by (metis zero_neq_one)
qed

end
