(* ===== verification/Net_Handle.thy ===== *)
theory Net_Handle
  imports Net_Queries
begin

text \<open>
  \<^verbatim>\<open>NetHandle\<close> of \<^verbatim>\<open>crates/net/src/node.rs\<close>: its methods send a command with a fresh \<^verbatim>\<open>oneshot\<close> channel to the
  network task and wait for the answer on that channel. The world of a handle is the task with what
  will happen to it: a schedule of inputs, each with the clocks at its time. A method's command
  is handled at the current time; then the task takes inputs from the schedule until one of them
  answers. A task that ends drops its channels; it also ends where the schedule does.
\<close>

section \<open>The task behind a handle\<close>

record 'sw net_world =
  nw_node :: "'sw node"
  nw_running :: bool
  nw_clock :: clock
  nw_inputs :: "(clock \<times> 'sw node_input) list"
  nw_sender :: sender \<comment> \<open>the next channel\<close>

text \<open>One turn of \<open>event_loop\<close>; \<open>None\<close> when it ends the loop.\<close>

definition node_turn ::
  "'a externs_scheme \<Rightarrow> 'sw swarm_ops \<Rightarrow> 'sw node \<Rightarrow> clock \<Rightarrow> 'sw node_input
     \<Rightarrow> ('sw node \<times> reply list) option" where
  "node_turn X S nd clk i =
     (case i of
        Command c \<Rightarrow> Some (handle_command X S clk nd c)
      | Event ev \<Rightarrow> Some (handle_event X S clk nd ev)
      | SwarmPolled sw \<Rightarrow> Some (nd\<lparr>nd_swarm := sw\<rparr>, [])
      | Closed \<Rightarrow> None)"

text \<open>Time does not run backwards: an input scheduled for the past comes now.\<close>

definition later :: "clock \<Rightarrow> clock \<Rightarrow> clock" where
  "later c c' = (if mono_now c \<le> mono_now c' then c' else c)"

fun await ::
  "'a externs_scheme \<Rightarrow> 'sw swarm_ops \<Rightarrow> ticket \<Rightarrow> 'sw net_world \<Rightarrow> 'sw node
     \<Rightarrow> (clock \<times> 'sw node_input) list \<Rightarrow> reply option \<times> 'sw net_world" where
  "await X S t w nd [] = (None, w\<lparr>nw_node := nd, nw_running := False, nw_inputs := []\<rparr>)"
| "await X S t w nd ((clk, i) # is) =
     (case node_turn X S nd clk i of
        None \<Rightarrow> (None, w\<lparr>nw_node := nd, nw_running := False, nw_clock := later (nw_clock w) clk, nw_inputs := is\<rparr>)
      | Some (nd, out) \<Rightarrow>
          (case List.find (\<lambda>r. reply_ticket r = t) out of
             Some r \<Rightarrow> (Some r, w\<lparr>nw_node := nd, nw_clock := later (nw_clock w) clk, nw_inputs := is\<rparr>)
           | None \<Rightarrow> await X S t w nd is))"

text \<open>\<^verbatim>\<open>self.tx.send(..).await.map_err(closed)?; rx.await.map_err(closed)\<close>: \<open>None\<close> is \<open>closed\<close>.\<close>

definition NetHandle_call ::
  "'a externs_scheme \<Rightarrow> 'sw swarm_ops \<Rightarrow> (sender \<Rightarrow> command) \<Rightarrow> 'sw net_world
     \<Rightarrow> reply option \<times> 'sw net_world" where
  "NetHandle_call X S mk w =
     (if \<not> nw_running w then (None, w)
      else
        let cmd = mk (nw_sender w);
            (nd, out) = handle_command X S (nw_clock w) (nw_node w) cmd;
            w = w\<lparr>nw_node := nd, nw_sender := nw_sender w + 1\<rparr>
        in (case List.find (\<lambda>r. reply_ticket r = ticket_of cmd) out of
              Some r \<Rightarrow> (Some r, w)
            | None \<Rightarrow> await X S (ticket_of cmd) w nd (nw_inputs w)))"

section \<open>The methods\<close>

definition NetHandle_put_record ::
  "'a externs_scheme \<Rightarrow> 'sw swarm_ops \<Rightarrow> 'sw net_world \<Rightarrow> bytes \<Rightarrow> bytes
     \<Rightarrow> (anyhow, unit) result \<times> 'sw net_world" where
  "NetHandle_put_record X S w key val =
     (case NetHandle_call X S (PutRecord key val) w of
        (Some (PutReply _ r), w) \<Rightarrow> (r, w)
      | (_, w) \<Rightarrow> (Err closed, w))"

definition NetHandle_get_record ::
  "'a externs_scheme \<Rightarrow> 'sw swarm_ops \<Rightarrow> 'sw net_world \<Rightarrow> bytes
     \<Rightarrow> (anyhow, bytes list) result \<times> 'sw net_world" where
  "NetHandle_get_record X S w key =
     (case NetHandle_call X S (GetRecord key) w of
        (Some (GetReply _ r), w) \<Rightarrow> (r, w)
      | (_, w) \<Rightarrow> (Err closed, w))"

definition NetHandle_dial ::
  "'a externs_scheme \<Rightarrow> 'sw swarm_ops \<Rightarrow> 'sw net_world \<Rightarrow> multiaddr
     \<Rightarrow> (anyhow, unit) result \<times> 'sw net_world" where
  "NetHandle_dial X S w addr =
     (case NetHandle_call X S (Dial addr) w of
        (Some (DialReply _ r), w) \<Rightarrow> (r, w)
      | (_, w) \<Rightarrow> (Err closed, w))"

definition NetHandle_doctor ::
  "'a externs_scheme \<Rightarrow> 'sw swarm_ops \<Rightarrow> 'sw net_world
     \<Rightarrow> (anyhow, doctor_info) result \<times> 'sw net_world" where
  "NetHandle_doctor X S w =
     (case NetHandle_call X S Doctor w of
        (Some (DoctorReply _ info), w) \<Rightarrow> (Ok info, w)
      | (_, w) \<Rightarrow> (Err closed, w))"

text \<open>The RTT table is shared with the task and outlives it.\<close>

definition NetHandle_rtt_ms :: "'sw net_world \<Rightarrow> peer_id \<Rightarrow> u64 option" where
  "NetHandle_rtt_ms w peer = rtt (nw_node w) peer"

section \<open>A lookup through the task\<close>

lemma node_step_turn: "node_step X S V nd (clk, i, out) nd' \<Longrightarrow> node_turn X S nd clk i = Some (nd', out)"
  by (erule node_step.cases) (simp_all add: node_turn_def)

lemma await_trace:
  assumes "trace (node_step X S V) nd ls nd'" and "t \<notin># (\<Sum>l\<leftarrow>ls. answered l)"
  shows "await X S t w nd (map (\<lambda>(clk, i, out). (clk, i)) ls @ is) = await X S t w nd' is"
  using assms
proof (induction rule: trace.induct)
  case (trace_Cons nd l nd1 ls nd')
  obtain clk i out where l: "l = (clk, i, out)" by (cases l)
  have "List.find (\<lambda>r. reply_ticket r = t) out = None"
    using trace_Cons(4) by (auto simp: l answered_def find_None_iff)
  moreover have "node_turn X S nd clk i = Some (nd1, out)"
    using trace_Cons(1) unfolding l by (rule node_step_turn)
  ultimately show ?case using trace_Cons(3,4) by (simp add: l)
qed simp

text \<open>A ticket that is new at the start and waits at the end was not answered in between.\<close>

lemma still_waiting:
  assumes "query_laws S V" and "node_ok V nd" and "trace (node_step X S V) nd ls nd'"
    and "count (waiting nd) t = 1" and "t \<notin># (\<Sum>l\<leftarrow>ls. asked l)" and "t \<in># waiting nd'"
  shows "t \<notin># (\<Sum>l\<leftarrow>ls. answered l)"
proof -
  have "count (waiting nd) t + count (\<Sum>l\<leftarrow>ls. asked l) t = count (waiting nd') t + count (\<Sum>l\<leftarrow>ls. answered l) t"
    using requests.balanced [OF assms(3)] assms(1,2) by (metis count_union)
  moreover have "count (\<Sum>l\<leftarrow>ls. asked l) t = 0" using assms(5) by (metis not_in_iff)
  moreover have "0 < count (waiting nd') t" using assms(6) by simp
  ultimately have "count (\<Sum>l\<leftarrow>ls. answered l) t = 0" using assms(4) by linarith
  then show ?thesis by (metis not_in_iff)
qed

lemma waiting_getI:
  assumes "finite (dom (pending_get nd))" and "pending_get nd q = Some (s, acc)"
  shows "TGet s \<in># waiting nd"
  using assms waiting_get_done by fastforce

text \<open>
  The course of a lookup: the handle's command starts the query \<open>q\<close>; the task goes through the labels
  \<open>ls\<close>, none of which ends \<open>q\<close> or uses the same channel; then the input \<open>i\<close> at time \<open>clk\<close> ends \<open>q\<close>.
\<close>

definition lookup_run ::
  "'a externs_scheme \<Rightarrow> 'sw swarm_ops \<Rightarrow> ('o, 'sw) swarm_view \<Rightarrow> 'sw net_world \<Rightarrow> bytes \<Rightarrow> query_id
     \<Rightarrow> (clock \<times> 'sw node_input \<times> reply list) list \<Rightarrow> clock \<Rightarrow> (clock \<times> 'sw node_input) list \<Rightarrow> bool" where
  "lookup_run X S V w key q ls clk rest \<longleftrightarrow>
     nw_running w \<and>
     (\<exists>sw nd2 i. kad_get_record S (nd_swarm (nw_node w)) key = (q, sw) \<and>
        trace (node_step X S V)
          ((nw_node w)\<lparr>nd_swarm := sw, pending_get := (pending_get (nw_node w))(q \<mapsto> (nw_sender w, []))\<rparr>) ls nd2 \<and>
        TGet (nw_sender w) \<notin># (\<Sum>l\<leftarrow>ls. asked l) \<and>
        (\<forall>(c, j, out) \<in> set ls. \<not> ends_get q j) \<and> ends_get q i \<and>
        nw_inputs w = map (\<lambda>(c, j, out). (c, j)) ls @ (clk, i) # rest)"

definition candidates :: "query_id \<Rightarrow> (clock \<times> 'sw node_input \<times> reply list) list \<Rightarrow> bytes list" where
  "candidates q ls = concat (map (\<lambda>(c, j, out). found q j) ls)"

lemma lookup_run_answer:
  assumes "query_laws S V" and "node_ok V (nw_node w)" and "TGet (nw_sender w) \<notin># waiting (nw_node w)"
    and "lookup_run X S V w key q ls clk rest"
  obtains w' where "NetHandle_get_record X S w key = (Ok (candidates q ls), w')"
    "nw_running w'" "nw_clock w' = later (nw_clock w) clk" "nw_inputs w' = rest" "nw_sender w' = nw_sender w + 1"
    "pending_get (nw_node w') q = None"
proof -
  let ?t = "TGet (nw_sender w)" and ?nd = "nw_node w"
  obtain sw nd2 i where run: "nw_running w" "kad_get_record S (nd_swarm ?nd) key = (q, sw)"
    "trace (node_step X S V)
       (?nd\<lparr>nd_swarm := sw, pending_get := (pending_get ?nd)(q \<mapsto> (nw_sender w, []))\<rparr>) ls nd2"
    "?t \<notin># (\<Sum>l\<leftarrow>ls. asked l)" "\<forall>(c, j, out) \<in> set ls. \<not> ends_get q j" "ends_get q i"
    "nw_inputs w = map (\<lambda>(c, j, out). (c, j)) ls @ (clk, i) # rest"
    using assms(4) unfolding lookup_run_def by blast
  define nd1 where "nd1 = ?nd\<lparr>nd_swarm := sw, pending_get := (pending_get ?nd)(q \<mapsto> (nw_sender w, []))\<rparr>"
  have cmd: "handle_command X S (nw_clock w) ?nd (GetRecord key (nw_sender w)) = (nd1, [])"
    using run(2) by (simp add: handle_command_def nd1_def)
  note ok1 = handle_command_ok(1) [OF assms(1,2), of X "nw_clock w" "GetRecord key (nw_sender w)",
      unfolded cmd fst_conv]
  have "waiting nd1 = add_mset ?t (waiting ?nd)"
    using command_balance [OF assms(1,2) cmd] by simp
  then have one: "count (waiting nd1) ?t = 1" using assms(3) by (simp add: not_in_iff)
  have "pending_get nd1 q = Some (nw_sender w, [])" by (simp add: nd1_def)
  from pending_get_trace [OF assms(1) ok1 this run(3) [folded nd1_def] run(5)]
  have p: "pending_get nd2 q = Some (nw_sender w, candidates q ls)" by (simp add: candidates_def)
  have "finite (dom (pending_get nd2))"
    using requests.inv_trace [OF run(3) [folded nd1_def]] assms(1) ok1 by (simp add: node_ok_def)
  from still_waiting [OF assms(1) ok1 run(3) [folded nd1_def] one run(4) waiting_getI [OF this p]]
  have aw: "await X S ?t w' nd1 (nw_inputs w) = await X S ?t w' nd2 ((clk, i) # rest)" for w'
    unfolding run(7) by (rule await_trace [OF run(3) [folded nd1_def]])
  obtain ev where i: "i = Event ev" using run(6) by (cases i) auto
  have "NetHandle_get_record X S w key = (Ok (candidates q ls),
      w\<lparr>nw_node := nd2\<lparr>pending_get := (pending_get nd2)(q := None)\<rparr>, nw_clock := later (nw_clock w) clk,
        nw_inputs := rest, nw_sender := nw_sender w + 1\<rparr>)"
    using ends_get_reply [OF p run(6) i, of X S clk] cmd run(1) aw
    by (simp add: NetHandle_get_record_def NetHandle_call_def node_turn_def i)
  then show thesis by (rule that) (use run(1) in simp_all)
qed

text \<open>C6. A lookup through \<^verbatim>\<open>NetHandle::get_record\<close>, at any time in the life of a spawned node: a call on a new channel starts one
  query and returns when that query ends, with every value found for it meanwhile that fits a record, in
  the order of arrival; whatever else the task does in between (other requests, inbound records, other
  queries) neither adds nor removes a candidate, and nothing else answers the call.\<close>

theorem NetHandle_get_record_answer:
  assumes "query_laws S V" and "spawn L v B S secret cfg = Some (Ok (peer, nd))"
    and "trace (node_step X S V) nd ls0 (nw_node w)" and "TGet (nw_sender w) \<notin># (\<Sum>l\<leftarrow>ls0. asked l)"
    and "lookup_run X S V w key q ls clk rest"
  shows "\<exists>w'. NetHandle_get_record X S w key = (Ok (concat (map (\<lambda>(c, j, out). found q j) ls)), w') \<and>
    nw_running w' \<and> nw_clock w' = later (nw_clock w) clk \<and> nw_inputs w' = rest \<and> pending_get (nw_node w') q = None"
proof -
  have inv: "query_laws S V \<and> node_ok V nd" using assms(1) spawn_node_ok [OF assms(2)] by blast
  have "waiting (nw_node w) \<subseteq># (\<Sum>l\<leftarrow>ls0. asked l)"
    using requests.balanced [OF assms(3) inv] spawn_waiting [OF assms(2)] by simp
  then have "TGet (nw_sender w) \<notin># waiting (nw_node w)" using assms(4) by (meson mset_subset_eqD)
  moreover have "node_ok V (nw_node w)" using requests.inv_trace [OF assms(3) inv] by blast
  ultimately show ?thesis
    using lookup_run_answer [OF assms(1) _ _ assms(5)] unfolding candidates_def by metis
qed

text \<open>A lookup on the concrete node: two records arrive for its query and one for another.\<close>

definition demo_world :: "live_sw net_world" where
  "demo_world = \<lparr>nw_node = live_node, nw_running = True, nw_clock = demo_clock 1900000000,
     nw_inputs = map (Pair (demo_clock 1900000000))
       [Event (KadQueryProgressed 0 (QFoundRecord (demo_put 5))),
        Event (KadQueryProgressed 1 (QFoundRecord (demo_put 6))),
        Event (KadQueryProgressed 0 QFinishedWithNoAdditionalRecord)],
     nw_sender = 7\<rparr>"

theorem NetHandle_get_record_answer_witness:
  "\<exists>w'. NetHandle_get_record demo_externs live_swarm demo_world [1] = (Ok [kr_value (demo_put 5)], w') \<and> nw_running w'"
proof -
  let ?c = "demo_clock 1900000000"
  let ?e1 = "Event (KadQueryProgressed 0 (QFoundRecord (demo_put 5))) :: live_sw node_input"
  let ?e2 = "Event (KadQueryProgressed 1 (QFoundRecord (demo_put 6))) :: live_sw node_input"
  let ?ls = "[(?c, ?e1, []), (?c, ?e2, [])]"
  have len: "length (kr_value (demo_put t)) \<le> MAX_RECORD_BYTES" for t
    using demo_record_length [of t] by (simp add: demo_put_def)
  have "lookup_run demo_externs live_swarm live_view demo_world [1] 0 ?ls ?c []"
    using len
    by (simp add: lookup_run_def demo_world_def live_node_def live_defs handle_event_def
        handle_kad_result_def asked_def)
  from NetHandle_get_record_answer [OF live_query_laws demo_spawn _ _ this, where ?ls0.0 = "[]"] len
  show ?thesis by (auto simp: demo_world_def)
qed

end
