(* ===== verification/Cli_Node_Env.thy ===== *)
theory Cli_Node_Env
  imports Cli_Tunnel Net_Handle
begin

text \<open>
  The environment of \<^verbatim>\<open>Cli_Tunnel\<close> made of a node: \<^verbatim>\<open>tunnel.rs\<close> calls its \<^verbatim>\<open>NetHandle\<close>, and the calls are answered by the
  node's event loop as in \<^verbatim>\<open>Net_Handle\<close>. The record \<open>net_env\<close> is the interface; \<open>node_env\<close> provides it on the
  model of \<^verbatim>\<open>crates/net\<close>, so what is proved of resolving and publishing for every environment holds of the composed
  program.
\<close>

section \<open>Time\<close>

text \<open>\<^verbatim>\<open>tokio::time::sleep\<close>: the node handles what is scheduled until then.\<close>

definition advance :: "nat \<Rightarrow> clock \<Rightarrow> clock" where
  "advance d clk = \<lparr>wall_secs = wall_secs clk + word_of_nat (d div 1000000000), mono_now = mono_now clk + d\<rparr>"

fun run_until ::
  "'a externs_scheme \<Rightarrow> 'sw swarm_ops \<Rightarrow> instant \<Rightarrow> 'sw node \<Rightarrow> (clock \<times> 'sw node_input) list
     \<Rightarrow> 'sw node \<times> bool \<times> (clock \<times> 'sw node_input) list" where
  "run_until X S t nd [] = (nd, True, [])"
| "run_until X S t nd ((clk, i) # is) =
     (if t < mono_now clk then (nd, True, (clk, i) # is)
      else case node_turn X S nd clk i of
             None \<Rightarrow> (nd, False, is)
           | Some (nd, out) \<Rightarrow> run_until X S t nd is)"

definition world_sleep :: "'a externs_scheme \<Rightarrow> 'sw swarm_ops \<Rightarrow> nat \<Rightarrow> 'sw net_world \<Rightarrow> 'sw net_world" where
  "world_sleep X S d w =
     (let clk = advance d (nw_clock w) in
      if nw_running w then
        (case run_until X S (mono_now clk) (nw_node w) (nw_inputs w) of (nd, running, is) \<Rightarrow>
           w\<lparr>nw_node := nd, nw_running := running, nw_inputs := is, nw_clock := clk\<rparr>)
      else w\<lparr>nw_clock := clk\<rparr>)"

section \<open>The environment\<close>

definition node_env ::
  "'a externs_scheme \<Rightarrow> 'sw swarm_ops \<Rightarrow> (bytes \<Rightarrow> (string, peer_id) result) \<Rightarrow> 'sw net_world net_env" where
  "node_env X S ed25519_peer = \<lparr>
     ne_system_time = (\<lambda>w. uint (wall_secs (nw_clock w)) * 1000000000),
     ne_mono = (\<lambda>w. mono_now (nw_clock w)),
     ne_sleep = world_sleep X S,
     ne_get_record = NetHandle_get_record X S,
     ne_put_record = NetHandle_put_record X S,
     ne_dial = NetHandle_dial X S,
     ne_doctor = NetHandle_doctor X S,
     ne_ed25519_peer = ed25519_peer,
     ne_multiaddr = multiaddr_parse S\<rparr>"

lemma node_env_now [simp]: "now_secs (node_env X S P) w = wall_secs (nw_clock w)"
  by (simp add: now_secs_def node_env_def)

lemma node_env_simps [simp]:
  "ne_get_record (node_env X S P) = NetHandle_get_record X S"
  "ne_ed25519_peer (node_env X S P) = P"
  by (simp_all add: node_env_def)

section \<open>Its clock\<close>

lemma await_time: "mono_now (nw_clock w) \<le> mono_now (nw_clock (snd (await X S t w nd is)))"
  by (induction X S t w nd "is" rule: await.induct) (auto simp: later_def split: option.split)

lemma call_time: "mono_now (nw_clock w) \<le> mono_now (nw_clock (snd (NetHandle_call X S mk w)))"
  using await_time [of "w\<lparr>nw_node := nd, nw_sender := nw_sender w + 1\<rparr>" X S _ nd "nw_inputs w" for nd]
  by (auto simp: NetHandle_call_def Let_def split: prod.split option.split)

text \<open>The composed program keeps time as the resolve loop needs it, whatever the schedule is.\<close>

lemma node_env_clock: "clock_laws (node_env X S P)"
proof -
  have "mono_now (nw_clock w) + d = mono_now (nw_clock (world_sleep X S d w))" for d w
    by (auto simp: world_sleep_def advance_def Let_def split: prod.split)
  moreover have "mono_now (nw_clock w) \<le> mono_now (nw_clock (snd (NetHandle_get_record X S w k)))" for w k
  proof -
    have "snd (NetHandle_get_record X S w k) = snd (NetHandle_call X S (GetRecord k) w)"
      by (simp add: NetHandle_get_record_def split: prod.split option.split reply.split)
    then show ?thesis using call_time by metis
  qed
  ultimately show ?thesis by (simp add: clock_laws_def node_env_def)
qed

end
