(* ===== verification/Spec2Isabelle.thy ===== *)
theory Spec2Isabelle
  imports Cli_Main Cli_Node_Env
begin

text \<open>
  A verification development of \<^bold>\<open>dotminecraft\<close>, a peer-to-peer tunnel for Minecraft servers: a player types a
  self-certifying name such as \<^verbatim>\<open>survival.<keyid>.minecraft\<close> and is tunnelled to the server of the owner of that key,
  without a central directory. All paths below are under \<^verbatim>\<open>src/\<close>.

  \<^bold>\<open>The program.\<close> \<^verbatim>\<open>crates/core\<close> has the pure part: names (a prefix of the base32 SHA-256 of a public key), the
  local identity, and signed location records with their verification. \<^verbatim>\<open>crates/net\<close> runs a libp2p node as one task:
  handles send it commands, it keeps tables of the DHT queries in flight, filters the records other peers ask it
  to store, and answers on one-shot channels. \<^verbatim>\<open>crates/proxy\<close> moves connections: \<^verbatim>\<open>run_publish\<close> accepts
  streams from peers and opens tunnels to the local server under a cap and a rate limit, \<^verbatim>\<open>run_connect\<close> accepts local
  connections and opens streams to one peer. \<^verbatim>\<open>crates/cli\<close> composes these: the key store, the configuration, the
  subcommands, publishing and republishing, resolving and connecting, the local agent with its control protocol,
  and the grinding of vanity prefixes by threads.

  \<^bold>\<open>Theories.\<close> In the order of the imports:
  \<^item> \<open>Tunnel_Prelude\<close>: \<open>u64\<close> and \<open>usize\<close> words, byte strings, \<open>result\<close> with \<open>tryq\<close> (Rust's \<^verbatim>\<open>?\<close>), the \<^verbatim>\<open>str\<close> methods used
    (UTF-8 \<^verbatim>\<open>trim\<close> included), saturating arithmetic, \<open>trace\<close> (runs of a labelled step relation) with its invariant
    rule, and the locales \<open>text_form\<close> (parsing inverts printing) and \<open>newest_register\<close> (a step relation on a
    register that keeps the newest value, whatever the order).
  \<^item> \<open>Core_Externs\<close>, \<open>Core_Name\<close>, \<open>Core_Identity\<close>, \<open>Core_Record\<close>: \<^verbatim>\<open>crates/core/src/\<close> \<^verbatim>\<open>lib.rs\<close>, \<^verbatim>\<open>error.rs\<close>, \<^verbatim>\<open>name.rs\<close>,
    \<^verbatim>\<open>identity.rs\<close>, \<^verbatim>\<open>record.rs\<close>. The exact domain and the errors of \<open>Name_parse\<close> and \<open>Record_verify\<close>, round trips, and
    authenticity and newest-wins of \<open>select_verified\<close>.
  \<^item> \<open>F64\<close>, \<open>Proxy_Rate\<close>, \<open>Proxy\<close>: \<^verbatim>\<open>crates/proxy/src/lib.rs\<close>. Doubles as rationals rounded to 53 bits (locale
    \<open>rounding\<close>); the token bucket and its bounds; the two accept loops with the tasks they spawn as interleaving step
    relations, over the locales \<open>admission\<close> (the count, and where tunnels lead) and \<open>rated_admission\<close>, interpreted on
    both.
  \<^item> \<open>Net_Behaviour\<close>: \<^verbatim>\<open>crates/net/src/behaviour.rs\<close>, what \<^verbatim>\<open>Behaviour::new\<close> configures.
  \<^item> \<open>Net_Node\<close>, \<open>Net_Storage\<close>, \<open>Net_Lifetime\<close>, \<open>Net_Queries\<close>, \<open>Net_Handle\<close>: \<^verbatim>\<open>crates/net/src/node.rs\<close>. The
    first has every handler of the event loop and \<open>spawn\<close>; the others prove what the store holds (a refinement of
    \<open>newest_register\<close> by every put that finds room, what \<open>storage_step\<close>s in any order lead to, and its authorisation
    from \<open>spawn\<close> on), that the state stays well formed, that every request
    is answered once (locale \<open>ledger\<close>), and what a call of a \<^verbatim>\<open>NetHandle\<close> method returns.
  \<^item> \<open>Net_Lib\<close>: \<^verbatim>\<open>crates/net/src/lib.rs\<close>.
  \<^item> \<open>Cli_Os\<close>, \<open>Std_Net\<close>: what \<^verbatim>\<open>crates/cli\<close> uses of the standard library: files with modes and faults, decimal numbers,
    UTF-8, and the parser of socket addresses.
  \<^item> \<open>Cli_Keystore\<close>, \<open>Cli_Config\<close>, \<open>Cli_Grind\<close>: the modules of \<^verbatim>\<open>crates/cli/src\<close> of these names.
  \<^item> \<open>Cli_Main\<close>: \<^verbatim>\<open>crates/cli/src/main.rs\<close>. \<open>dispatch\<close> is the \<^verbatim>\<open>match\<close> of \<^verbatim>\<open>main\<close>, \<open>session_run\<close> the session of a
    networked command at any point of its life, \<open>main\<close> the whole process on its machine.
  \<^item> \<open>Cli_Tunnel\<close>, \<open>Cli_Session\<close>: \<^verbatim>\<open>crates/cli/src/tunnel.rs\<close>. The first has the functions that resolve, verify, dial and
    publish over the interface \<open>net_env\<close>; the second the whole commands \<^verbatim>\<open>publish\<close>, \<^verbatim>\<open>connect\<close>, \<^verbatim>\<open>relay\<close> and \<^verbatim>\<open>doctor\<close> with what they
    print. A \<open>session_step\<close> is a step of the command, of one of the tunnel tasks its proxy has spawned (they go on when
    the command has returned) or of the republishing task, which can be interrupted at each of its awaits and ends by
    \<^verbatim>\<open>abort\<close> only. The locale \<open>proxy_service\<close> is what a session relies on of its proxy, interpreted on both loops.
  \<^item> \<open>Cli_Agent\<close>, \<open>Cli_Agent_Run\<close>: \<^verbatim>\<open>crates/cli/src/agent.rs\<close>, one request, one connection (whose client may close
    it, break it or stay silent), concurrent requests, and the whole life of the agent, with the connections that
    outlive its loop.
  \<^item> \<open>Cli_Node_Env\<close>: \<open>net_env\<close> provided by the model of the node, so that what is proved of \<open>resolve\<close> and
    \<open>establish\<close> holds of \<^verbatim>\<open>crates/cli\<close> on top of \<^verbatim>\<open>crates/net\<close>.
  \<^item> this theory: the properties that span components, from a publisher over a storage node to a client, and from
    the prefix asked of \<^verbatim>\<open>init\<close> to the name that is published.

  \<^bold>\<open>How code becomes definitions.\<close> A function of the source is a definition of the same name, with the type's name
  first for a method (\<open>Name_parse\<close> is \<^verbatim>\<open>Name::parse\<close>). A struct is a record, an enum a datatype, \<^verbatim>\<open>Result\<close> a sum, a
  panic the result \<open>None\<close>. State is passed and returned. Where tasks or threads interleave, a step is the code between
  two accesses of what they share (or two await points), as an inductive relation or as a function from a label
  to the next state; the theorems hold for every interleaving. \<^verbatim>\<open>u64\<close> and \<^verbatim>\<open>usize\<close> are 64-bit words where their arithmetic can
  wrap or saturates in the source, and naturals where they count bytes in memory.

  \<^bold>\<open>Parameters and hypotheses.\<close> Third-party code is an argument of the definitions that use it, and what is
  relied on is a named predicate: \<open>sha256_law\<close> and \<open>base32_law\<close> (sizes and alphabet), \<open>keyid_binds\<close> (no second
  key for this identifier), \<open>unforgeable\<close> (what verifies under a key was signed by its holder), \<open>cbor_roundtrip\<close>,
  \<open>store_frame\<close> (a put into libp2p's record store touches at most its own key), \<open>store_room\<close> (this store, in this
  state, takes a record under this key), \<open>query_laws\<close> (query identifiers are fresh), \<open>filter_laws\<close> (with
  record filtering libp2p itself stores nothing for others), \<open>kad_laws\<close> (what the configuration setters record), \<open>clock_laws\<close>
  (time does not run backwards) and \<open>keyring_laws\<close>. Each theorem that
  has such a hypothesis has a witness in which the parameter is a concrete function.

  \<^bold>\<open>Loops and bounds.\<close> \<open>resolve_loop\<close> is a \<open>partial_function\<close>, since it ends by the clock; that it returns, within 24
  lookups, is proved. After the abort flag a grinding thread takes at most 4100 more steps: the 4096
  keys it may draw between two looks at the flag and the few steps around them. A control connection reads at most
  64 KiB; a client that sends less and stays silent makes it wait (there is no timeout). All other functions are structurally recursive or not recursive.

  \<^bold>\<open>Not modelled.\<close> Log output and progress lines; the scrubbing of memory; the internals of libp2p, tokio, clap, serde, the
  keyring and the cryptographic crates; the copying of bytes in \<^verbatim>\<open>splice\<close>, which is one call of tokio; the Minecraft
  MOD under \<^verbatim>\<open>mod/\<close> (Java, a client of the agent's protocol); tests and fuzz targets.
\<close>

section \<open>From publisher to client\<close>

text \<open>A client that can look up what a storage node holds connects to the publisher, in any environment: the
  storage node takes the record, the client's first lookup has it among its candidates, and only the owner's
  records pass verification.\<close>

lemma published_reaches_client:
  assumes "sha256_law X" and "base32_law X"
    and "publish_start X (Ok peer) i n v = Ok (name, dk, peer)"
    and "rec = build_record X now i v peer addrs" and "signature_valid X rec"
    and "cbor_roundtrip X rec" and "length (Record_to_bytes X rec) \<le> MAX_RECORD_BYTES"
    and "keyid_binds X (name_keyid name) (public_bytes X i)"
    and "unforgeable X (public_bytes X i) issued"
    and "\<forall>b. canonical_bytes X b \<in> issued \<longrightarrow> body_peer_id b = peer"
    and "ne_get_record E e dk = (Ok cs, e1)" and "Record_to_bytes X rec \<in> set cs"
    and "\<bar>uint (now_secs E e1) - uint now\<bar> \<le> 300"
    and "ne_ed25519_peer E (public_bytes X i) = Ok peer"
  shows "\<exists>e'. establish X E name e = Some (Ok peer, e')"
proof -
  note start = publish_start_Ok [OF assms(1-3)]
  have "accepts X (name_keyid name) (now_secs E e1) MAX_SKEW (Record_to_bytes X rec) rec"
    using published_accepts [of X now i v peer addrs "name_keyid name" "now_secs E e1" MAX_SKEW]
      assms(4-7,13) start(5) by (simp add: word_le_def uint_abs_diff MAX_SKEW_def)
  then obtain r where r: "resolve X E name e = Some (Ok r, 1, e1)"
    "select_verified X cs (name_keyid name) (now_secs E e1) MAX_SKEW = Some r"
    using resolve_first [OF assms(11) [unfolded start(3)] assms(12)] by blast
  obtain bs where "accepts X (name_keyid name) (now_secs E e1) MAX_SKEW bs r"
    using select_verified_SomeD(1) [OF r(2)] by blast
  then have sig: "signature_valid X r" and pk: "body_pubkey (rec_body r) = public_bytes X i"
    using assms(8) by (auto simp: accepts_def Record_verify_Ok_iff keyid_binds_def)
  then have "body_peer_id (rec_body r) = peer"
    using signature_valid_issued [OF assms(9) sig pk] assms(10) by blast
  with r(1) pk assms(14) show ?thesis
    by (simp add: establish_def establish_with_def peer_id_from_ed25519_def)
qed

text \<open>What a storage node with room holds after the publisher's put, when it had nothing newer.\<close>

lemma published_is_stored:
  assumes "sha256_law X" and "base32_law X"
    and "publish_start X spawned i n v = Ok (name, dk, peer)"
    and "rec = build_record X now i v peer addrs" and "signature_valid X rec"
    and "cbor_roundtrip X rec" and "length (Record_to_bytes X rec) \<le> MAX_RECORD_BYTES"
    and "kr = \<lparr>kr_key = dk, kr_value = Record_to_bytes X rec, kr_publisher = pub, kr_expires = ex\<rparr>"
    and "store_room S sw dk" and "slot_ts X S dk sw < Some now"
    and "now \<le> saturating_add (wall_secs clk) MAX_FUTURE_SKEW"
  shows "\<exists>stored. store_get S (handle_inbound_put X S clk sw kr) dk = Some stored \<and>
    kr_value stored = Record_to_bytes X rec"
proof -
  note start = publish_start_Ok [OF assms(1-3)]
  have wire: "Record_from_bytes X (Record_to_bytes X rec) = Ok rec"
    using assms(6,7) by (simp add: Record_from_bytes_def Record_to_bytes_def cbor_roundtrip_def)
  have "authorizes_storage_key X rec dk"
    unfolding authorizes_storage_key_iff using assms(4,5) start(3-5) by auto
  moreover have "length dk = 32" using assms(1) by (simp add: start(3) dht_key_def sha256_law_def)
  ultimately have "validate_inbound_record X kr = Some rec"
    using wire by (simp add: validate_inbound_record_Some_iff assms(8))
  then show ?thesis
    using assms(4,7,9,10) leD [OF assms(11)]
    by (simp add: handle_inbound_put_def is_newer_iff store_room_def assms(8))
qed

text \<open>C1. End to end, across three nodes: a publisher signs a record and puts it; a storage node that has nothing newer under
  the name's key stores it; a client's node looks the key up, the storage node is among those that answer, with what
  it stores, and its answer reaches the client's event loop among any other events (other queries, junk
  answers, commands). Then the client's \<^verbatim>\<open>establish\<close>, running on that node, returns the publisher's own peer on its first
  lookup. The assumptions are those of the parts: the hash binds the name to the publisher's key, its
  signatures cannot be forged and it signs only its own peer id, the storage node's store has room under the key, and the clocks agree to
  within the skews.\<close>

theorem publish_store_connect:
  assumes "sha256_law X" and "base32_law X"
    and "publish_start X (Ok peer) i n v = Ok (name, dk, peer)"
    and "rec = build_record X now i v peer addrs" and "signature_valid X rec"
    and "cbor_roundtrip X rec" and "length (Record_to_bytes X rec) \<le> MAX_RECORD_BYTES"
    and "keyid_binds X (name_keyid name) (public_bytes X i)"
    and "unforgeable X (public_bytes X i) issued"
    and "\<forall>b. canonical_bytes X b \<in> issued \<longrightarrow> body_peer_id b = peer"
    and "kr = \<lparr>kr_key = dk, kr_value = Record_to_bytes X rec, kr_publisher = pub, kr_expires = ex\<rparr>"
    and "store_room S sw dk" and "slot_ts X S dk sw < Some now"
    and "now \<le> saturating_add (wall_secs clk) MAX_FUTURE_SKEW"
    and "query_laws S' V" and "node_ok V (nw_node w)" and "TGet (nw_sender w) \<notin># waiting (nw_node w)"
    and "lookup_run X S' V w dk q ls clk' rest"
    and "(c, Event (KadQueryProgressed q (QFoundRecord answer)), out) \<in> set ls"
    and "store_get S (handle_inbound_put X S clk sw kr) dk = Some answer"
    and "\<bar>uint (wall_secs (later (nw_clock w) clk')) - uint now\<bar> \<le> 300"
    and "P (public_bytes X i) = Ok peer"
  shows "\<exists>w'. establish X (node_env X S' P) name w = Some (Ok peer, w')"
proof -
  have "kr_value answer = Record_to_bytes X rec"
    using published_is_stored [OF assms(1-7,11-14)] assms(20) by auto
  then have "Record_to_bytes X rec \<in> set (candidates q ls)"
    using assms(7,19) by (force simp: candidates_def)
  moreover obtain w1 where "NetHandle_get_record X S' w dk = (Ok (candidates q ls), w1)"
    "nw_clock w1 = later (nw_clock w) clk'"
    using lookup_run_answer [OF assms(15-18)] by blast
  ultimately show ?thesis
    using published_reaches_client [OF assms(1-10), of "node_env X S' P" w] assms(21,22) by auto
qed

section \<open>From the vanity prefix to the published name\<close>

lemma publish_start_wf:
  assumes "sha256_law X" and "base32_law X" and "publish_start X spawned i n v = Ok (name, dk, peer)"
  shows "name_wf name"
proof -
  from assms(3) have "16 \<le> n" "n \<le> 52" "vanity_wf v"
    and "name = \<lparr>name_vanity = v, name_keyid = keyid_from_pubkey X (public_bytes X i) n\<rparr>"
    by (auto simp: publish_start_def Identity_name_def Name_from_pubkey_def tryq_eq_Ok_iff
        map_err_def validate_Ok_iffs split: sum.splits)
  then show ?thesis using keyid_from_pubkey_wf(1) [OF assms(1,2)] by (simp add: name_wf_def)
qed

text \<open>C17. A vanity prefix asked of \<^verbatim>\<open>init\<close> is the beginning of the key identifier of the name that \<^verbatim>\<open>publish\<close> then serves: whichever
  thread finds the key, under every interleaving of the grinding threads, the identity is stored, loaded again and
  published with that prefix. There is one exception: when \<^verbatim>\<open>init --force\<close> runs over an older identity in a keyring
  that it fails to overwrite, the older identity is published. In either case the name has the length asked for and
  every client can parse it.\<close>

theorem vanity_prefix_published:
  assumes "sha256_law X" and "base32_law X" and "keyring_laws K" and "readable w"
    and "ia_vanity_prefix args = Some pre"
    and "\<forall>len g. ground pre len = Ok g \<longrightarrow> (\<exists>threads g0 as g1. grind_start pre len threads = Ok g0 \<and>
      trace (grind_step X pre) g0 as g1 \<and> grind_result g1 = Some g)"
    and "cmd_init X K ground fresh args json w = (Ok printed, w')"
    and "\<forall>i. init_identity ground fresh args = Ok i \<longrightarrow> length (secret_bytes i) = 32"
    and "cmd_publish from_toml from_str K pargs w' = Ok (RunPublish i cfg n target v max_conns rate)"
    and "publish_open X E spawned i n target v e = Ok (name, dk, peer, d)"
  shows "(prefix pre (name_keyid name) \<or>
      ia_force args \<and> keyring_load K w = Some (secret_bytes i) \<and> keyring_load K w' = keyring_load K w) \<and>
    Name_keyid_len name = ia_keyid_len args \<and> Name_parse (Name_to_string name) = Ok name"
proof -
  from assms(7) obtain j loc nm where len: "16 \<le> ia_keyid_len args" "ia_keyid_len args \<le> 52"
    and j: "init_identity ground fresh args = Ok j"
      "save K w j (ia_keyid_len args) (ia_force args) = (Ok loc, w')"
    by (rule cmd_init_OkE)
  have "load_keyid_len w' = Ok (ia_keyid_len args)" using save_meta [OF j(2) _ assms(4)] len by simp
  then have i: "load K w' = Ok i" "n = ia_keyid_len args"
    using assms(9) by (auto simp: cmd_publish_def tryq_eq_Ok_iff Let_def)
  note opened = publish_open_Ok [OF assms(10)]
  have kid: "name_keyid name = keyid_from_pubkey X (public_bytes X i) (ia_keyid_len args)"
    using publish_start_Ok(2) [OF assms(1,2) opened(1)] i by simp
  from j(1) assms(5) have "ground pre (ia_keyid_len args) = Ok (Some j)"
    by (auto simp: init_identity_def tryq_eq_Ok_iff split: option.splits)
  with assms(6) grind_sound have "prefix pre (name_keyid name)" if "i = j" unfolding kid that by blast
  moreover have "i = j \<or> ia_force args \<and> keyring_load K w = Some (secret_bytes i) \<and>
      keyring_load K w' = keyring_load K w"
    using save_loads [OF assms(3) _ assms(4) j(2)] assms(8) j(1) i(1) by auto
  moreover have "name_wf name"
    using publish_start_wf [OF assms(1,2) opened(1)] .
  moreover have "length (name_keyid name) = ia_keyid_len args"
    unfolding kid by (rule keyid_from_pubkey_wf(2) [OF assms(1,2) len])
  ultimately show ?thesis
    by (auto simp: Name_keyid_len_def name_text.parse_print)
qed

section \<open>The owner's instance\<close>

lemma owner_identity_record:
  "build_record owner_externs 1900000000 (from_secret_bytes (replicate 32 7)) ''survival'' ''12D3''
     [''/ip4/127.0.0.1/tcp/4001''] = demo_record 1900000000"
  by (simp add: build_record_def demo_record_def demo_body_def Record_sign_def canonical_bytes_def
      RECORD_VERSION_def RECORD_TTL_def public_bytes_def signing_key_def from_secret_bytes_def)
    (simp add: owner_externs_def demo_crypto_def)

lemma owner_keyid_26:
  "keyid_from_pubkey owner_externs (public_bytes owner_externs (from_secret_bytes (replicate 32 7))) 26
     = owner_keyid"
proof -
  have "public_bytes owner_externs (from_secret_bytes (replicate 32 7)) = replicate 32 7"
    by (simp add: public_bytes_def from_secret_bytes_def owner_externs_def demo_crypto_def)
  moreover have "prefix owner_keyid (keyid_full_from_pubkey owner_externs (replicate 32 7))"
    by (simp only: owner_keyid_prefix)
  moreover have "length owner_keyid = 26" by (simp add: owner_keyid_def)
  ultimately show ?thesis by (auto simp: keyid_from_pubkey_def prefix_def)
qed

lemma owner_laws: "sha256_law owner_externs" "base32_law owner_externs"
  using demo_externs_laws(2) by (auto simp: sha256_law_def base32_law_def owner_externs_def)

definition owner_put :: kad_record where
  "owner_put = \<lparr>kr_key = dht_key owner_externs owner_keyid,
     kr_value = Record_to_bytes owner_externs (demo_record 1900000000), kr_publisher = None, kr_expires = None\<rparr>"

lemma owner_publish_start:
  "publish_start owner_externs (Ok ''12D3'') (from_secret_bytes (replicate 32 7)) 26 ''survival'' =
     Ok (\<lparr>name_vanity = ''survival'', name_keyid = owner_keyid\<rparr>, dht_key owner_externs owner_keyid, ''12D3'')"
proof -
  have "validate_vanity ''survival'' = Ok ()" "check_keyid_len 26 = Ok ()"
    by (simp_all add: validate_defs list_all_iff is_base32_lower_def)
  then show ?thesis
    by (simp add: publish_start_def Identity_name_def Name_from_pubkey_def Let_def owner_keyid_26)
qed

lemma owner_issued_peer: "\<forall>b. canonical_bytes owner_externs b \<in> owner_issued \<longrightarrow> body_peer_id b = ''12D3''"
proof (intro allI impI)
  fix b assume "canonical_bytes owner_externs b \<in> owner_issued"
  then have "enc_fields (body_fields b) = enc_fields (body_fields (rec_body (demo_record 1900000000)))"
    by (simp add: owner_issued_def canonical_bytes_def)
  then have "Some (body_fields b) = Some (body_fields (rec_body (demo_record 1900000000)))"
    by (metis dec_enc_fields)
  then have "b = rec_body (demo_record 1900000000)"
    by (metis body_of_body_fields option.inject)
  then show "body_peer_id b = ''12D3''" by (simp add: demo_record_def Record_sign_def demo_body_def)
qed


text \<open>A client's node that looks the owner's key up while junk, the stored record and a record of another
  query arrive.\<close>

definition owner_answer :: kad_record where
  "owner_answer = owner_put\<lparr>kr_expires := Some (mono_now (demo_clock 1900000000) + from_secs 600)\<rparr>"

definition owner_events :: "live_sw node_input list" where
  "owner_events = map (\<lambda>(q, r). Event (KadQueryProgressed q (QFoundRecord r)))
     [(0, owner_put\<lparr>kr_value := [0xde, 0xad]\<rparr>), (0, owner_answer), (1, demo_put 5)]"

definition owner_world :: "live_sw net_world" where
  "owner_world = \<lparr>nw_node = live_node, nw_running = True, nw_clock = demo_clock 1900000100,
     nw_inputs = map (Pair (demo_clock 1900000100))
       (owner_events @ [Event (KadQueryProgressed 0 QFinishedWithNoAdditionalRecord)]),
     nw_sender = 0\<rparr>"

lemma owner_record_size: "length (Record_to_bytes owner_externs (demo_record 1900000000)) \<le> MAX_RECORD_BYTES"
  using demo_record_length by (simp add: owner_codec)

lemma owner_lookup:
  "lookup_run owner_externs live_swarm live_view owner_world k 0
     (map (\<lambda>i. (demo_clock 1900000100, i, [])) owner_events) (demo_clock 1900000100) []"
  using owner_record_size
  by (simp add: lookup_run_def owner_world_def owner_events_def owner_answer_def owner_put_def live_node_def
      live_defs handle_event_def handle_kad_result_def asked_def MAX_RECORD_BYTES_def split: if_splits)

lemma owner_stored:
  "store_get demo_swarm (handle_inbound_put owner_externs demo_swarm (demo_clock 1900000000) (0, Map.empty) owner_put)
     (dht_key owner_externs owner_keyid) = Some owner_answer"
proof -
  have "authorizes_storage_key owner_externs (demo_record 1900000000) (dht_key owner_externs owner_keyid)"
    unfolding authorizes_storage_key_iff
    using owner_record_valid publish_start_Ok(4,5) [OF owner_laws owner_publish_start]
    by (auto simp: public_bytes_def from_secret_bytes_def owner_externs_def demo_crypto_def)
  moreover have "length (dht_key owner_externs owner_keyid) = 32"
    using owner_laws(1) by (simp add: dht_key_def sha256_law_def)
  ultimately have "validate_inbound_record owner_externs owner_put = Some (demo_record 1900000000)"
    by (simp add: validate_inbound_record_Some_iff owner_put_def owner_codec demo_record_wire)
  moreover have "body_ttl (rec_body (demo_record 1900000000)) = 600"
    by (simp add: demo_record_def Record_sign_def demo_body_def)
  ultimately show ?thesis
    by (simp add: handle_inbound_put_def is_newer_than_stored_def demo_swarm_def demo_clock_def
        saturating_add_def MAX_FUTURE_SKEW_def owner_answer_def owner_put_def)
qed

theorem publish_store_connect_witness:
  "\<exists>w'. establish owner_externs (node_env owner_externs live_swarm (\<lambda>_. Ok ''12D3''))
     \<lparr>name_vanity = ''survival'', name_keyid = owner_keyid\<rparr> owner_world = Some (Ok ''12D3'', w')"
proof (rule publish_store_connect [where sw = "(0, Map.empty)" and S = demo_swarm and clk = "demo_clock 1900000000"
      and addrs = "[''/ip4/127.0.0.1/tcp/4001'']" and kr = owner_put and pub = None and ex = None
      and answer = owner_answer and c = "demo_clock 1900000100" and out = "[]" and V = live_view])
  show "sha256_law owner_externs" and "base32_law owner_externs" by (rule owner_laws)+
  show "publish_start owner_externs (Ok ''12D3'') (from_secret_bytes (replicate 32 7)) 26 ''survival'' =
     Ok (\<lparr>name_vanity = ''survival'', name_keyid = owner_keyid\<rparr>, dht_key owner_externs owner_keyid, ''12D3'')"
    by (rule owner_publish_start)
  show "demo_record 1900000000 = build_record owner_externs 1900000000 (from_secret_bytes (replicate 32 7))
      ''survival'' ''12D3'' [''/ip4/127.0.0.1/tcp/4001'']"
    by (rule owner_identity_record [symmetric])
  show "signature_valid owner_externs (demo_record 1900000000)" by (rule owner_record_valid)
  show "cbor_roundtrip owner_externs (demo_record 1900000000)"
    using demo_cbor_roundtrip [of "demo_record 1900000000"] by (simp add: cbor_roundtrip_def)
  show "length (Record_to_bytes owner_externs (demo_record 1900000000)) \<le> MAX_RECORD_BYTES"
    by (rule owner_record_size)
  have pk: "public_bytes owner_externs (from_secret_bytes (replicate 32 7)) = replicate 32 7"
    by (simp add: public_bytes_def from_secret_bytes_def owner_externs_def demo_crypto_def)
  show "keyid_binds owner_externs (name_keyid \<lparr>name_vanity = ''survival'', name_keyid = owner_keyid\<rparr>)
      (public_bytes owner_externs (from_secret_bytes (replicate 32 7)))"
    using owner_assumptions(1) by (simp add: pk)
  show "unforgeable owner_externs (public_bytes owner_externs (from_secret_bytes (replicate 32 7))) owner_issued"
    using owner_assumptions(3) by (simp add: pk)
  show "\<forall>b. canonical_bytes owner_externs b \<in> owner_issued \<longrightarrow> body_peer_id b = ''12D3''"
    by (rule owner_issued_peer)
  show "owner_put = \<lparr>kr_key = dht_key owner_externs owner_keyid,
      kr_value = Record_to_bytes owner_externs (demo_record 1900000000), kr_publisher = None, kr_expires = None\<rparr>"
    by (simp add: owner_put_def)
  show "store_room demo_swarm (0, Map.empty) (dht_key owner_externs owner_keyid)" by (rule demo_store_laws)
  show "slot_ts owner_externs demo_swarm (dht_key owner_externs owner_keyid) (0, Map.empty) < Some 1900000000"
    by (simp add: slot_ts_def demo_swarm_def)
  show "(1900000000 :: u64) \<le> saturating_add (wall_secs (demo_clock 1900000000)) MAX_FUTURE_SKEW"
    by (simp add: demo_clock_def word_le_nat_alt unat_saturating_add MAX_FUTURE_SKEW_def)
  show "query_laws live_swarm live_view" by (rule live_query_laws)
  show "node_ok live_view (nw_node owner_world)" and "TGet (nw_sender owner_world) \<notin># waiting (nw_node owner_world)"
    using spawn_node_ok [OF demo_spawn] spawn_waiting [OF demo_spawn] by (simp_all add: owner_world_def)
  show "lookup_run owner_externs live_swarm live_view owner_world (dht_key owner_externs owner_keyid) 0
      (map (\<lambda>i. (demo_clock 1900000100, i, [])) owner_events) (demo_clock 1900000100) []"
    by (rule owner_lookup)
  show "(demo_clock 1900000100, Event (KadQueryProgressed 0 (QFoundRecord owner_answer)), [])
      \<in> set (map (\<lambda>i. (demo_clock 1900000100, i, [])) owner_events)"
    by (simp add: owner_events_def)
  show "store_get demo_swarm (handle_inbound_put owner_externs demo_swarm (demo_clock 1900000000) (0, Map.empty)
      owner_put) (dht_key owner_externs owner_keyid) = Some owner_answer"
    by (rule owner_stored)
  show "\<bar>uint (wall_secs (later (nw_clock owner_world) (demo_clock 1900000100))) - uint (1900000000 :: u64)\<bar> \<le> 300"
    by (simp add: later_def owner_world_def demo_clock_def)
qed simp

text \<open>A profile made with the prefix \<open>a\<close>.\<close>

definition vanity_args :: init_args where
  "vanity_args = \<lparr>ia_keyid_len = 26, ia_vanity_prefix = Some ''a'', ia_force = False\<rparr>"

definition vanity_ground :: "string \<Rightarrow> nat \<Rightarrow> (anyhow_error, identity option) result" where
  "vanity_ground pre len =
     (if pre = ''a'' \<and> len = 26 then Ok (Some (from_secret_bytes demo_secret)) else Err ''not tried'')"

definition vanity_saved :: "(keyring_key \<rightharpoonup> bytes) machine" where
  "vanity_saved = snd (save (map_keyring True) (demo_machine Map.empty) (from_secret_bytes demo_secret) 26 False)"

lemma vanity_save:
  "save (map_keyring True) (demo_machine Map.empty) (from_secret_bytes demo_secret) 26 False
     = (Ok ''OS keyring'', vanity_saved)"
  by (simp add: vanity_saved_def save_def identity_exists_def keyring_load_def keyring_entry_def
      config_dir_def key_path_def meta_path_def store_secret_def path_exists_def fs_defs
      map_keyring_def demo_machine_def)

lemma vanity_init_identity: "init_identity vanity_ground [] vanity_args = Ok (from_secret_bytes demo_secret)"
  by (simp add: init_identity_def vanity_args_def vanity_ground_def)

lemma vanity_init:
  "\<exists>printed. cmd_init demo_externs (map_keyring True) vanity_ground [] vanity_args False (demo_machine Map.empty) =
     (Ok printed, vanity_saved)"
proof -
  have "identity_exists (map_keyring True) (demo_machine Map.empty) = Ok False"
    by (simp add: identity_exists_def keyring_load_def keyring_entry_def config_dir_def key_path_def
        path_exists_def map_keyring_def demo_machine_def)
  moreover have "cli_check_keyid_len 26 = Ok ()" and "check_keyid_len 26 = Ok ()"
    by (simp_all add: cli_check_keyid_len_Ok check_keyid_len_Ok_iff)
  ultimately show ?thesis
    using vanity_save vanity_init_identity
    by (simp add: cmd_init_def vanity_args_def Identity_name_def Name_from_pubkey_def validate_vanity_def)
qed

lemma vanity_publish:
  "\<exists>cfg. cmd_publish (\<lambda>_. Err []) (\<lambda>_. Err []) (map_keyring True)
     \<lparr>pa_target = None, pa_vanity = None, pa_max_conns = None\<rparr> vanity_saved =
     Ok (RunPublish (from_secret_bytes demo_secret) cfg 26 ''127.0.0.1:25565'' [] 32 16)"
proof -
  have "length (secret_bytes (from_secret_bytes demo_secret)) = 32" by (simp add: demo_secret_def)
  then have "load (map_keyring True) vanity_saved = Ok (from_secret_bytes demo_secret)"
    and "load_keyid_len vanity_saved = Ok 26"
    using save_reload [OF map_keyring_laws _ demo_readable vanity_save] save_meta [OF vanity_save _ demo_readable]
    by auto
  moreover have "Config_load (\<lambda>_. Err []) vanity_saved = Ok Config_default"
    by (rule Config_load_missing [where p = "''/home/a/config.toml''"])
      (simp_all add: vanity_saved_def save_def identity_exists_def keyring_load_def keyring_entry_def
        config_dir_def key_path_def meta_path_def store_secret_def path_exists_def fs_defs Config_path_def
        map_keyring_def demo_machine_def join_path_def META_FILE_def KEY_FILE_def)
  ultimately show ?thesis
    by (simp add: cmd_publish_def Config_default_def NetworkCfg_default_def PublishCfg_default_def
        net_opts_of_def net_config_of_def parse_addrs_def unwrap_or_def Let_def)
qed

theorem vanity_prefix_published_witness:
  "\<exists>name dk peer d. publish_open demo_externs demo_env (Ok ''12D3'') (from_secret_bytes demo_secret)
      26 ''127.0.0.1:25565'' [] 0 = Ok (name, dk, peer, d) \<and> prefix ''a'' (name_keyid name)"
proof -
  obtain printed where init: "cmd_init demo_externs (map_keyring True) vanity_ground [] vanity_args False
      (demo_machine Map.empty) = (Ok printed, vanity_saved)"
    using vanity_init by blast
  obtain cfg where pub: "cmd_publish (\<lambda>_. Err []) (\<lambda>_. Err []) (map_keyring True)
      \<lparr>pa_target = None, pa_vanity = None, pa_max_conns = None\<rparr> vanity_saved =
      Ok (RunPublish (from_secret_bytes demo_secret) cfg 26 ''127.0.0.1:25565'' [] 32 16)"
    using vanity_publish by blast
  obtain name dk peer d where opn: "publish_open demo_externs demo_env (Ok ''12D3'')
      (from_secret_bytes demo_secret) 26 ''127.0.0.1:25565'' [] 0 = Ok (name, dk, peer, d)"
    by (simp add: publish_open_def publish_start_def Identity_name_def
        Name_from_pubkey_def validate_defs Let_def)
  have "grind_result (demo_grinder True 1 [] Exited (Reported (Some demo_secret))) =
      Some (Some (from_secret_bytes demo_secret))"
    by (simp add: grind_result_def demo_grinder_def)
  then have "\<exists>threads g0 as g1. grind_start ''a'' 26 threads = Ok g0 \<and> trace (grind_step demo_externs ''a'') g0 as g1 \<and>
      grind_result g1 = Some (Some (from_secret_bytes demo_secret))"
    using demo_grind_start demo_grind_traces(3) by blast
  then have "\<forall>len g. vanity_ground ''a'' len = Ok g \<longrightarrow> (\<exists>threads g0 as g1. grind_start ''a'' len threads = Ok g0 \<and>
      trace (grind_step demo_externs ''a'') g0 as g1 \<and> grind_result g1 = Some g)"
    by (simp add: vanity_ground_def)
  moreover have "ia_vanity_prefix vanity_args = Some ''a''" "\<not> ia_force vanity_args"
    by (simp_all add: vanity_args_def)
  moreover have "\<forall>i. init_identity vanity_ground [] vanity_args = Ok i \<longrightarrow> length (secret_bytes i) = 32"
    using vanity_init_identity by (simp add: demo_secret_def)
  ultimately show ?thesis
    using vanity_prefix_published [OF demo_externs_laws(1,2) map_keyring_laws demo_readable _ _ init _ pub opn]
      opn by blast
qed

end
